(* ===== verification/Prelude.thy ===== *)
theory Prelude
  imports Main "HOL-Library.Sublist" "HOL-Library.Multiset"
begin

text \<open>
  Shared vocabulary and automation of the development.

  The Go program is translated with the following conventions. A Go string and a
  \<^verbatim>\<open>[]byte\<close> are a \<^typ>\<open>string\<close> (a \<^typ>\<open>char list\<close>; a \<^typ>\<open>char\<close> is a byte, so
  \<^const>\<open>length\<close> is Go's \<^verbatim>\<open>len\<close>). A pointer to a scalar, which may be nil, is an
  \<^typ>\<open>'a option\<close>; a nil-able slice is a \<^typ>\<open>'a list option\<close> read through
  \<open>elems\<close>. A result \<^verbatim>\<open>(value, error)\<close> is a sum, \<^const>\<open>Inl\<close> for the error. A
  \<^verbatim>\<open>time.Time\<close> is an \<^typ>\<open>int\<close>, the nanoseconds since the Unix epoch.

  The theory also holds the collections (\<^theory_text>\<open>named_theorems\<close>) that the component
  theories extend and the generic lemmas on lists, keyed rows and sums they share.
\<close>

named_theorems go_string \<comment> \<open>Go's strings package on byte lists\<close>
named_theorems err_simps \<comment> \<open>error chains: Is, As and messages\<close>
named_theorems run_simps \<comment> \<open>running programs against an environment\<close>
named_theorems contract \<comment> \<open>contracts of operations, in weakest-precondition form\<close>
named_theorems row_simps \<comment> \<open>lookups and updates of keyed rows\<close>

type_synonym time = int

text \<open>\<^verbatim>\<open>t.Unix()\<close>.\<close>

definition unix_seconds :: "time \<Rightarrow> int" where
  "unix_seconds t = t div 1000000000"

definition elems :: "'a list option \<Rightarrow> 'a list" where
  "elems s = (case s of None \<Rightarrow> [] | Some xs \<Rightarrow> xs)"

lemma elems_simps [simp]: "elems None = []" "elems (Some xs) = xs"
  by (simp_all add: elems_def)

subsection \<open>Keyed rows\<close>

text \<open>
  A table is a list of rows. A row is found by its key, all rows with the key are
  changed by an update and dropped by a deletion.
\<close>

definition find_row :: "('r \<Rightarrow> 'k) \<Rightarrow> 'k \<Rightarrow> 'r list \<Rightarrow> 'r option" where
  "find_row key k rs = find (\<lambda>r. key r = k) rs"

definition update_rows :: "('r \<Rightarrow> bool) \<Rightarrow> ('r \<Rightarrow> 'r) \<Rightarrow> 'r list \<Rightarrow> 'r list" where
  "update_rows p f rs = map (\<lambda>r. if p r then f r else r) rs"

lemma find_row_Nil [row_simps]: "find_row key k [] = None"
  by (simp add: find_row_def)

lemma find_row_Cons [row_simps]:
  "find_row key k (r # rs) = (if key r = k then Some r else find_row key k rs)"
  by (simp add: find_row_def)

lemma find_row_append [row_simps]:
  "find_row key k (rs @ qs) =
     (case find_row key k rs of None \<Rightarrow> find_row key k qs | Some r \<Rightarrow> Some r)"
  by (induction rs) (simp_all add: row_simps)

lemma find_row_update [row_simps]:
  assumes "\<And>r. p r \<Longrightarrow> key (f r) = key r"
  shows "find_row key k (update_rows p f rs) =
    map_option (\<lambda>r. if p r then f r else r) (find_row key k rs)"
  using assms by (induction rs) (auto simp: row_simps update_rows_def)

lemma find_row_filter [row_simps]:
  assumes "\<And>r. key r = k \<Longrightarrow> p r"
  shows "find_row key k (filter p rs) = find_row key k rs"
  using assms by (induction rs) (auto simp: row_simps)

lemma find_row_SomeD: "find_row key k rs = Some r \<Longrightarrow> r \<in> set rs \<and> key r = k"
  by (induction rs) (auto simp: row_simps split: if_splits)

lemma find_row_None_iff: "find_row key k rs = None \<longleftrightarrow> k \<notin> key ` set rs"
  by (induction rs) (auto simp: row_simps)

lemma find_row_distinct:
  "distinct (map key rs) \<Longrightarrow> r \<in> set rs \<Longrightarrow> find_row key (key r) rs = Some r"
  by (induction rs) (auto simp: row_simps)

subsection \<open>Windows of a list\<close>

lemma distinct_window: "distinct xs \<Longrightarrow> distinct (take n (drop m xs))"
  by simp

lemma set_window_subset: "set (take n (drop m xs)) \<subseteq> set xs"
  by (meson order_trans set_drop_subset set_take_subset)

lemma sorted_wrt_window: "sorted_wrt r xs \<Longrightarrow> sorted_wrt r (take n (drop m xs))"
  by (simp add: sorted_wrt_drop sorted_wrt_take)

end
