(* ===== verification/Go_Error.thy ===== *)
theory Go_Error
  imports Prelude
begin

text \<open>
  Go error values (\<^verbatim>\<open>internal/domain/errors.go\<close> and the wrapping done with
  \<^verbatim>\<open>fmt.Errorf\<close> all over \<^verbatim>\<open>internal/\<close>). The five sentinels of package domain and the
  two sentinels of the drivers the code compares against are constructors; an error
  built with the verb \<^verbatim>\<open>%w\<close> keeps the error it wraps together with the text before
  and after it, so that both \<^verbatim>\<open>errors.Is\<close> and \<^verbatim>\<open>Error()\<close> can be computed.
\<close>

datatype gerr =
    ErrNotFound
  | ErrAlreadyExists
  | ErrValidation
  | ErrUnauthorized
  | ErrForbidden
  | ErrNoRows                 \<comment> \<open>\<^verbatim>\<open>pgx.ErrNoRows\<close>\<close>
  | RedisNil                  \<comment> \<open>\<^verbatim>\<open>redis.Nil\<close>\<close>
  | PgError string string     \<comment> \<open>\<^verbatim>\<open>*pgconn.PgError\<close>: SQLSTATE code and message\<close>
  | PlainErr string           \<comment> \<open>any other error, by its message\<close>
  | Wrapf string gerr string  \<comment> \<open>\<^verbatim>\<open>fmt.Errorf\<close> with one \<^verbatim>\<open>%w\<close>\<close>

fun err_msg :: "gerr \<Rightarrow> string" where
  "err_msg ErrNotFound = ''resource not found''"
| "err_msg ErrAlreadyExists = ''resource already exists''"
| "err_msg ErrValidation = ''validation error''"
| "err_msg ErrUnauthorized = ''unauthorized''"
| "err_msg ErrForbidden = ''forbidden''"
| "err_msg ErrNoRows = ''no rows in result set''"
| "err_msg RedisNil = ''redis: nil''"
| "err_msg (PgError code msg) = ''ERROR: '' @ msg @ '' (SQLSTATE '' @ code @ '')''"
| "err_msg (PlainErr msg) = msg"
| "err_msg (Wrapf pre e post) = pre @ err_msg e @ post"

text \<open>\<^verbatim>\<open>errors.Is\<close> compares the error and everything it wraps with a sentinel.\<close>

fun errors_is :: "gerr \<Rightarrow> gerr \<Rightarrow> bool" where
  "errors_is (Wrapf pre e post) t = (Wrapf pre e post = t \<or> errors_is e t)"
| "errors_is e t = (e = t)"

text \<open>\<^verbatim>\<open>errors.As\<close> with a \<^verbatim>\<open>*pgconn.PgError\<close> target.\<close>

fun errors_as_pg :: "gerr \<Rightarrow> string option" where
  "errors_as_pg (PgError code msg) = Some code"
| "errors_as_pg (Wrapf pre e post) = errors_as_pg e"
| "errors_as_pg e = None"

definition sentinel :: "gerr \<Rightarrow> bool" where
  "sentinel e \<longleftrightarrow> e \<in> {ErrNotFound, ErrAlreadyExists, ErrValidation, ErrUnauthorized, ErrForbidden}"

text \<open>The error at the end of a chain: what \<^verbatim>\<open>errors.Is\<close> can find besides the wrappers.\<close>

fun root_cause :: "gerr \<Rightarrow> gerr" where
  "root_cause (Wrapf pre e post) = root_cause e"
| "root_cause e = e"

lemma errors_is_wrap [err_simps]:
  "sentinel t \<Longrightarrow> errors_is (Wrapf pre e post) t = errors_is e t"
  by (auto simp: sentinel_def)

lemma errors_is_root_cause: "sentinel t \<Longrightarrow> errors_is e t \<longleftrightarrow> root_cause e = t"
  by (induction e) (auto simp: sentinel_def)

lemma errors_is_self [err_simps]: "errors_is e e"
  by (cases e) auto

lemma sentinel_simps [simp, err_simps]:
  "sentinel ErrNotFound" "sentinel ErrAlreadyExists" "sentinel ErrValidation"
  "sentinel ErrUnauthorized" "sentinel ErrForbidden"
  by (simp_all add: sentinel_def)

subsection \<open>Validation errors\<close>

record ValidationError =
  ve_Field :: string
  ve_Message :: string

definition ValidationError_Error :: "ValidationError \<Rightarrow> string" where
  "ValidationError_Error e = ve_Field e @ '': '' @ ve_Message e"

text \<open>The verb \<^verbatim>\<open>%v\<close> on a slice of them: their \<^verbatim>\<open>Error()\<close> texts in brackets.\<close>

fun join_space :: "string list \<Rightarrow> string" where
  "join_space [] = []"
| "join_space [x] = x"
| "join_space (x # xs) = x @ '' '' @ join_space xs"

definition fmt_slice :: "string list \<Rightarrow> string" where
  "fmt_slice xs = ''['' @ join_space xs @ '']''"

definition validation_failure :: "ValidationError list \<Rightarrow> gerr" where
  "validation_failure errs =
     Wrapf '''' ErrValidation ('': '' @ fmt_slice (map ValidationError_Error errs))"

lemma validation_failure_is [err_simps]:
  "errors_is (validation_failure errs) t \<longleftrightarrow>
     t = validation_failure errs \<or> t = ErrValidation"
  by (auto simp: validation_failure_def)

end
