(* ===== verification/Domain.thy ===== *)
theory Domain
  imports Go_Error
begin

text \<open>
  Package \<^verbatim>\<open>internal/domain\<close>: the structs, the input structs with their
  \<^verbatim>\<open>Validate\<close> methods and the event status constants. Field \<^verbatim>\<open>X\<close> of a struct is
  the record field with the struct's prefix (\<open>ev_X\<close>, \<open>ep_X\<close>, \<open>tn_X\<close>, \<open>da_X\<close>, \<open>dl_X\<close>).
  The life cycle of an event, as a relation between its phases, is in theory \<open>Life_Cycle\<close>.
\<close>

subsection \<open>Structs\<close>

record tenant =
  tn_ID :: string
  tn_Name :: string
  tn_APIKey :: string
  tn_RateLimitPerMinute :: int
  tn_MaxRetries :: int
  tn_RetryBaseMs :: int
  tn_CreatedAt :: time
  tn_UpdatedAt :: time

record CreateTenantInput =
  ct_Name :: string
  ct_RateLimitPerMinute :: int
  ct_MaxRetries :: int
  ct_RetryBaseMs :: int

record UpdateTenantInput =
  ut_Name :: "string option"
  ut_RateLimitPerMinute :: "int option"
  ut_MaxRetries :: "int option"
  ut_RetryBaseMs :: "int option"

record endpoint =
  ep_ID :: string
  ep_TenantID :: string
  ep_URL :: string
  ep_Description :: string
  ep_EventTypes :: "string list option"
  ep_Secret :: string
  ep_Active :: bool
  ep_CreatedAt :: time
  ep_UpdatedAt :: time

record CreateEndpointInput =
  ce_URL :: string
  ce_Description :: string
  ce_EventTypes :: "string list option"
  ce_Active :: "bool option"

record UpdateEndpointInput =
  ue_URL :: "string option"
  ue_Description :: "string option"
  ue_EventTypes :: "string list option"
  ue_Active :: "bool option"

record event =
  ev_ID :: string
  ev_TenantID :: string
  ev_EndpointID :: string
  ev_EventType :: string
  ev_Payload :: string
  ev_Signature :: string
  ev_Status :: string
  ev_AttemptCount :: int
  ev_MaxAttempts :: int
  ev_NextRetryAt :: "time option"
  ev_CreatedAt :: time
  ev_UpdatedAt :: time

record CreateEventInput =
  ci_EndpointID :: string
  ci_EventType :: string
  ci_Payload :: string

record DeliveryAttempt =
  da_ID :: string
  da_EventID :: string
  da_EndpointID :: string
  da_AttemptNumber :: int
  da_StatusCode :: int
  da_ResponseBody :: string
  da_ResponseHeaders :: string
  da_ErrorMessage :: string
  da_DurationMs :: int
  da_CreatedAt :: time

record DeadLetterEvent =
  dl_ID :: string
  dl_TenantID :: string
  dl_EndpointID :: string
  dl_OriginalEventID :: string
  dl_EventType :: string
  dl_Payload :: string
  dl_FailureReason :: string
  dl_LastStatusCode :: int
  dl_TotalAttempts :: int
  dl_CreatedAt :: time

subsection \<open>Validation of inputs\<close>

definition ve :: "string \<Rightarrow> string \<Rightarrow> ValidationError" where
  "ve field message = \<lparr>ve_Field = field, ve_Message = message\<rparr>"

definition CreateTenantInput_Validate :: "CreateTenantInput \<Rightarrow> ValidationError list" where
  "CreateTenantInput_Validate i =
     (if ct_Name i = '''' then [ve ''name'' ''is required'']
      else if length (ct_Name i) > 255
      then [ve ''name'' ''must be 255 characters or less''] else [])
     @ (if ct_RateLimitPerMinute i < 0
        then [ve ''rate_limit_per_minute'' ''must be non-negative''] else [])
     @ (if ct_MaxRetries i < 0 \<or> ct_MaxRetries i > 10
        then [ve ''max_retries'' ''must be between 0 and 10''] else [])
     @ (if ct_RetryBaseMs i \<noteq> 0 \<and> ct_RetryBaseMs i < 100
        then [ve ''retry_base_ms'' ''must be at least 100ms''] else [])"

text \<open>The loop over the event types stops at the first empty one.\<close>

fun event_types_errs :: "string list \<Rightarrow> ValidationError list" where
  "event_types_errs [] = []"
| "event_types_errs (et # ets) =
     (if et = '''' then [ve ''event_types'' ''must not contain empty strings'']
      else event_types_errs ets)"

definition CreateEndpointInput_Validate :: "CreateEndpointInput \<Rightarrow> ValidationError list" where
  "CreateEndpointInput_Validate i =
     (if ce_URL i = '''' then [ve ''url'' ''is required'']
      else if length (ce_URL i) > 2048
      then [ve ''url'' ''must be 2048 characters or less''] else [])
     @ (if length (ce_Description i) > 1000
        then [ve ''description'' ''must be 1000 characters or less''] else [])
     @ event_types_errs (elems (ce_EventTypes i))"

definition CreateEventInput_Validate :: "CreateEventInput \<Rightarrow> ValidationError list" where
  "CreateEventInput_Validate i =
     (if ci_EndpointID i = '''' then [ve ''endpoint_id'' ''is required''] else [])
     @ (if ci_EventType i = '''' then [ve ''event_type'' ''is required''] else [])
     @ (if length (ci_Payload i) = 0 then [ve ''payload'' ''is required''] else [])
     @ (if length (ci_EventType i) > 255
        then [ve ''event_type'' ''must be 255 characters or less''] else [])"

text \<open>What an accepted input satisfies, read off the conditions.\<close>

definition valid_tenant_input :: "CreateTenantInput \<Rightarrow> bool" where
  "valid_tenant_input i \<longleftrightarrow> ct_Name i \<noteq> '''' \<and> length (ct_Name i) \<le> 255
     \<and> 0 \<le> ct_RateLimitPerMinute i \<and> 0 \<le> ct_MaxRetries i \<and> ct_MaxRetries i \<le> 10
     \<and> (ct_RetryBaseMs i = 0 \<or> 100 \<le> ct_RetryBaseMs i)"

definition valid_endpoint_input :: "CreateEndpointInput \<Rightarrow> bool" where
  "valid_endpoint_input i \<longleftrightarrow> ce_URL i \<noteq> '''' \<and> length (ce_URL i) \<le> 2048
     \<and> length (ce_Description i) \<le> 1000 \<and> '''' \<notin> set (elems (ce_EventTypes i))"

definition valid_event_input :: "CreateEventInput \<Rightarrow> bool" where
  "valid_event_input i \<longleftrightarrow> ci_EndpointID i \<noteq> '''' \<and> ci_EventType i \<noteq> ''''
     \<and> ci_Payload i \<noteq> '''' \<and> length (ci_EventType i) \<le> 255"

lemma event_types_errs_Nil_iff [simp]: "event_types_errs ets = [] \<longleftrightarrow> '''' \<notin> set ets"
  by (induction ets) auto

lemma event_types_errs_at_most_one: "length (event_types_errs ets) \<le> 1"
  by (induction ets) auto

lemma tenant_input_accepted_iff:
  "CreateTenantInput_Validate i = [] \<longleftrightarrow> valid_tenant_input i"
  by (auto simp: CreateTenantInput_Validate_def valid_tenant_input_def not_less)

lemma endpoint_input_accepted_iff:
  "CreateEndpointInput_Validate i = [] \<longleftrightarrow> valid_endpoint_input i"
  by (auto simp: CreateEndpointInput_Validate_def valid_endpoint_input_def not_less)

lemma event_input_accepted_iff:
  "CreateEventInput_Validate i = [] \<longleftrightarrow> valid_event_input i"
  by (auto simp: CreateEventInput_Validate_def valid_event_input_def not_less)

subsection \<open>Event statuses\<close>

definition EventStatusPending :: string where "EventStatusPending = ''pending''"
definition EventStatusQueued :: string where "EventStatusQueued = ''queued''"
definition EventStatusDelivering :: string where "EventStatusDelivering = ''delivering''"
definition EventStatusDelivered :: string where "EventStatusDelivered = ''delivered''"
definition EventStatusFailed :: string where "EventStatusFailed = ''failed''"
definition EventStatusRetrying :: string where "EventStatusRetrying = ''retrying''"

lemmas status_defs =
  EventStatusPending_def EventStatusQueued_def EventStatusDelivering_def
  EventStatusDelivered_def EventStatusFailed_def EventStatusRetrying_def

definition resolved :: "string \<Rightarrow> bool" where
  "resolved st \<longleftrightarrow> st = EventStatusDelivered \<or> st = EventStatusFailed"

lemma status_distinct [simp]:
  "EventStatusQueued \<noteq> EventStatusPending" "EventStatusRetrying \<noteq> EventStatusPending"
  "EventStatusDelivered \<noteq> EventStatusPending" "EventStatusFailed \<noteq> EventStatusPending"
  "EventStatusRetrying \<noteq> EventStatusQueued" "EventStatusDelivered \<noteq> EventStatusQueued"
  "EventStatusFailed \<noteq> EventStatusQueued" "EventStatusDelivered \<noteq> EventStatusRetrying"
  "EventStatusFailed \<noteq> EventStatusRetrying" "EventStatusFailed \<noteq> EventStatusDelivered"
  "EventStatusPending \<noteq> EventStatusQueued" "EventStatusPending \<noteq> EventStatusRetrying"
  "EventStatusPending \<noteq> EventStatusDelivered" "EventStatusPending \<noteq> EventStatusFailed"
  "EventStatusQueued \<noteq> EventStatusRetrying" "EventStatusQueued \<noteq> EventStatusDelivered"
  "EventStatusQueued \<noteq> EventStatusFailed" "EventStatusRetrying \<noteq> EventStatusDelivered"
  "EventStatusRetrying \<noteq> EventStatusFailed" "EventStatusDelivered \<noteq> EventStatusFailed"
  by (simp_all add: status_defs)

lemma resolved_simps [simp]:
  "resolved EventStatusDelivered" "resolved EventStatusFailed"
  "\<not> resolved EventStatusPending" "\<not> resolved EventStatusQueued"
  "\<not> resolved EventStatusRetrying"
  by (simp_all add: resolved_def)

end
