(* ===== verification/Go_Strings.thy ===== *)
theory Go_Strings
  imports Go_Error
begin

text \<open>
  What the source uses of the Go standard library on strings: prefixes and suffixes,
  \<^verbatim>\<open>strings.Split\<close> on one byte, \<^verbatim>\<open>strings.SplitN(s, sep, 2)\<close>, the verb \<^verbatim>\<open>%d\<close> (also
  \<^verbatim>\<open>strconv.Itoa\<close>), \<^verbatim>\<open>strconv.ParseInt(s, 10, 64)\<close>, \<^verbatim>\<open>strconv.Atoi\<close>, \<^verbatim>\<open>hex.EncodeToString\<close> and
  \<^verbatim>\<open>strconv.Quote\<close> (exact on ASCII; bytes from 128 on are kept, as printable runes are).
  The lemmas are the round trip of decimal numbers and the characters these texts can hold.
\<close>

subsection \<open>Prefixes, suffixes, splitting\<close>

definition HasPrefix :: "string \<Rightarrow> string \<Rightarrow> bool" where
  "HasPrefix s p = prefix p s"

definition HasSuffix :: "string \<Rightarrow> string \<Rightarrow> bool" where
  "HasSuffix s p = suffix p s"

definition TrimPrefix :: "string \<Rightarrow> string \<Rightarrow> string" where
  "TrimPrefix s p = (if HasPrefix s p then drop (length p) s else s)"

definition TrimSuffix :: "string \<Rightarrow> string \<Rightarrow> string" where
  "TrimSuffix s p = (if HasSuffix s p then take (length s - length p) s else s)"

fun Split :: "string \<Rightarrow> char \<Rightarrow> string list" where
  "Split [] c = [[]]"
| "Split (x # xs) c =
     (if x = c then [] # Split xs c
      else (case Split xs c of [] \<Rightarrow> [[x]] | y # ys \<Rightarrow> (x # y) # ys))"

definition SplitN2 :: "string \<Rightarrow> char \<Rightarrow> string list" where
  "SplitN2 s c =
     (if c \<in> set s then [takeWhile (\<lambda>x. x \<noteq> c) s, tl (dropWhile (\<lambda>x. x \<noteq> c) s)] else [s])"

lemma HasPrefix_append [go_string]: "HasPrefix (p @ s) p"
  by (simp add: HasPrefix_def)

lemma HasPrefix_iff: "HasPrefix s p \<longleftrightarrow> (\<exists>r. s = p @ r)"
  by (auto simp: HasPrefix_def prefix_def)

lemma HasSuffix_iff: "HasSuffix s p \<longleftrightarrow> (\<exists>r. s = r @ p)"
  by (auto simp: HasSuffix_def suffix_def)

lemma TrimPrefix_append [go_string]: "TrimPrefix (p @ s) p = s"
  by (simp add: TrimPrefix_def go_string)

lemma TrimSuffix_append [go_string]: "TrimSuffix (s @ p) p = s"
  by (simp add: TrimSuffix_def HasSuffix_def suffix_def)

lemma Split_no_sep [go_string]: "c \<notin> set s \<Longrightarrow> Split s c = [s]"
  by (induction s) auto

lemma Split_append_sep [go_string]: "c \<notin> set s \<Longrightarrow> Split (s @ c # t) c = s # Split t c"
  by (induction s) auto

lemma SplitN2_sep [go_string]: "c \<notin> set k \<Longrightarrow> SplitN2 (k @ c # v) c = [k, v]"
proof -
  assume "c \<notin> set k"
  then have "x \<in> set k \<Longrightarrow> x \<noteq> c" for x by auto
  then show ?thesis by (simp add: SplitN2_def takeWhile_append2 dropWhile_append2)
qed

subsection \<open>Decimal numbers\<close>

definition digit_char :: "nat \<Rightarrow> char" where
  "digit_char n = char_of (48 + n)"

definition is_digit :: "char \<Rightarrow> bool" where
  "is_digit c \<longleftrightarrow> 48 \<le> (of_char c :: nat) \<and> (of_char c :: nat) \<le> 57"

definition digit_value :: "char \<Rightarrow> nat" where
  "digit_value c = of_char c - 48"

fun show_nat :: "nat \<Rightarrow> string" where
  "show_nat n =
     (if n < 10 then [digit_char n] else show_nat (n div 10) @ [digit_char (n mod 10)])"

declare show_nat.simps [simp del]

definition show_int :: "int \<Rightarrow> string" where
  "show_int i = (if i < 0 then ''-'' @ show_nat (nat (- i)) else show_nat (nat i))"

definition digits_value :: "string \<Rightarrow> nat" where
  "digits_value s = foldl (\<lambda>n c. n * 10 + digit_value c) 0 s"

lemma is_digit_digit_char [simp]: "n < 10 \<Longrightarrow> is_digit (digit_char n)"
  by (simp add: is_digit_def digit_char_def)

lemma digit_value_digit_char [simp]: "n < 10 \<Longrightarrow> digit_value (digit_char n) = n"
  by (simp add: digit_value_def digit_char_def)

lemma show_nat_digits: "list_all is_digit (show_nat n)"
proof (induction n rule: show_nat.induct)
  case (1 n)
  then show ?case by (simp add: show_nat.simps [of n])
qed

lemma show_nat_nonempty [simp]: "show_nat n \<noteq> []"
  by (simp add: show_nat.simps [of n])

lemma digits_value_snoc: "digits_value (s @ [c]) = digits_value s * 10 + digit_value c"
  by (simp add: digits_value_def)

lemma digits_value_show_nat [simp]: "digits_value (show_nat n) = n"
proof (induction n rule: show_nat.induct)
  case (1 n)
  show ?case
  proof (cases "n < 10")
    case True
    then show ?thesis by (simp add: show_nat.simps [of n] digits_value_def)
  next
    case False
    with 1 show ?thesis by (simp add: show_nat.simps [of n] digits_value_snoc)
  qed
qed

lemma show_nat_chars: "c \<in> set (show_nat n) \<Longrightarrow> is_digit c"
  using show_nat_digits [of n] by (simp add: list_all_iff)

lemma show_int_chars: "c \<in> set (show_int i) \<Longrightarrow> is_digit c \<or> c = CHR ''-''"
  by (auto simp: show_int_def split: if_splits dest: show_nat_chars)

lemma not_in_show_int: "\<not> is_digit c \<Longrightarrow> c \<noteq> CHR ''-'' \<Longrightarrow> c \<notin> set (show_int i)"
  using show_int_chars by blast

subsection \<open>Quoting\<close>

definition hex_digit :: "nat \<Rightarrow> char" where
  "hex_digit n = (if n < 10 then char_of (48 + n) else char_of (87 + n))"

definition hex_byte :: "nat \<Rightarrow> string" where
  "hex_byte n = [hex_digit (n div 16 mod 16), hex_digit (n mod 16)]"

definition quote_char :: "char \<Rightarrow> string" where
  "quote_char c =
     (let n = (of_char c :: nat); bs = char_of (92 :: nat) in
      if n = 34 \<or> n = 92 then [bs, c]
      else if n = 7 then [bs, CHR ''a''] else if n = 8 then [bs, CHR ''b'']
      else if n = 9 then [bs, CHR ''t''] else if n = 10 then [bs, CHR ''n'']
      else if n = 11 then [bs, CHR ''v''] else if n = 12 then [bs, CHR ''f'']
      else if n = 13 then [bs, CHR ''r'']
      else if n < 32 \<or> n = 127 then [bs, CHR ''x''] @ hex_byte n else [c])"

definition Quote :: "string \<Rightarrow> string" where
  "Quote s = [char_of (34 :: nat)] @ concat (map quote_char s) @ [char_of (34 :: nat)]"

subsection \<open>\<^verbatim>\<open>strconv.ParseInt\<close> in base 10 with 64 bits\<close>

definition num_error :: "string \<Rightarrow> string \<Rightarrow> string \<Rightarrow> gerr" where
  "num_error f s msg = PlainErr (''strconv.'' @ f @ '': parsing '' @ Quote s @ '': '' @ msg)"

definition int64_ok :: "int \<Rightarrow> bool" where
  "int64_ok i \<longleftrightarrow> - (2 ^ 63) \<le> i \<and> i < 2 ^ 63"

definition strip_sign :: "string \<Rightarrow> bool \<times> string" where
  "strip_sign s =
     (case s of [] \<Rightarrow> (False, [])
      | c # cs \<Rightarrow> if c = CHR ''+'' then (False, cs) else if c = CHR ''-'' then (True, cs)
                 else (False, s))"

definition ParseInt :: "string \<Rightarrow> gerr + int" where
  "ParseInt s =
     (let (neg, ds) = strip_sign s;
          un = int (digits_value ds);
          v = (if neg then - un else un)
      in if ds = [] \<or> \<not> list_all is_digit ds then Inl (num_error ''ParseInt'' s ''invalid syntax'')
         else if int64_ok v then Inr v
         else Inl (num_error ''ParseInt'' s ''value out of range''))"

text \<open>
  \<^verbatim>\<open>strconv.Atoi\<close> where the caller drops the error: it returns 0 on a syntax error and the
  nearest bound on a range error, and the caller goes on with that value.
\<close>

definition Atoi_ignoring_error :: "string \<Rightarrow> int" where
  "Atoi_ignoring_error s =
     (let (neg, ds) = strip_sign s;
          un = int (digits_value ds);
          v = (if neg then - un else un)
      in if ds = [] \<or> \<not> list_all is_digit ds then 0
         else if int64_ok v then v
         else if neg then - (2 ^ 63) else 2 ^ 63 - 1)"

lemma not_is_digit_sign [simp]: "\<not> is_digit CHR ''+''" "\<not> is_digit CHR ''-''"
  by (simp_all add: is_digit_def)

lemma not_is_digit_sep [simp]: "\<not> is_digit CHR '',''" "\<not> is_digit CHR ''=''" "\<not> is_digit CHR ''.''"
  by (simp_all add: is_digit_def)

lemma strip_sign_show_nat [simp]: "strip_sign (show_nat n) = (False, show_nat n)"
proof (cases "show_nat n")
  case Nil
  then show ?thesis by simp
next
  case (Cons c cs)
  then have "is_digit c" using show_nat_digits [of n] by simp
  with Cons show ?thesis by (auto simp: strip_sign_def)
qed

lemma strip_sign_show_int: "strip_sign (show_int i) = (i < 0, show_nat (nat \<bar>i\<bar>))"
proof (cases "i < 0")
  case True
  then show ?thesis by (simp add: show_int_def strip_sign_def)
next
  case False
  then show ?thesis by (simp add: show_int_def)
qed

lemma ParseInt_show_int: "int64_ok i \<Longrightarrow> ParseInt (show_int i) = Inr i"
  by (auto simp: ParseInt_def Let_def strip_sign_show_int show_nat_digits)

lemma ParseInt_bounds: "ParseInt s = Inr i \<Longrightarrow> int64_ok i"
  by (auto simp: ParseInt_def Let_def split: prod.splits if_splits)

lemma Atoi_bounds: "int64_ok (Atoi_ignoring_error s)"
  by (auto simp: Atoi_ignoring_error_def int64_ok_def Let_def split: prod.splits)

subsection \<open>Hexadecimal\<close>

definition EncodeToString :: "nat list \<Rightarrow> string" where
  "EncodeToString bs = concat (map hex_byte bs)"

definition is_hex :: "char \<Rightarrow> bool" where
  "is_hex c \<longleftrightarrow> is_digit c \<or> (97 \<le> (of_char c :: nat) \<and> (of_char c :: nat) \<le> 102)"

lemma is_hex_hex_digit [simp]: "n < 16 \<Longrightarrow> is_hex (hex_digit n)"
  by (auto simp: is_hex_def is_digit_def hex_digit_def)

lemma length_EncodeToString [simp]: "length (EncodeToString bs) = 2 * length bs"
  by (induction bs) (auto simp: EncodeToString_def hex_byte_def)

lemma EncodeToString_is_hex: "list_all is_hex (EncodeToString bs)"
  by (induction bs) (auto simp: EncodeToString_def hex_byte_def)

lemma not_is_hex_sep [simp]: "\<not> is_hex CHR '',''" "\<not> is_hex CHR ''=''"
  by (simp_all add: is_hex_def is_digit_def)

lemma sep_notin_hex [simp]: "CHR '','' \<notin> set (EncodeToString bs)"
  using EncodeToString_is_hex [of bs] not_is_hex_sep by (auto simp: list_all_iff)

lemma hex_digit_inj: "a < 16 \<Longrightarrow> b < 16 \<Longrightarrow> hex_digit a = hex_digit b \<Longrightarrow> a = b"
proof -
  assume ab: "a < 16" "b < 16" and eq: "hex_digit a = hex_digit b"
  have val: "of_char (hex_digit n) = (if n < 10 then 48 + n else 87 + n :: nat)" if "n < 16" for n
    using that by (simp add: hex_digit_def)
  from eq have "(of_char (hex_digit a) :: nat) = of_char (hex_digit b)" by simp
  with ab show "a = b" by (auto simp: val split: if_splits)
qed

lemma hex_byte_inj:
  assumes "a < 256" "b < 256" "hex_byte a = hex_byte b"
  shows "a = b"
proof -
  from assms have "a div 16 = b div 16" "a mod 16 = b mod 16"
    by (auto simp: hex_byte_def dest!: hex_digit_inj [rotated 2])
  then show ?thesis by (metis div_mult_mod_eq)
qed

lemma EncodeToString_inj:
  "list_all (\<lambda>b. b < 256) as \<Longrightarrow> list_all (\<lambda>b. b < 256) bs \<Longrightarrow>
   EncodeToString as = EncodeToString bs \<Longrightarrow> as = bs"
proof (induction as arbitrary: bs)
  case Nil
  then show ?case by (cases bs) (auto simp: EncodeToString_def hex_byte_def)
next
  case (Cons a as)
  from Cons.prems obtain b bs' where bs: "bs = b # bs'"
    by (cases bs) (auto simp: EncodeToString_def hex_byte_def)
  from Cons.prems have "hex_byte a = hex_byte b" and "EncodeToString as = EncodeToString bs'"
    by (auto simp: bs EncodeToString_def hex_byte_def)
  with Cons.prems Cons.IH [of bs'] show ?case
    by (auto simp: bs intro: hex_byte_inj)
qed

end
