(* ===== verification/Redis_Server.thy ===== *)
theory Redis_Server
  imports Go_Strings "HOL-Library.List_Lexorder" "HOL-Library.Char_ord"
begin

text \<open>
  The Redis commands the repositories of \<^verbatim>\<open>internal/repository/redis\<close> issue, and what
  Redis documents of them. The server itself is not part of the program: \<open>redis_apply\<close>
  is the yardstick that the hypotheses on the environment (locale \<open>redis_server\<close> of theory
  \<open>Platform\<close>) are stated with.

  A key holds a string or a sorted set, and optionally the time in milliseconds at which
  it expires; an expired key is treated as absent. A sorted set is kept as the list of its
  entries in the order of their scores, entries of equal score in the order of their members.
\<close>

datatype zentry = ZEntry (z_score: int) (z_member: string)

instantiation zentry :: linorder
begin

definition less_eq_zentry :: "zentry \<Rightarrow> zentry \<Rightarrow> bool" where
  "less_eq_zentry a b \<longleftrightarrow>
     z_score a < z_score b \<or> (z_score a = z_score b \<and> z_member a \<le> z_member b)"

definition less_zentry :: "zentry \<Rightarrow> zentry \<Rightarrow> bool" where
  "less_zentry a b \<longleftrightarrow>
     z_score a < z_score b \<or> (z_score a = z_score b \<and> z_member a < z_member b)"

instance
  by intro_classes
    (auto simp: less_eq_zentry_def less_zentry_def intro: zentry.expand)

end

datatype rval = RStr string | RZset "zentry list"

type_synonym keyspace = "string \<Rightarrow> (rval \<times> int option) option"

datatype rcmd =
    GET string
  | SET string string int        \<comment> \<open>key, value, expiration in ms (0: none)\<close>
  | SETNX string string int
  | DEL string
  | INCR string
  | EXPIRE string int
  | ZADD string int string       \<comment> \<open>key, score, member\<close>
  | ZCARD string
  | ZREMRANGEBYSCORE string int int
  | PING

datatype reply = RNil | RBulk string | RInt int | RStatus string

definition wrongtype :: gerr where
  "wrongtype = PlainErr
     ''WRONGTYPE Operation against a key holding the wrong kind of value''"

definition live :: "int \<Rightarrow> keyspace \<Rightarrow> string \<Rightarrow> rval option" where
  "live t ks k =
     (case ks k of None \<Rightarrow> None
      | Some (v, None) \<Rightarrow> Some v
      | Some (v, Some d) \<Rightarrow> if t < d then Some v else None)"

definition deadline :: "int \<Rightarrow> int \<Rightarrow> int option" where
  "deadline t ttl = (if ttl \<le> 0 then None else Some (t + ttl))"

definition kept_deadline :: "int \<Rightarrow> keyspace \<Rightarrow> string \<Rightarrow> int option" where
  "kept_deadline t ks k =
     (case ks k of Some (v, Some d) \<Rightarrow> if t < d then Some d else None | _ \<Rightarrow> None)"

definition zset_of :: "rval option \<Rightarrow> zentry list option" where
  "zset_of v = (case v of None \<Rightarrow> Some [] | Some (RZset zs) \<Rightarrow> Some zs | Some (RStr s) \<Rightarrow> None)"

definition put_zset :: "keyspace \<Rightarrow> string \<Rightarrow> int option \<Rightarrow> zentry list \<Rightarrow> keyspace" where
  "put_zset ks k d zs = ks(k := if zs = [] then None else Some (RZset zs, d))"

fun redis_apply :: "int \<Rightarrow> rcmd \<Rightarrow> keyspace \<Rightarrow> (gerr + reply) \<times> keyspace" where
  "redis_apply t (GET k) ks =
     (case live t ks k of None \<Rightarrow> (Inr RNil, ks)
      | Some (RStr s) \<Rightarrow> (Inr (RBulk s), ks)
      | Some (RZset zs) \<Rightarrow> (Inl wrongtype, ks))"
| "redis_apply t (SET k v ttl) ks = (Inr (RStatus ''OK''), ks(k \<mapsto> (RStr v, deadline t ttl)))"
| "redis_apply t (SETNX k v ttl) ks =
     (case live t ks k of None \<Rightarrow> (Inr (RInt 1), ks(k \<mapsto> (RStr v, deadline t ttl)))
      | Some x \<Rightarrow> (Inr (RInt 0), ks))"
| "redis_apply t (DEL k) ks =
     (Inr (RInt (if live t ks k = None then 0 else 1)), ks(k := None))"
| "redis_apply t (INCR k) ks =
     (case live t ks k of None \<Rightarrow> (Inr (RInt 1), ks(k \<mapsto> (RStr (show_int 1), None)))
      | Some (RStr s) \<Rightarrow>
          (case ParseInt s of Inl e \<Rightarrow> (Inl (PlainErr ''ERR value is not an integer or out of range''), ks)
           | Inr n \<Rightarrow>
               if show_int n \<noteq> s
               then (Inl (PlainErr ''ERR value is not an integer or out of range''), ks)
               else if int64_ok (n + 1)
               then (Inr (RInt (n + 1)), ks(k \<mapsto> (RStr (show_int (n + 1)), kept_deadline t ks k)))
               else (Inl (PlainErr ''ERR increment or decrement would overflow''), ks))
      | Some (RZset zs) \<Rightarrow> (Inl wrongtype, ks))"
| "redis_apply t (EXPIRE k ttl) ks =
     (case live t ks k of None \<Rightarrow> (Inr (RInt 0), ks)
      | Some v \<Rightarrow> (Inr (RInt 1), ks(k := if ttl \<le> 0 then None else Some (v, Some (t + ttl)))))"
| "redis_apply t (ZADD k score m) ks =
     (case zset_of (live t ks k) of None \<Rightarrow> (Inl wrongtype, ks)
      | Some zs \<Rightarrow>
          (Inr (RInt (if m \<in> z_member ` set zs then 0 else 1)),
           put_zset ks k (kept_deadline t ks k)
             (insort (ZEntry score m) (filter (\<lambda>z. z_member z \<noteq> m) zs))))"
| "redis_apply t (ZCARD k) ks =
     (case zset_of (live t ks k) of None \<Rightarrow> (Inl wrongtype, ks)
      | Some zs \<Rightarrow> (Inr (RInt (int (length zs))), ks))"
| "redis_apply t (ZREMRANGEBYSCORE k lo hi) ks =
     (case zset_of (live t ks k) of None \<Rightarrow> (Inl wrongtype, ks)
      | Some zs \<Rightarrow>
          (let keep = filter (\<lambda>z. \<not> (lo \<le> z_score z \<and> z_score z \<le> hi)) zs
           in (Inr (RInt (int (length zs - length keep))),
               put_zset ks k (kept_deadline t ks k) keep)))"
| "redis_apply t PING ks = (Inr (RStatus ''PONG''), ks)"

text \<open>A pipeline runs its commands one after the other and collects the replies.\<close>

fun redis_applys :: "int \<Rightarrow> rcmd list \<Rightarrow> keyspace \<Rightarrow> (gerr + reply) list \<times> keyspace" where
  "redis_applys t [] ks = ([], ks)"
| "redis_applys t (c # cs) ks =
     (let (r, ks1) = redis_apply t c ks; (rs, ks2) = redis_applys t cs ks1 in (r # rs, ks2))"

definition rcmd_key :: "rcmd \<Rightarrow> string option" where
  "rcmd_key c = (case c of
     GET k \<Rightarrow> Some k | SET k v n \<Rightarrow> Some k | SETNX k v n \<Rightarrow> Some k | DEL k \<Rightarrow> Some k
   | INCR k \<Rightarrow> Some k | EXPIRE k n \<Rightarrow> Some k | ZADD k s m \<Rightarrow> Some k | ZCARD k \<Rightarrow> Some k
   | ZREMRANGEBYSCORE k a b \<Rightarrow> Some k | PING \<Rightarrow> None)"

subsection \<open>Lemmas\<close>

lemma live_upd_same: "live t (ks(k \<mapsto> (v, d))) k =
    (case d of None \<Rightarrow> Some v | Some e \<Rightarrow> if t < e then Some v else None)"
  by (simp add: live_def)

lemma live_upd_other [simp]: "k' \<noteq> k \<Longrightarrow> live t (ks(k := x)) k' = live t ks k'"
  by (simp add: live_def)

lemma live_del [simp]: "live t (ks(k := None)) k = None"
  by (simp add: live_def)

lemma live_persistent [simp]: "live t (ks(k \<mapsto> (v, None))) k = Some v"
  by (simp add: live_def)

lemma deadline_0 [simp]: "deadline t 0 = None"
  by (simp add: deadline_def)

lemma live_later: "live t' ks k = Some v \<Longrightarrow> t \<le> t' \<Longrightarrow> live t ks k = Some v"
  by (auto simp: live_def split: option.splits prod.splits if_splits)

lemma live_expired: "live t ks k = None \<Longrightarrow> t \<le> t' \<Longrightarrow> live t' ks k = None"
  by (auto simp: live_def split: option.splits prod.splits if_splits)

text \<open>A command touches the entry of its own key only.\<close>

lemma redis_apply_other:
  "redis_apply t c ks = (r, ks') \<Longrightarrow> rcmd_key c \<noteq> Some k \<Longrightarrow> ks' k = ks k"
  by (cases c)
    (auto simp: rcmd_key_def put_zset_def Let_def split: option.splits rval.splits sum.splits if_splits)

lemma redis_applys_other:
  "redis_applys t cs ks = (rs, ks') \<Longrightarrow> (\<forall>c \<in> set cs. rcmd_key c \<noteq> Some k) \<Longrightarrow> ks' k = ks k"
proof (induction cs arbitrary: ks rs)
  case Nil
  then show ?case by simp
next
  case (Cons c cs)
  obtain r ks1 where 1: "redis_apply t c ks = (r, ks1)" by force
  obtain rs2 where 2: "redis_applys t cs ks1 = (rs2, ks')"
    using Cons.prems 1 by (auto split: prod.splits)
  from Cons.IH [OF 2] Cons.prems redis_apply_other [OF 1, of k] show ?case by simp
qed

lemma redis_applys_append:
  "redis_applys t (as @ bs) ks =
     (let (ra, ks1) = redis_applys t as ks; (rb, ks2) = redis_applys t bs ks1 in (ra @ rb, ks2))"
  by (induction as arbitrary: ks) (auto split: prod.splits)

end
