(* ===== verification/Sql.thy ===== *)
theory Sql
  imports Go_Strings
begin

text \<open>
  The part of SQL that the queries of \<^verbatim>\<open>internal/repository/postgres\<close> are written in, and
  the schema of \<^verbatim>\<open>migrations/*.up.sql\<close>. A statement is kept as syntax (\<open>stmt\<close>,
  \<open>query\<close>) with its parameters in place, so that a repository method can be compared
  with its query text column by column; \<open>sql_exec\<close> and \<open>sql_rows\<close> say what the
  statement means on a database. The server that executes it is part of the environment
  (theory \<open>Platform\<close>): it may also fail.

  A database maps a table name to its rows, a row maps a column name to a value. What
  Postgres does to a value when it stores it depends on the column type: a
  \<^verbatim>\<open>VARCHAR(n)\<close> is checked for its length in characters, an \<^verbatim>\<open>INTEGER\<close> for the range of 32
  bits, a \<^verbatim>\<open>TIMESTAMPTZ\<close> keeps microseconds, a \<^verbatim>\<open>UUID\<close> and a \<^verbatim>\<open>JSONB\<close> are parsed and
  printed back in a canonical form. The parsers of the last two are parameters
  (record \<open>pgtypes\<close>).
\<close>

datatype sqlval =
    VNull
  | VText string
  | VInt int
  | VBool bool
  | VTime time
  | VTexts "string list"

datatype coltype =
    UUID | VARCHAR nat | TEXT | INTEGER | BOOLEAN | TIMESTAMPTZ | TEXTS | JSONB

record column =
  col_name :: string
  col_type :: coltype
  col_notnull :: bool

record table =
  tb_columns :: "column list"
  tb_unique :: "string list"                \<comment> \<open>primary key and UNIQUE columns\<close>
  tb_references :: "(string \<times> string) list"  \<comment> \<open>column, referenced table (by \<^verbatim>\<open>id\<close>), ON DELETE CASCADE\<close>

record pgtypes =
  uuid_in :: "string \<Rightarrow> string option"
  jsonb_in :: "string \<Rightarrow> string option"

type_synonym row = "string \<Rightarrow> sqlval"
type_synonym database = "string \<Rightarrow> row list"
type_synonym schema = "string \<Rightarrow> table"

datatype cond =
    Eq string sqlval        \<comment> \<open>\<^verbatim>\<open>column = $n\<close>\<close>
  | LeNow string            \<comment> \<open>\<^verbatim>\<open>column <= NOW()\<close>\<close>
  | Both cond cond          \<comment> \<open>\<^verbatim>\<open>AND\<close>\<close>

datatype setval = Param sqlval | NowFn

datatype order = Asc string | Desc string

datatype stmt =
    Insert string "string list" "sqlval list"
  | Update string "(string \<times> setval) list" cond
  | Delete string cond

datatype query =
    Select "string list" string cond "order option" "(int \<times> int) option"  \<comment> \<open>LIMIT, OFFSET\<close>
  | SelectCount string cond

subsection \<open>Storing values\<close>

definition utf8_chars :: "string \<Rightarrow> nat" where
  "utf8_chars s = length (filter (\<lambda>c. (of_char c :: nat) < 128 \<or> 192 \<le> (of_char c :: nat)) s)"

text \<open>
  A text is refused unless it is well-formed UTF-8 without the character 0: the lead byte
  gives the length, the second byte excludes overlong forms, surrogates and code points past
  the last one.
\<close>

definition byte :: "char \<Rightarrow> nat" where
  "byte c = of_char c"

definition continuation :: "char \<Rightarrow> bool" where
  "continuation c \<longleftrightarrow> 128 \<le> byte c \<and> byte c \<le> 191"

definition second_ok :: "nat \<Rightarrow> nat \<Rightarrow> bool" where
  "second_ok lead b \<longleftrightarrow> 128 \<le> b \<and> b \<le> 191
     \<and> (lead = 224 \<longrightarrow> 160 \<le> b) \<and> (lead = 237 \<longrightarrow> b \<le> 159)
     \<and> (lead = 240 \<longrightarrow> 144 \<le> b) \<and> (lead = 244 \<longrightarrow> b \<le> 143)"

fun text_ok :: "string \<Rightarrow> bool" where
  "text_ok [] = True"
| "text_ok (a # s) =
     (if byte a < 128 then byte a \<noteq> 0 \<and> text_ok s
      else (case s of [] \<Rightarrow> False
        | b # s1 \<Rightarrow>
            if 194 \<le> byte a \<and> byte a \<le> 223 then continuation b \<and> text_ok s1
            else (case s1 of [] \<Rightarrow> False
              | c # s2 \<Rightarrow>
                  if 224 \<le> byte a \<and> byte a \<le> 239
                  then second_ok (byte a) (byte b) \<and> continuation c \<and> text_ok s2
                  else (case s2 of [] \<Rightarrow> False
                    | d # s3 \<Rightarrow> 240 \<le> byte a \<and> byte a \<le> 244 \<and> second_ok (byte a) (byte b)
                        \<and> continuation c \<and> continuation d \<and> text_ok s3))))"

definition ascii :: "string \<Rightarrow> bool" where
  "ascii s \<longleftrightarrow> list_all (\<lambda>c. 0 < byte c \<and> byte c < 128) s"

lemma ascii_text_ok: "ascii s \<Longrightarrow> text_ok s"
  unfolding ascii_def by (induction s) auto

lemma utf8_chars_le: "utf8_chars s \<le> length s"
  by (simp add: utf8_chars_def)

definition int4_ok :: "int \<Rightarrow> bool" where
  "int4_ok i \<longleftrightarrow> - (2 ^ 31) \<le> i \<and> i < 2 ^ 31"

definition micros :: "time \<Rightarrow> time" where
  "micros t = t div 1000 * 1000"

text \<open>SQLSTATE codes: invalid text, bad encoding, string too long, out of range, type mismatch.\<close>

fun coerce :: "pgtypes \<Rightarrow> coltype \<Rightarrow> sqlval \<Rightarrow> string + sqlval" where
  "coerce ty c VNull = Inr VNull"
| "coerce ty UUID (VText s) =
     (case uuid_in ty s of None \<Rightarrow> Inl ''22P02'' | Some u \<Rightarrow> Inr (VText u))"
| "coerce ty (VARCHAR n) (VText s) =
     (if \<not> text_ok s then Inl ''22021''
      else if utf8_chars s \<le> n then Inr (VText s) else Inl ''22001'')"
| "coerce ty TEXT (VText s) = (if text_ok s then Inr (VText s) else Inl ''22021'')"
| "coerce ty INTEGER (VInt i) = (if int4_ok i then Inr (VInt i) else Inl ''22003'')"
| "coerce ty BOOLEAN (VBool b) = Inr (VBool b)"
| "coerce ty TIMESTAMPTZ (VTime t) = Inr (VTime (micros t))"
| "coerce ty TEXTS (VTexts xs) =
     (if list_all text_ok xs then Inr (VTexts xs) else Inl ''22021'')"
| "coerce ty JSONB (VText s) =
     (case jsonb_in ty s of None \<Rightarrow> Inl ''22P02'' | Some j \<Rightarrow> Inr (VText j))"
| "coerce ty c v = Inl ''42804''"

definition find_column :: "table \<Rightarrow> string \<Rightarrow> column option" where
  "find_column tb c = find_row col_name c (tb_columns tb)"

definition store :: "pgtypes \<Rightarrow> table \<Rightarrow> string \<Rightarrow> sqlval \<Rightarrow> string + sqlval" where
  "store ty tb c v =
     (case find_column tb c of None \<Rightarrow> Inl ''42703''
      | Some col \<Rightarrow>
          (case coerce ty (col_type col) v of Inl code \<Rightarrow> Inl code
           | Inr v' \<Rightarrow> if col_notnull col \<and> v' = VNull then Inl ''23502'' else Inr v'))"

fun store_all :: "pgtypes \<Rightarrow> table \<Rightarrow> (string \<times> sqlval) list \<Rightarrow> row \<Rightarrow> string + row" where
  "store_all ty tb [] r = Inr r"
| "store_all ty tb ((c, v) # cvs) r =
     (case store ty tb c v of Inl code \<Rightarrow> Inl code
      | Inr v' \<Rightarrow> store_all ty tb cvs (r(c := v')))"

subsection \<open>Conditions\<close>

text \<open>A parameter compared with a column is read at the column's type; comparing with NULL is never true.\<close>

fun cond_error :: "pgtypes \<Rightarrow> table \<Rightarrow> cond \<Rightarrow> string option" where
  "cond_error ty tb (Eq c v) =
     (case find_column tb c of None \<Rightarrow> Some ''42703''
      | Some col \<Rightarrow> (case coerce ty (col_type col) v of Inl code \<Rightarrow> Some code | Inr v' \<Rightarrow> None))"
| "cond_error ty tb (LeNow c) = (if find_column tb c = None then Some ''42703'' else None)"
| "cond_error ty tb (Both a b) =
     (case cond_error ty tb a of Some code \<Rightarrow> Some code | None \<Rightarrow> cond_error ty tb b)"

fun holds :: "pgtypes \<Rightarrow> table \<Rightarrow> time \<Rightarrow> cond \<Rightarrow> row \<Rightarrow> bool" where
  "holds ty tb now (Eq c v) r =
     (case find_column tb c of None \<Rightarrow> False
      | Some col \<Rightarrow>
          (case coerce ty (col_type col) v of Inl code \<Rightarrow> False
           | Inr v' \<Rightarrow> v' \<noteq> VNull \<and> r c = v'))"
| "holds ty tb now (LeNow c) r = (case r c of VTime t \<Rightarrow> t \<le> now | _ \<Rightarrow> False)"
| "holds ty tb now (Both a b) r = (holds ty tb now a r \<and> holds ty tb now b r)"

subsection \<open>Statements\<close>

definition violates_unique :: "table \<Rightarrow> row list \<Rightarrow> row \<Rightarrow> bool" where
  "violates_unique tb rs r = list_ex (\<lambda>c. list_ex (\<lambda>q. q c = r c) rs) (tb_unique tb)"

definition violates_reference :: "database \<Rightarrow> table \<Rightarrow> row \<Rightarrow> bool" where
  "violates_reference db tb r =
     list_ex (\<lambda>(c, t). \<not> list_ex (\<lambda>q. q ''id'' = r c) (db t)) (tb_references tb)"

definition set_value :: "time \<Rightarrow> setval \<Rightarrow> sqlval" where
  "set_value now s = (case s of Param v \<Rightarrow> v | NowFn \<Rightarrow> VTime now)"

text \<open>
  Deleting rows deletes the rows that reference them, in turn. The recursion stops at a
  depth given; the references of the schema form chains of at most four tables, and
  \<open>sql_exec\<close> gives the number of tables.
\<close>

fun cascade :: "schema \<Rightarrow> string list \<Rightarrow> nat \<Rightarrow> string \<Rightarrow> (row \<Rightarrow> bool) \<Rightarrow> database \<Rightarrow> database" where
  "cascade sch tabs 0 t p db = db"
| "cascade sch tabs (Suc depth) t p db =
     (let gone = map (\<lambda>r. r ''id'') (filter p (db t));
          db1 = db(t := filter (\<lambda>r. \<not> p r) (db t))
      in fold (\<lambda>u d. fold (\<lambda>(c, t'). if t' = t then cascade sch tabs depth u (\<lambda>r. r c \<in> set gone) else id)
                 (tb_references (sch u)) d) tabs db1)"

fun sql_exec ::
  "pgtypes \<Rightarrow> schema \<Rightarrow> string list \<Rightarrow> time \<Rightarrow> stmt \<Rightarrow> database \<Rightarrow> (string + nat) \<times> database" where
  "sql_exec ty sch tabs now (Insert t cs vs) db =
     (case store_all ty (sch t) (zip cs vs) (\<lambda>c. VNull) of
        Inl code \<Rightarrow> (Inl code, db)
      | Inr r \<Rightarrow>
          if violates_unique (sch t) (db t) r then (Inl ''23505'', db)
          else if violates_reference db (sch t) r then (Inl ''23503'', db)
          else (Inr 1, db(t := db t @ [r])))"
| "sql_exec ty sch tabs now (Update t sets c) db =
     (case cond_error ty (sch t) c of
        Some code \<Rightarrow> (Inl code, db)
      | None \<Rightarrow>
          (let hit = filter (holds ty (sch t) now c) (db t);
               upd = (\<lambda>r. store_all ty (sch t) (map (\<lambda>(k, s). (k, set_value now s)) sets) r)
           in case (if hit = [] then Inr (\<lambda>c. VNull) else upd (\<lambda>c. VNull)) of
                Inl code \<Rightarrow> (Inl code, db)
              | Inr blank \<Rightarrow>
                  (Inr (length hit),
                   db(t := update_rows (holds ty (sch t) now c)
                             (\<lambda>r. case upd r of Inl code \<Rightarrow> r | Inr r' \<Rightarrow> r') (db t)))))"
| "sql_exec ty sch tabs now (Delete t c) db =
     (case cond_error ty (sch t) c of
        Some code \<Rightarrow> (Inl code, db)
      | None \<Rightarrow>
          (Inr (length (filter (holds ty (sch t) now c) (db t))),
           cascade sch tabs (length tabs) t (holds ty (sch t) now c) db))"

subsection \<open>Queries\<close>

fun order_key :: "sqlval \<Rightarrow> int" where
  "order_key (VTime t) = t"
| "order_key (VInt i) = i"
| "order_key v = 0"

definition ordered :: "order option \<Rightarrow> row list \<Rightarrow> bool" where
  "ordered ord rs = (case ord of None \<Rightarrow> True
     | Some (Asc c) \<Rightarrow> sorted_wrt (\<lambda>a b. order_key (a c) \<le> order_key (b c)) rs
     | Some (Desc c) \<Rightarrow> sorted_wrt (\<lambda>a b. order_key (b c) \<le> order_key (a c)) rs)"

definition window :: "(int \<times> int) option \<Rightarrow> 'a list \<Rightarrow> 'a list" where
  "window w rs = (case w of None \<Rightarrow> rs
     | Some (lim, off) \<Rightarrow> take (nat lim) (drop (nat off) rs))"

text \<open>
  The rows of a SELECT: the selected rows in some arrangement that respects the ORDER BY
  (rows of equal key come in any order), cut to the window, projected to the columns.
\<close>

definition sql_rows ::
  "pgtypes \<Rightarrow> schema \<Rightarrow> time \<Rightarrow> query \<Rightarrow> database \<Rightarrow> sqlval list list \<Rightarrow> bool" where
  "sql_rows ty sch now q db out = (case q of
     Select cs t c ord win \<Rightarrow>
       \<exists>rs. mset rs = mset (filter (holds ty (sch t) now c) (db t)) \<and> ordered ord rs
          \<and> out = map (\<lambda>r. map r cs) (window win rs)
   | SelectCount t c \<Rightarrow> out = [[VInt (int (length (filter (holds ty (sch t) now c) (db t))))]])"

text \<open>The query is refused when its condition or its window is malformed.\<close>

definition query_error :: "pgtypes \<Rightarrow> schema \<Rightarrow> query \<Rightarrow> string option" where
  "query_error ty sch q = (case q of
     Select cs t c ord win \<Rightarrow>
       (case cond_error ty (sch t) c of Some code \<Rightarrow> Some code
        | None \<Rightarrow> (case win of None \<Rightarrow> None
            | Some (lim, off) \<Rightarrow> if lim < 0 then Some ''2201W'' else if off < 0 then Some ''2201X'' else None))
   | SelectCount t c \<Rightarrow> cond_error ty (sch t) c)"

text \<open>One arrangement that qualifies: a stable sort.\<close>

definition arrange :: "order option \<Rightarrow> row list \<Rightarrow> row list" where
  "arrange ord rs = (case ord of None \<Rightarrow> rs
     | Some (Asc c) \<Rightarrow> sort_key (\<lambda>r. order_key (r c)) rs
     | Some (Desc c) \<Rightarrow> sort_key (\<lambda>r. - order_key (r c)) rs)"

definition sql_answer :: "pgtypes \<Rightarrow> schema \<Rightarrow> time \<Rightarrow> query \<Rightarrow> database \<Rightarrow> sqlval list list" where
  "sql_answer ty sch now q db = (case q of
     Select cs t c ord win \<Rightarrow>
       map (\<lambda>r. map r cs) (window win (arrange ord (filter (holds ty (sch t) now c) (db t))))
   | SelectCount t c \<Rightarrow> [[VInt (int (length (filter (holds ty (sch t) now c) (db t))))]])"

lemma ordered_arrange: "ordered ord (arrange ord rs)"
proof -
  have "sorted_wrt (\<lambda>a b. f a \<le> f b) (sort_key f rs)" for f :: "row \<Rightarrow> int"
    using sorted_sort_key [of f rs] by (simp add: sorted_map)
  from this [of "\<lambda>r. - order_key (r _)"] this show ?thesis
    by (auto simp: ordered_def arrange_def split: option.split order.split)
qed

lemma mset_arrange: "mset (arrange ord rs) = mset rs"
  by (auto simp: arrange_def split: option.split order.split)

lemma sql_answer_correct: "sql_rows ty sch now q db (sql_answer ty sch now q db)"
  by (cases q) (auto simp: sql_rows_def sql_answer_def ordered_arrange mset_arrange intro!: exI)

end
