(* ===== verification/Pg_Schema.thy ===== *)
theory Pg_Schema
  imports Sql
begin

text \<open>
  The schema of \<^verbatim>\<open>migrations/001\<close> to \<^verbatim>\<open>005\<close>: the columns with their types and NOT NULL
  marks, the unique columns and the references (all \<^verbatim>\<open>ON DELETE CASCADE\<close>). Column defaults
  are left out: every INSERT of the program gives every column. Indexes change no result.
\<close>

definition col :: "string \<Rightarrow> coltype \<Rightarrow> column" where
  "col n ty = \<lparr>col_name = n, col_type = ty, col_notnull = True\<rparr>"

definition nullable :: "string \<Rightarrow> coltype \<Rightarrow> column" where
  "nullable n ty = \<lparr>col_name = n, col_type = ty, col_notnull = False\<rparr>"

definition tenants_table :: table where
  "tenants_table = \<lparr>tb_columns =
     [col ''id'' UUID, col ''name'' (VARCHAR 255), col ''api_key'' (VARCHAR 255),
      col ''rate_limit_per_minute'' INTEGER, col ''max_retries'' INTEGER,
      col ''retry_base_ms'' INTEGER, col ''created_at'' TIMESTAMPTZ, col ''updated_at'' TIMESTAMPTZ],
     tb_unique = [''id'', ''api_key''], tb_references = []\<rparr>"

definition endpoints_table :: table where
  "endpoints_table = \<lparr>tb_columns =
     [col ''id'' UUID, col ''tenant_id'' UUID, col ''url'' (VARCHAR 2048), nullable ''description'' TEXT,
      col ''event_types'' TEXTS, col ''secret'' (VARCHAR 255), col ''active'' BOOLEAN,
      col ''created_at'' TIMESTAMPTZ, col ''updated_at'' TIMESTAMPTZ],
     tb_unique = [''id''], tb_references = [(''tenant_id'', ''tenants'')]\<rparr>"

definition events_table :: table where
  "events_table = \<lparr>tb_columns =
     [col ''id'' UUID, col ''tenant_id'' UUID, col ''endpoint_id'' UUID,
      col ''event_type'' (VARCHAR 255), col ''payload'' JSONB, col ''signature'' (VARCHAR 255),
      col ''status'' (VARCHAR 50), col ''attempt_count'' INTEGER, col ''max_attempts'' INTEGER,
      nullable ''next_retry_at'' TIMESTAMPTZ, col ''created_at'' TIMESTAMPTZ, col ''updated_at'' TIMESTAMPTZ],
     tb_unique = [''id''],
     tb_references = [(''tenant_id'', ''tenants''), (''endpoint_id'', ''endpoints'')]\<rparr>"

definition delivery_attempts_table :: table where
  "delivery_attempts_table = \<lparr>tb_columns =
     [col ''id'' UUID, col ''event_id'' UUID, col ''endpoint_id'' UUID, col ''attempt_number'' INTEGER,
      nullable ''status_code'' INTEGER, nullable ''response_body'' TEXT,
      nullable ''response_headers'' JSONB, nullable ''error_message'' TEXT,
      nullable ''duration_ms'' INTEGER, col ''created_at'' TIMESTAMPTZ],
     tb_unique = [''id''],
     tb_references = [(''event_id'', ''events''), (''endpoint_id'', ''endpoints'')]\<rparr>"

definition dead_letter_events_table :: table where
  "dead_letter_events_table = \<lparr>tb_columns =
     [col ''id'' UUID, col ''tenant_id'' UUID, col ''endpoint_id'' UUID, col ''original_event_id'' UUID,
      col ''event_type'' (VARCHAR 255), col ''payload'' JSONB, nullable ''failure_reason'' TEXT,
      nullable ''last_status_code'' INTEGER, col ''total_attempts'' INTEGER, col ''created_at'' TIMESTAMPTZ],
     tb_unique = [''id''],
     tb_references = [(''tenant_id'', ''tenants''), (''endpoint_id'', ''endpoints'')]\<rparr>"

definition no_table :: table where
  "no_table = \<lparr>tb_columns = [], tb_unique = [], tb_references = []\<rparr>"

definition pg_schema :: schema where
  "pg_schema t =
     (if t = ''tenants'' then tenants_table
      else if t = ''endpoints'' then endpoints_table
      else if t = ''events'' then events_table
      else if t = ''delivery_attempts'' then delivery_attempts_table
      else if t = ''dead_letter_events'' then dead_letter_events_table
      else no_table)"

definition pg_tables :: "string list" where
  "pg_tables = [''tenants'', ''endpoints'', ''events'', ''delivery_attempts'', ''dead_letter_events'']"

lemma pg_schema_simps [simp]:
  "pg_schema ''tenants'' = tenants_table"
  "pg_schema ''endpoints'' = endpoints_table"
  "pg_schema ''events'' = events_table"
  "pg_schema ''delivery_attempts'' = delivery_attempts_table"
  "pg_schema ''dead_letter_events'' = dead_letter_events_table"
  by (simp_all add: pg_schema_def)

lemma unique_simps [simp]:
  "tb_unique tenants_table = [''id'', ''api_key'']"
  "tb_unique endpoints_table = [''id'']" "tb_unique events_table = [''id'']"
  "tb_unique delivery_attempts_table = [''id'']" "tb_unique dead_letter_events_table = [''id'']"
  by (simp_all add: tenants_table_def endpoints_table_def events_table_def
      delivery_attempts_table_def dead_letter_events_table_def)

lemma references_simps [simp]:
  "tb_references tenants_table = []"
  "tb_references endpoints_table = [(''tenant_id'', ''tenants'')]"
  "tb_references events_table = [(''tenant_id'', ''tenants''), (''endpoint_id'', ''endpoints'')]"
  "tb_references delivery_attempts_table = [(''event_id'', ''events''), (''endpoint_id'', ''endpoints'')]"
  "tb_references dead_letter_events_table =
     [(''tenant_id'', ''tenants''), (''endpoint_id'', ''endpoints'')]"
  by (simp_all add: tenants_table_def endpoints_table_def events_table_def
      delivery_attempts_table_def dead_letter_events_table_def)

text \<open>The columns, looked up by name.\<close>

lemma find_column_events [row_simps]:
  "find_column events_table ''id'' = Some (col ''id'' UUID)"
  "find_column events_table ''tenant_id'' = Some (col ''tenant_id'' UUID)"
  "find_column events_table ''endpoint_id'' = Some (col ''endpoint_id'' UUID)"
  "find_column events_table ''event_type'' = Some (col ''event_type'' (VARCHAR 255))"
  "find_column events_table ''payload'' = Some (col ''payload'' JSONB)"
  "find_column events_table ''signature'' = Some (col ''signature'' (VARCHAR 255))"
  "find_column events_table ''status'' = Some (col ''status'' (VARCHAR 50))"
  "find_column events_table ''attempt_count'' = Some (col ''attempt_count'' INTEGER)"
  "find_column events_table ''max_attempts'' = Some (col ''max_attempts'' INTEGER)"
  "find_column events_table ''next_retry_at'' = Some (nullable ''next_retry_at'' TIMESTAMPTZ)"
  "find_column events_table ''created_at'' = Some (col ''created_at'' TIMESTAMPTZ)"
  "find_column events_table ''updated_at'' = Some (col ''updated_at'' TIMESTAMPTZ)"
  by (simp_all add: find_column_def events_table_def col_def nullable_def row_simps)

lemma find_column_endpoints [row_simps]:
  "find_column endpoints_table ''id'' = Some (col ''id'' UUID)"
  "find_column endpoints_table ''tenant_id'' = Some (col ''tenant_id'' UUID)"
  "find_column endpoints_table ''url'' = Some (col ''url'' (VARCHAR 2048))"
  "find_column endpoints_table ''description'' = Some (nullable ''description'' TEXT)"
  "find_column endpoints_table ''event_types'' = Some (col ''event_types'' TEXTS)"
  "find_column endpoints_table ''secret'' = Some (col ''secret'' (VARCHAR 255))"
  "find_column endpoints_table ''active'' = Some (col ''active'' BOOLEAN)"
  "find_column endpoints_table ''created_at'' = Some (col ''created_at'' TIMESTAMPTZ)"
  "find_column endpoints_table ''updated_at'' = Some (col ''updated_at'' TIMESTAMPTZ)"
  by (simp_all add: find_column_def endpoints_table_def col_def nullable_def row_simps)

lemma find_column_tenants [row_simps]:
  "find_column tenants_table ''id'' = Some (col ''id'' UUID)"
  "find_column tenants_table ''name'' = Some (col ''name'' (VARCHAR 255))"
  "find_column tenants_table ''api_key'' = Some (col ''api_key'' (VARCHAR 255))"
  "find_column tenants_table ''rate_limit_per_minute'' = Some (col ''rate_limit_per_minute'' INTEGER)"
  "find_column tenants_table ''max_retries'' = Some (col ''max_retries'' INTEGER)"
  "find_column tenants_table ''retry_base_ms'' = Some (col ''retry_base_ms'' INTEGER)"
  "find_column tenants_table ''created_at'' = Some (col ''created_at'' TIMESTAMPTZ)"
  "find_column tenants_table ''updated_at'' = Some (col ''updated_at'' TIMESTAMPTZ)"
  by (simp_all add: find_column_def tenants_table_def col_def nullable_def row_simps)

lemma find_column_attempts [row_simps]:
  "find_column delivery_attempts_table ''id'' = Some (col ''id'' UUID)"
  "find_column delivery_attempts_table ''event_id'' = Some (col ''event_id'' UUID)"
  "find_column delivery_attempts_table ''endpoint_id'' = Some (col ''endpoint_id'' UUID)"
  "find_column delivery_attempts_table ''attempt_number'' = Some (col ''attempt_number'' INTEGER)"
  "find_column delivery_attempts_table ''status_code'' = Some (nullable ''status_code'' INTEGER)"
  "find_column delivery_attempts_table ''response_body'' = Some (nullable ''response_body'' TEXT)"
  "find_column delivery_attempts_table ''response_headers'' = Some (nullable ''response_headers'' JSONB)"
  "find_column delivery_attempts_table ''error_message'' = Some (nullable ''error_message'' TEXT)"
  "find_column delivery_attempts_table ''duration_ms'' = Some (nullable ''duration_ms'' INTEGER)"
  "find_column delivery_attempts_table ''created_at'' = Some (col ''created_at'' TIMESTAMPTZ)"
  by (simp_all add: find_column_def delivery_attempts_table_def col_def nullable_def row_simps)

lemma find_column_dead_letters [row_simps]:
  "find_column dead_letter_events_table ''id'' = Some (col ''id'' UUID)"
  "find_column dead_letter_events_table ''tenant_id'' = Some (col ''tenant_id'' UUID)"
  "find_column dead_letter_events_table ''endpoint_id'' = Some (col ''endpoint_id'' UUID)"
  "find_column dead_letter_events_table ''original_event_id'' = Some (col ''original_event_id'' UUID)"
  "find_column dead_letter_events_table ''event_type'' = Some (col ''event_type'' (VARCHAR 255))"
  "find_column dead_letter_events_table ''payload'' = Some (col ''payload'' JSONB)"
  "find_column dead_letter_events_table ''failure_reason'' = Some (nullable ''failure_reason'' TEXT)"
  "find_column dead_letter_events_table ''last_status_code'' = Some (nullable ''last_status_code'' INTEGER)"
  "find_column dead_letter_events_table ''total_attempts'' = Some (col ''total_attempts'' INTEGER)"
  "find_column dead_letter_events_table ''created_at'' = Some (col ''created_at'' TIMESTAMPTZ)"
  by (simp_all add: find_column_def dead_letter_events_table_def col_def nullable_def row_simps)

lemma col_simps [simp]:
  "col_name (col n ty) = n" "col_type (col n ty) = ty" "col_notnull (col n ty)"
  "col_name (nullable n ty) = n" "col_type (nullable n ty) = ty" "\<not> col_notnull (nullable n ty)"
  by (simp_all add: col_def nullable_def)

end
