(* ===== verification/Prog.thy ===== *)
theory Prog
  imports Domain Redis_Server Pg_Schema
begin

text \<open>
  Programs as trees of requests to their environment.

  A Go function that talks to Postgres, Redis, Kafka, an HTTP endpoint, the clock or a
  random source is a \<open>prog\<close>: it either returns, or panics, or issues one request and
  continues with the answer. The services are not part of the program and are never
  defined by it: a \<open>platform\<close> is a parameter that answers the requests, as a function
  of the number of requests answered before, so that every sequence of answers, delays
  and failures is the behaviour of some platform. The visible state of the services (keys,
  tables, topics, requests sent) is a \<open>world\<close>. One and the same \<open>prog\<close> is run to
  its end by \<open>run\<close> and executed request by request, interleaved with others, by \<open>step\<close>.
\<close>

subsection \<open>The world and the platform\<close>

record http_request =
  rq_Method :: string
  rq_URL :: string
  rq_Headers :: "(string \<times> string) list"
  rq_Body :: string

record http_response =
  rs_StatusCode :: int
  rs_Headers :: "(string \<times> string list) list"
  rs_Body :: string

record kmessage =
  km_Topic :: string
  km_Key :: string
  km_Value :: string

record world =
  w_tick :: nat
  w_keys :: keyspace
  w_db :: database
  w_log :: "kmessage list"        \<comment> \<open>messages written to Kafka, oldest first\<close>
  w_committed :: "kmessage list"  \<comment> \<open>messages whose offset was committed\<close>
  w_sent :: "http_request list"   \<comment> \<open>HTTP requests issued\<close>

record platform =
  pl_now :: "nat \<Rightarrow> time"
  pl_uuid :: "nat \<Rightarrow> string"
  pl_rand :: "nat \<Rightarrow> nat \<Rightarrow> gerr + int list"
  pl_int63n :: "nat \<Rightarrow> int \<Rightarrow> int"
  pl_redis :: "nat \<Rightarrow> rcmd \<Rightarrow> keyspace \<Rightarrow> (gerr + reply) \<times> keyspace"
  pl_pipe :: "nat \<Rightarrow> rcmd list \<Rightarrow> keyspace \<Rightarrow> (gerr + reply list) \<times> keyspace"
  pl_exec :: "nat \<Rightarrow> stmt \<Rightarrow> database \<Rightarrow> (gerr + nat) \<times> database"
  pl_query :: "nat \<Rightarrow> query \<Rightarrow> database \<Rightarrow> gerr + sqlval list list"
  pl_write :: "nat \<Rightarrow> kmessage \<Rightarrow> kmessage list \<Rightarrow> gerr option \<times> kmessage list"
  pl_fetch :: "nat \<Rightarrow> gerr + kmessage"
  pl_commit :: "nat \<Rightarrow> kmessage \<Rightarrow> gerr option"
  pl_cancelled :: "nat \<Rightarrow> bool"
  pl_http :: "nat \<Rightarrow> http_request \<Rightarrow> gerr + http_response"

subsection \<open>Programs\<close>

datatype 'a prog =
    Ret 'a
  | Panic string
  | Now "time \<Rightarrow> 'a prog"                                   \<comment> \<open>\<^verbatim>\<open>time.Now()\<close>\<close>
  | NewUUID "string \<Rightarrow> 'a prog"                             \<comment> \<open>\<^verbatim>\<open>uuid.New().String()\<close>\<close>
  | RandRead nat "gerr + int list \<Rightarrow> 'a prog"                \<comment> \<open>\<^verbatim>\<open>crypto/rand.Read\<close>\<close>
  | Int63n int "int \<Rightarrow> 'a prog"                             \<comment> \<open>\<^verbatim>\<open>math/rand.Int63n\<close>, positive argument\<close>
  | RedisDo rcmd "gerr + reply \<Rightarrow> 'a prog"
  | RedisPipe "rcmd list" "gerr + reply list \<Rightarrow> 'a prog"
  | PgExec stmt "gerr + nat \<Rightarrow> 'a prog"                     \<comment> \<open>\<^verbatim>\<open>pool.Exec\<close>: rows affected\<close>
  | PgQuery query "gerr + sqlval list list \<Rightarrow> 'a prog"       \<comment> \<open>\<^verbatim>\<open>pool.Query\<close>\<close>
  | KafkaWrite kmessage "gerr option \<Rightarrow> 'a prog"
  | KafkaFetch "gerr + kmessage \<Rightarrow> 'a prog"
  | KafkaCommit kmessage "gerr option \<Rightarrow> 'a prog"
  | Cancelled "bool \<Rightarrow> 'a prog"                             \<comment> \<open>\<^verbatim>\<open>ctx.Err() != nil\<close>\<close>
  | HttpDo http_request "gerr + http_response \<Rightarrow> 'a prog"

primrec bind :: "'a prog \<Rightarrow> ('a \<Rightarrow> 'b prog) \<Rightarrow> 'b prog" where
  "bind (Ret a) f = f a"
| "bind (Panic s) f = Panic s"
| "bind (Now k) f = Now (\<lambda>x. bind (k x) f)"
| "bind (NewUUID k) f = NewUUID (\<lambda>x. bind (k x) f)"
| "bind (RandRead n k) f = RandRead n (\<lambda>x. bind (k x) f)"
| "bind (Int63n n k) f = Int63n n (\<lambda>x. bind (k x) f)"
| "bind (RedisDo c k) f = RedisDo c (\<lambda>x. bind (k x) f)"
| "bind (RedisPipe cs k) f = RedisPipe cs (\<lambda>x. bind (k x) f)"
| "bind (PgExec s k) f = PgExec s (\<lambda>x. bind (k x) f)"
| "bind (PgQuery q k) f = PgQuery q (\<lambda>x. bind (k x) f)"
| "bind (KafkaWrite m k) f = KafkaWrite m (\<lambda>x. bind (k x) f)"
| "bind (KafkaFetch k) f = KafkaFetch (\<lambda>x. bind (k x) f)"
| "bind (KafkaCommit m k) f = KafkaCommit m (\<lambda>x. bind (k x) f)"
| "bind (Cancelled k) f = Cancelled (\<lambda>x. bind (k x) f)"
| "bind (HttpDo r k) f = HttpDo r (\<lambda>x. bind (k x) f)"

text \<open>A \<^verbatim>\<open>for\<close> loop over a slice whose body only has effects.\<close>

fun for_each :: "'b list \<Rightarrow> ('b \<Rightarrow> unit prog) \<Rightarrow> unit prog" where
  "for_each [] f = Ret ()"
| "for_each (x # xs) f = bind (f x) (\<lambda>_. for_each xs f)"

text \<open>
  \<^verbatim>\<open>defer f()\<close>: the deferred call runs when the function returns and when it panics.
\<close>

primrec deferred :: "'b prog \<Rightarrow> 'a prog \<Rightarrow> 'a prog" where
  "deferred f (Ret a) = bind f (\<lambda>_. Ret a)"
| "deferred f (Panic s) = bind f (\<lambda>_. Panic s)"
| "deferred f (Now k) = Now (\<lambda>x. deferred f (k x))"
| "deferred f (NewUUID k) = NewUUID (\<lambda>x. deferred f (k x))"
| "deferred f (RandRead n k) = RandRead n (\<lambda>x. deferred f (k x))"
| "deferred f (Int63n n k) = Int63n n (\<lambda>x. deferred f (k x))"
| "deferred f (RedisDo c k) = RedisDo c (\<lambda>x. deferred f (k x))"
| "deferred f (RedisPipe cs k) = RedisPipe cs (\<lambda>x. deferred f (k x))"
| "deferred f (PgExec s k) = PgExec s (\<lambda>x. deferred f (k x))"
| "deferred f (PgQuery q k) = PgQuery q (\<lambda>x. deferred f (k x))"
| "deferred f (KafkaWrite m k) = KafkaWrite m (\<lambda>x. deferred f (k x))"
| "deferred f (KafkaFetch k) = KafkaFetch (\<lambda>x. deferred f (k x))"
| "deferred f (KafkaCommit m k) = KafkaCommit m (\<lambda>x. deferred f (k x))"
| "deferred f (Cancelled k) = Cancelled (\<lambda>x. deferred f (k x))"
| "deferred f (HttpDo r k) = HttpDo r (\<lambda>x. deferred f (k x))"

subsection \<open>Execution\<close>

datatype 'a outcome = Returns 'a | Panics string

definition tick :: "world \<Rightarrow> world" where
  "tick w = w\<lparr>w_tick := Suc (w_tick w)\<rparr>"

definition ans_redis :: "platform \<Rightarrow> rcmd \<Rightarrow> world \<Rightarrow> (gerr + reply) \<times> world" where
  "ans_redis P c w =
     (case pl_redis P (w_tick w) c (w_keys w) of (r, ks) \<Rightarrow> (r, tick (w\<lparr>w_keys := ks\<rparr>)))"

definition ans_pipe :: "platform \<Rightarrow> rcmd list \<Rightarrow> world \<Rightarrow> (gerr + reply list) \<times> world" where
  "ans_pipe P cs w =
     (case pl_pipe P (w_tick w) cs (w_keys w) of (r, ks) \<Rightarrow> (r, tick (w\<lparr>w_keys := ks\<rparr>)))"

definition ans_exec :: "platform \<Rightarrow> stmt \<Rightarrow> world \<Rightarrow> (gerr + nat) \<times> world" where
  "ans_exec P s w =
     (case pl_exec P (w_tick w) s (w_db w) of (r, db) \<Rightarrow> (r, tick (w\<lparr>w_db := db\<rparr>)))"

definition ans_write :: "platform \<Rightarrow> kmessage \<Rightarrow> world \<Rightarrow> gerr option \<times> world" where
  "ans_write P m w =
     (case pl_write P (w_tick w) m (w_log w) of (r, l) \<Rightarrow> (r, tick (w\<lparr>w_log := l\<rparr>)))"

definition ans_commit :: "platform \<Rightarrow> kmessage \<Rightarrow> world \<Rightarrow> gerr option \<times> world" where
  "ans_commit P m w =
     (case pl_commit P (w_tick w) m of
        None \<Rightarrow> (None, tick (w\<lparr>w_committed := w_committed w @ [m]\<rparr>))
      | Some e \<Rightarrow> (Some e, tick w))"

definition ans_http :: "platform \<Rightarrow> http_request \<Rightarrow> world \<Rightarrow> (gerr + http_response) \<times> world" where
  "ans_http P r w = (pl_http P (w_tick w) r, tick (w\<lparr>w_sent := w_sent w @ [r]\<rparr>))"

text \<open>One request: the rest of the program and the world after it.\<close>

fun step :: "platform \<Rightarrow> 'a prog \<Rightarrow> world \<Rightarrow> 'a prog \<times> world" where
  "step P (Ret a) w = (Ret a, w)"
| "step P (Panic s) w = (Panic s, w)"
| "step P (Now k) w = (k (pl_now P (w_tick w)), tick w)"
| "step P (NewUUID k) w = (k (pl_uuid P (w_tick w)), tick w)"
| "step P (RandRead n k) w = (k (pl_rand P (w_tick w) n), tick w)"
| "step P (Int63n n k) w = (k (pl_int63n P (w_tick w) n), tick w)"
| "step P (RedisDo c k) w = (case ans_redis P c w of (x, w') \<Rightarrow> (k x, w'))"
| "step P (RedisPipe cs k) w = (case ans_pipe P cs w of (x, w') \<Rightarrow> (k x, w'))"
| "step P (PgExec s k) w = (case ans_exec P s w of (x, w') \<Rightarrow> (k x, w'))"
| "step P (PgQuery q k) w = (k (pl_query P (w_tick w) q (w_db w)), tick w)"
| "step P (KafkaWrite m k) w = (case ans_write P m w of (x, w') \<Rightarrow> (k x, w'))"
| "step P (KafkaFetch k) w = (k (pl_fetch P (w_tick w)), tick w)"
| "step P (KafkaCommit m k) w = (case ans_commit P m w of (x, w') \<Rightarrow> (k x, w'))"
| "step P (Cancelled k) w = (k (pl_cancelled P (w_tick w)), tick w)"
| "step P (HttpDo r k) w = (case ans_http P r w of (x, w') \<Rightarrow> (k x, w'))"

text \<open>The whole program, alone: every program ends, the recursion is on the tree.\<close>

primrec run :: "platform \<Rightarrow> 'a prog \<Rightarrow> world \<Rightarrow> 'a outcome \<times> world" where
  "run P (Ret a) = (\<lambda>w. (Returns a, w))"
| "run P (Panic s) = (\<lambda>w. (Panics s, w))"
| "run P (Now k) = (\<lambda>w. run P (k (pl_now P (w_tick w))) (tick w))"
| "run P (NewUUID k) = (\<lambda>w. run P (k (pl_uuid P (w_tick w))) (tick w))"
| "run P (RandRead n k) = (\<lambda>w. run P (k (pl_rand P (w_tick w) n)) (tick w))"
| "run P (Int63n n k) = (\<lambda>w. run P (k (pl_int63n P (w_tick w) n)) (tick w))"
| "run P (RedisDo c k) = (\<lambda>w. case ans_redis P c w of (x, w') \<Rightarrow> run P (k x) w')"
| "run P (RedisPipe cs k) = (\<lambda>w. case ans_pipe P cs w of (x, w') \<Rightarrow> run P (k x) w')"
| "run P (PgExec s k) = (\<lambda>w. case ans_exec P s w of (x, w') \<Rightarrow> run P (k x) w')"
| "run P (PgQuery q k) = (\<lambda>w. run P (k (pl_query P (w_tick w) q (w_db w))) (tick w))"
| "run P (KafkaWrite m k) = (\<lambda>w. case ans_write P m w of (x, w') \<Rightarrow> run P (k x) w')"
| "run P (KafkaFetch k) = (\<lambda>w. run P (k (pl_fetch P (w_tick w))) (tick w))"
| "run P (KafkaCommit m k) = (\<lambda>w. case ans_commit P m w of (x, w') \<Rightarrow> run P (k x) w')"
| "run P (Cancelled k) = (\<lambda>w. run P (k (pl_cancelled P (w_tick w))) (tick w))"
| "run P (HttpDo r k) = (\<lambda>w. case ans_http P r w of (x, w') \<Rightarrow> run P (k x) w')"

subsection \<open>Laws of programs\<close>

lemma bind_Ret_right [simp]: "bind m Ret = m"
  by (induction m) auto

lemma bind_assoc: "bind (bind m f) g = bind m (\<lambda>x. bind (f x) g)"
  by (induction m) auto

lemma run_bind [run_simps]:
  "run P (bind m f) w =
     (case run P m w of (Returns a, w') \<Rightarrow> run P (f a) w' | (Panics s, w') \<Rightarrow> (Panics s, w'))"
  by (induction m arbitrary: w) (auto split: prod.splits)

lemma tick_simps [simp]:
  "w_tick (tick w) = Suc (w_tick w)" "w_keys (tick w) = w_keys w" "w_db (tick w) = w_db w"
  "w_log (tick w) = w_log w" "w_committed (tick w) = w_committed w" "w_sent (tick w) = w_sent w"
  by (simp_all add: tick_def)

lemma run_tick_mono: "run P m w = (r, w') \<Longrightarrow> w_tick w \<le> w_tick w'"
proof (induction m arbitrary: w)
  case (Ret x)
  then show ?case by simp
next
  case (Panic x)
  then show ?case by simp
qed (fastforce simp: ans_redis_def ans_pipe_def ans_exec_def ans_write_def ans_commit_def ans_http_def
       split: prod.splits option.splits)+

definition returned :: "'a prog \<Rightarrow> 'a option" where
  "returned m = (case m of Ret a \<Rightarrow> Some a | _ \<Rightarrow> None)"

text \<open>Running to the end is stepping often enough.\<close>

fun steps :: "platform \<Rightarrow> nat \<Rightarrow> 'a prog \<Rightarrow> world \<Rightarrow> 'a prog \<times> world" where
  "steps P 0 m w = (m, w)"
| "steps P (Suc n) m w = (case step P m w of (m', w') \<Rightarrow> steps P n m' w')"

definition ended :: "'a outcome \<times> world \<Rightarrow> 'a prog \<times> world" where
  "ended r = (case r of (Returns a, w') \<Rightarrow> (Ret a, w') | (Panics s, w') \<Rightarrow> (Panic s, w'))"

lemma ended_simps [simp]: "ended (Returns a, w) = (Ret a, w)" "ended (Panics s, w) = (Panic s, w)"
  by (simp_all add: ended_def)

lemma run_step: "run P m w = run P (fst (step P m w)) (snd (step P m w))"
  by (cases m) (auto split: prod.splits)

lemma steps_next:
  assumes "\<exists>n. steps P n (fst (step P m w)) (snd (step P m w)) =
      ended (run P (fst (step P m w)) (snd (step P m w)))"
  shows "\<exists>n. steps P n m w = ended (run P m w)"
proof -
  from assms obtain n where "steps P (Suc n) m w = ended (run P m w)"
    by (auto simp: run_step [of P m w] case_prod_beta)
  then show ?thesis ..
qed

lemma run_steps: "\<exists>n. steps P n m w = ended (run P m w)"
proof (induction m arbitrary: w)
  case (Ret x)
  show ?case by (rule exI [of _ 0]) simp
next
  case (Panic s)
  show ?case by (rule exI [of _ 0]) simp
qed (rule steps_next, simp split: prod.split)+

end
