(* ===== verification/Go_Lib.thy ===== *)
theory Go_Lib
  imports Prog
begin

text \<open>
  Parts of Go's standard library the services use. The textual formats of
  \<^verbatim>\<open>encoding/json\<close> and the parsers of \<^verbatim>\<open>net/url\<close> and \<^verbatim>\<open>net/http\<close> are a parameter of the
  model, the record \<open>golib\<close>; the services are translated for every such library. HTTP
  headers are modelled: \<^verbatim>\<open>http.Header\<close> canonicalises keys, and \<^verbatim>\<open>Set\<close> replaces.
\<close>

text \<open>The message of \<^verbatim>\<open>internal/kafka/producer.go\<close>.\<close>

record EventMessage =
  em_EventID :: string
  em_TenantID :: string
  em_EndpointID :: string
  em_EventType :: string
  em_Payload :: string
  em_Signature :: string
  em_Timestamp :: time

record golib =
  gl_MarshalEndpoint :: "endpoint \<Rightarrow> gerr + string"
  gl_UnmarshalEndpoint :: "string \<Rightarrow> gerr + endpoint"
  gl_MarshalMessage :: "EventMessage \<Rightarrow> gerr + string"
  gl_UnmarshalMessage :: "string \<Rightarrow> gerr + EventMessage"
  gl_MarshalHeaders :: "(string \<times> string list) list option \<Rightarrow> string"
  gl_NewRequest :: "string \<Rightarrow> gerr option"             \<comment> \<open>error of \<^verbatim>\<open>NewRequestWithContext\<close> for the URL\<close>
  gl_ParseURL :: "string \<Rightarrow> gerr + (string \<times> string)"   \<comment> \<open>scheme and host\<close>

subsection \<open>Headers\<close>

definition to_upper :: "char \<Rightarrow> char" where
  "to_upper c = (if 97 \<le> (of_char c :: nat) \<and> (of_char c :: nat) \<le> 122 then char_of (of_char c - 32 :: nat) else c)"

definition to_lower :: "char \<Rightarrow> char" where
  "to_lower c = (if 65 \<le> (of_char c :: nat) \<and> (of_char c :: nat) \<le> 90 then char_of (of_char c + 32 :: nat) else c)"

text \<open>\<^verbatim>\<open>textproto.CanonicalMIMEHeaderKey\<close> of a valid token: the first letter and each after a hyphen upper case.\<close>

fun canonical_from :: "bool \<Rightarrow> string \<Rightarrow> string" where
  "canonical_from upper [] = []"
| "canonical_from upper (c # cs) =
     (if upper then to_upper c else to_lower c) # canonical_from (c = CHR ''-'') cs"

definition CanonicalHeaderKey :: "string \<Rightarrow> string" where
  "CanonicalHeaderKey k = canonical_from True k"

fun set_pair :: "string \<Rightarrow> string \<Rightarrow> (string \<times> string) list \<Rightarrow> (string \<times> string) list" where
  "set_pair k v [] = [(k, v)]"
| "set_pair k v ((k', v') # hs) = (if k' = k then (k, v) # hs else (k', v') # set_pair k v hs)"

definition Header_Set :: "(string \<times> string) list \<Rightarrow> string \<Rightarrow> string \<Rightarrow> (string \<times> string) list" where
  "Header_Set hs k v = set_pair (CanonicalHeaderKey k) v hs"

lemma map_of_set_pair [simp]: "map_of (set_pair k v hs) = (map_of hs)(k \<mapsto> v)"
  by (induction k v hs rule: set_pair.induct) auto

lemma map_of_Header_Set: "map_of (Header_Set hs k v) = (map_of hs)(CanonicalHeaderKey k \<mapsto> v)"
  by (simp add: Header_Set_def)

text \<open>
  A library for concrete runs: it keeps of a message its event, of an endpoint its URL and
  whether it is active, which is all the dispatcher reads back; it accepts every URL.
\<close>

definition sim_lib :: golib where
  "sim_lib = \<lparr>
     gl_MarshalEndpoint = (\<lambda>ep. Inr ((if ep_Active ep then CHR ''1'' else CHR ''0'') # ep_URL ep)),
     gl_UnmarshalEndpoint = (\<lambda>s. case s of
         [] \<Rightarrow> Inl (PlainErr ''unexpected end of JSON input'')
       | c # url \<Rightarrow> Inr \<lparr>ep_ID = '''', ep_TenantID = '''', ep_URL = url, ep_Description = '''',
           ep_EventTypes = None, ep_Secret = '''', ep_Active = (c = CHR ''1''), ep_CreatedAt = 0, ep_UpdatedAt = 0\<rparr>),
     gl_MarshalMessage = (\<lambda>m. Inr (em_EventID m)),
     gl_UnmarshalMessage = (\<lambda>s. Inr \<lparr>em_EventID = s, em_TenantID = '''', em_EndpointID = '''', em_EventType = '''',
         em_Payload = '''', em_Signature = '''', em_Timestamp = 0\<rparr>),
     gl_MarshalHeaders = (\<lambda>hs. ''{}''),
     gl_NewRequest = (\<lambda>url. None),
     gl_ParseURL = (\<lambda>s. Inr (''https'', s))\<rparr>"

end
