(* ===== verification/Api_Response.thy ===== *)
theory Api_Response
  imports Go_Lib Go_Strings
begin

text \<open>
  \<^verbatim>\<open>internal/api/response\<close> and the structs that the handlers answer with. A response is
  its status, its headers and the value handed to the JSON encoder, one constructor per
  response struct; the text of the encoding is the library's. Times are formatted by the
  library too (\<open>al_Format\<close>, the layout \<^verbatim>\<open>2006-01-02T15:04:05Z\<close>).
\<close>

subsection \<open>Requests\<close>

record api_request =
  ar_Method :: string
  ar_Path :: string
  ar_RemoteAddr :: string
  ar_Header :: "string \<Rightarrow> string"        \<comment> \<open>\<^verbatim>\<open>r.Header.Get\<close>, empty when missing\<close>
  ar_Query :: "string \<Rightarrow> string"         \<comment> \<open>\<^verbatim>\<open>r.URL.Query().Get\<close>, empty when missing\<close>
  ar_Body :: string

record createEndpointRequest =
  cer_URL :: string
  cer_Description :: string
  cer_EventTypes :: "string list option"
  cer_Active :: "bool option"

record updateEndpointRequest =
  uer_URL :: "string option"
  uer_Description :: "string option"
  uer_EventTypes :: "string list option"
  uer_Active :: "bool option"

record createEventRequest =
  cvr_EndpointID :: string
  cvr_EventType :: string
  cvr_Payload :: string

record createTenantRequest =
  ctr_Name :: string
  ctr_RateLimitPerMinute :: int
  ctr_MaxRetries :: int
  ctr_RetryBaseMs :: int

record updateTenantRequest =
  utr_Name :: "string option"
  utr_RateLimitPerMinute :: "int option"
  utr_MaxRetries :: "int option"
  utr_RetryBaseMs :: "int option"

text \<open>The decoders of \<^verbatim>\<open>json.NewDecoder(r.Body).Decode\<close>, one per struct, and \<^verbatim>\<open>time.Format\<close>.\<close>

record apilib =
  al_lib :: golib
  al_CreateEndpoint :: "string \<Rightarrow> gerr + createEndpointRequest"
  al_UpdateEndpoint :: "string \<Rightarrow> gerr + updateEndpointRequest"
  al_CreateEvent :: "string \<Rightarrow> gerr + createEventRequest"
  al_CreateTenant :: "string \<Rightarrow> gerr + createTenantRequest"
  al_UpdateTenant :: "string \<Rightarrow> gerr + updateTenantRequest"
  al_Format :: "time \<Rightarrow> string"

subsection \<open>Responses\<close>

record ErrorResponse =
  er_Error :: string
  er_Code :: string
  er_Details :: "ValidationError list"

record createEndpointResponse =
  ces_ID :: string
  ces_URL :: string
  ces_Description :: string
  ces_EventTypes :: "string list"
  ces_Secret :: string
  ces_Active :: bool
  ces_CreatedAt :: string

record endpointResponse =
  eps_ID :: string
  eps_URL :: string
  eps_Description :: string
  eps_EventTypes :: "string list"
  eps_Active :: bool
  eps_CreatedAt :: string
  eps_UpdatedAt :: string

record endpointListResponse =
  epl_Data :: "endpointResponse list"
  epl_Total :: int
  epl_Limit :: int
  epl_Offset :: int

record createEventResponse =
  cvs_ID :: string
  cvs_Status :: string
  cvs_EventType :: string
  cvs_CreatedAt :: string

record eventResponse =
  evs_ID :: string
  evs_EndpointID :: string
  evs_EventType :: string
  evs_Payload :: string
  evs_Status :: string
  evs_AttemptCount :: int
  evs_MaxAttempts :: int
  evs_CreatedAt :: string
  evs_UpdatedAt :: string

record eventListResponse =
  evl_Data :: "eventResponse list"
  evl_Total :: int
  evl_Limit :: int
  evl_Offset :: int

record createTenantResponse =
  cts_ID :: string
  cts_Name :: string
  cts_APIKey :: string
  cts_RateLimitPerMinute :: int
  cts_MaxRetries :: int
  cts_RetryBaseMs :: int
  cts_CreatedAt :: string

record tenantResponse =
  tns_ID :: string
  tns_Name :: string
  tns_RateLimitPerMinute :: int
  tns_MaxRetries :: int
  tns_RetryBaseMs :: int
  tns_CreatedAt :: string
  tns_UpdatedAt :: string

datatype api_body =
    NoBody
  | ErrorBody ErrorResponse
  | MapBody "(string \<times> string) list"
  | EndpointCreated createEndpointResponse
  | EndpointBody endpointResponse
  | EndpointList endpointListResponse
  | EventCreated createEventResponse
  | EventBody eventResponse
  | EventList eventListResponse
  | TenantCreated createTenantResponse
  | TenantBody tenantResponse

record api_response =
  as_Status :: int
  as_Headers :: "(string \<times> string) list"
  as_Body :: api_body

text \<open>\<^verbatim>\<open>http.StatusText\<close> for the codes the program uses.\<close>

definition StatusText :: "int \<Rightarrow> string" where
  "StatusText code =
     (if code = 400 then ''Bad Request'' else if code = 401 then ''Unauthorized''
      else if code = 403 then ''Forbidden'' else if code = 404 then ''Not Found''
      else if code = 409 then ''Conflict'' else if code = 429 then ''Too Many Requests''
      else if code = 500 then ''Internal Server Error'' else if code = 503 then ''Service Unavailable''
      else '''')"

definition json_header :: "(string \<times> string) list" where
  "json_header = [(''Content-Type'', ''application/json'')]"

definition response_JSON :: "int \<Rightarrow> api_body \<Rightarrow> api_response" where
  "response_JSON status data = \<lparr>as_Status = status, as_Headers = json_header, as_Body = data\<rparr>"

definition response_Error :: "int \<Rightarrow> string \<Rightarrow> api_response" where
  "response_Error status message = response_JSON status
     (ErrorBody \<lparr>er_Error = message, er_Code = StatusText status, er_Details = []\<rparr>)"

definition response_MapError :: "gerr \<Rightarrow> int \<times> string" where
  "response_MapError err =
     (if errors_is err ErrNotFound then (404, ''resource not found'')
      else if errors_is err ErrAlreadyExists then (409, ''resource already exists'')
      else if errors_is err ErrValidation then (400, err_msg err)
      else if errors_is err ErrUnauthorized then (401, ''unauthorized'')
      else if errors_is err ErrForbidden then (403, ''forbidden'')
      else (500, ''internal server error''))"

definition response_HandleError :: "gerr \<Rightarrow> api_response" where
  "response_HandleError err = (case response_MapError err of (status, message) \<Rightarrow> response_Error status message)"

text \<open>\<^verbatim>\<open>internal/api/handler/response.go\<close>: the same functions again, for the other handlers.\<close>

definition RespondJSON :: "int \<Rightarrow> api_body \<Rightarrow> api_response" where
  "RespondJSON status data = \<lparr>as_Status = status, as_Headers = json_header, as_Body = data\<rparr>"

definition RespondError :: "int \<Rightarrow> string \<Rightarrow> api_response" where
  "RespondError status message = RespondJSON status
     (ErrorBody \<lparr>er_Error = message, er_Code = StatusText status, er_Details = []\<rparr>)"

definition MapError :: "gerr \<Rightarrow> int \<times> string" where
  "MapError err =
     (if errors_is err ErrNotFound then (404, ''resource not found'')
      else if errors_is err ErrAlreadyExists then (409, ''resource already exists'')
      else if errors_is err ErrValidation then (400, err_msg err)
      else if errors_is err ErrUnauthorized then (401, ''unauthorized'')
      else if errors_is err ErrForbidden then (403, ''forbidden'')
      else (500, ''internal server error''))"

definition HandleError :: "gerr \<Rightarrow> api_response" where
  "HandleError err = (case MapError err of (status, message) \<Rightarrow> RespondError status message)"

end
