(* ===== verification/Platform.thy ===== *)
theory Platform
  imports Prog
begin

text \<open>
  What the program may assume of its environment, and how programs are reasoned about.

  \<open>wp P m Q w\<close> says that the program \<open>m\<close> run on the platform \<open>P\<close> from the world \<open>w\<close>
  returns (it does not panic) with a result and a world that satisfy \<open>Q\<close>. The locales
  state the documented behaviour of the services: a command that Redis answers has the
  effect of \<open>redis_apply\<close>, a statement that Postgres answers has the effect of
  \<open>sql_exec\<close>, and a request that fails for a reason of the transport was either not
  executed or executed without the answer arriving. The last section defines \<open>sim\<close>, a
  platform that a script drives through every such behaviour, and shows that it obeys
  every locale for every script.
\<close>

subsection \<open>Weakest preconditions\<close>

definition wp :: "platform \<Rightarrow> 'a prog \<Rightarrow> ('a \<Rightarrow> world \<Rightarrow> bool) \<Rightarrow> world \<Rightarrow> bool" where
  "wp P m Q w = (case run P m w of (Returns a, w') \<Rightarrow> Q a w' | (Panics s, w') \<Rightarrow> False)"

lemma wp_Ret [simp]: "wp P (Ret a) Q = Q a"
  by (rule ext) (simp add: wp_def)

lemma wp_Panic [simp]: "\<not> wp P (Panic s) Q w"
  by (simp add: wp_def)

lemma wp_bind [simp]: "wp P (bind m f) Q w = wp P m (\<lambda>a. wp P (f a) Q) w"
  by (auto simp: wp_def run_simps split: outcome.splits prod.splits)

lemma wp_Now [simp]: "wp P (Now k) Q w = wp P (k (pl_now P (w_tick w))) Q (tick w)"
  by (simp add: wp_def)

lemma wp_NewUUID [simp]: "wp P (NewUUID k) Q w = wp P (k (pl_uuid P (w_tick w))) Q (tick w)"
  by (simp add: wp_def)

lemma wp_RandRead [simp]: "wp P (RandRead n k) Q w = wp P (k (pl_rand P (w_tick w) n)) Q (tick w)"
  by (simp add: wp_def)

lemma wp_Int63n [simp]: "wp P (Int63n n k) Q w = wp P (k (pl_int63n P (w_tick w) n)) Q (tick w)"
  by (simp add: wp_def)

lemma wp_Cancelled [simp]:
  "wp P (Cancelled k) Q w = wp P (k (pl_cancelled P (w_tick w))) Q (tick w)"
  by (simp add: wp_def)

lemma wp_KafkaFetch [simp]: "wp P (KafkaFetch k) Q w = wp P (k (pl_fetch P (w_tick w))) Q (tick w)"
  by (simp add: wp_def)

lemma wp_HttpDo [simp]:
  "wp P (HttpDo r k) Q w =
     wp P (k (pl_http P (w_tick w) r)) Q (tick (w\<lparr>w_sent := w_sent w @ [r]\<rparr>))"
  by (simp add: wp_def ans_http_def)

lemma wp_RedisDo:
  "wp P (RedisDo c k) Q w =
     (case pl_redis P (w_tick w) c (w_keys w) of (r, ks) \<Rightarrow> wp P (k r) Q (tick (w\<lparr>w_keys := ks\<rparr>)))"
  by (auto simp: wp_def ans_redis_def split: prod.splits)

lemma wp_RedisPipe:
  "wp P (RedisPipe cs k) Q w =
     (case pl_pipe P (w_tick w) cs (w_keys w) of (r, ks) \<Rightarrow> wp P (k r) Q (tick (w\<lparr>w_keys := ks\<rparr>)))"
  by (auto simp: wp_def ans_pipe_def split: prod.splits)

lemma wp_PgExec:
  "wp P (PgExec s k) Q w =
     (case pl_exec P (w_tick w) s (w_db w) of (r, db) \<Rightarrow> wp P (k r) Q (tick (w\<lparr>w_db := db\<rparr>)))"
  by (auto simp: wp_def ans_exec_def split: prod.splits)

lemma wp_PgQuery:
  "wp P (PgQuery q k) Q w = wp P (k (pl_query P (w_tick w) q (w_db w))) Q (tick w)"
  by (simp add: wp_def)

lemma wp_KafkaWrite:
  "wp P (KafkaWrite m k) Q w =
     (case pl_write P (w_tick w) m (w_log w) of (r, l) \<Rightarrow> wp P (k r) Q (tick (w\<lparr>w_log := l\<rparr>)))"
  by (auto simp: wp_def ans_write_def split: prod.splits)

lemma wp_KafkaCommit:
  "wp P (KafkaCommit m k) Q w =
     (case pl_commit P (w_tick w) m of
        None \<Rightarrow> wp P (k None) Q (tick (w\<lparr>w_committed := w_committed w @ [m]\<rparr>))
      | Some e \<Rightarrow> wp P (k (Some e)) Q (tick w))"
  by (auto simp: wp_def ans_commit_def split: option.splits)

lemma wp_deferred [simp]:
  "wp P (deferred f m) Q w = wp P m (\<lambda>a w'. wp P f (\<lambda>_. Q a) w') w"
proof -
  have "run P (deferred f m) w = (case run P m w of
      (Returns a, w') \<Rightarrow> (case run P f w' of (Returns b, w'') \<Rightarrow> (Returns a, w'') | (Panics s, w'') \<Rightarrow> (Panics s, w''))
    | (Panics s, w') \<Rightarrow> (case run P f w' of (Returns b, w'') \<Rightarrow> (Panics s, w'') | (Panics t, w'') \<Rightarrow> (Panics t, w'')))"
    by (induction m arbitrary: w) (auto simp: run_simps split: prod.splits outcome.splits)
  then show ?thesis by (auto simp: wp_def split: prod.splits outcome.splits)
qed

lemma wp_mono: "wp P m Q w \<Longrightarrow> (\<And>a w'. Q a w' \<Longrightarrow> Q' a w') \<Longrightarrow> wp P m Q' w"
  by (auto simp: wp_def split: outcome.splits prod.splits)

lemma wp_run: "wp P m Q w \<Longrightarrow> run P m w = (r, w') \<Longrightarrow> \<exists>a. r = Returns a \<and> Q a w'"
  by (auto simp: wp_def split: outcome.splits)

lemma wp_returns: "wp P m Q w \<Longrightarrow> run P m w = (Returns a, w') \<Longrightarrow> Q a w'"
  by (simp add: wp_def)

lemma wp_iff: "wp P m Q w \<longleftrightarrow> (\<exists>a w'. run P m w = (Returns a, w') \<and> Q a w')"
  by (cases "run P m w"; cases "fst (run P m w)") (auto simp: wp_def)

subsection \<open>Laws of the services\<close>

text \<open>An error of the transport or of the driver: none of the values the code compares errors with.\<close>

definition infra :: "gerr \<Rightarrow> bool" where
  "infra e \<longleftrightarrow> \<not> sentinel (root_cause e) \<and> root_cause e \<noteq> ErrNoRows \<and> root_cause e \<noteq> RedisNil
     \<and> errors_as_pg e = None"

lemma infra_not_sentinel:
  "infra e \<Longrightarrow> e \<noteq> RedisNil" "infra e \<Longrightarrow> e \<noteq> ErrNoRows" "infra e \<Longrightarrow> e \<noteq> ErrNotFound"
  "infra e \<Longrightarrow> sentinel t \<Longrightarrow> \<not> errors_is e t" "infra e \<Longrightarrow> errors_is e ErrNoRows \<longleftrightarrow> False"
  "infra e \<Longrightarrow> errors_as_pg e = None"
  by (auto simp: infra_def errors_is_root_cause) (induction e; auto)+

lemma infra_not_found: "infra e \<Longrightarrow> \<not> errors_is e ErrNotFound"
  by (rule infra_not_sentinel(4)) simp_all

definition redis_obeys :: "int \<Rightarrow> rcmd \<Rightarrow> keyspace \<Rightarrow> (gerr + reply) \<times> keyspace \<Rightarrow> bool" where
  "redis_obeys t c ks res \<longleftrightarrow>
     res = redis_apply t c ks
     \<or> (\<exists>e. infra e \<and> (res = (Inl e, ks) \<or> res = (Inl e, snd (redis_apply t c ks))))"

fun pipe_result :: "(gerr + reply) list \<Rightarrow> gerr + reply list" where
  "pipe_result [] = Inr []"
| "pipe_result (Inl e # rs) = Inl e"
| "pipe_result (Inr r # rs) = (case pipe_result rs of Inl e \<Rightarrow> Inl e | Inr xs \<Rightarrow> Inr (r # xs))"

definition pipe_obeys ::
  "int \<Rightarrow> rcmd list \<Rightarrow> keyspace \<Rightarrow> (gerr + reply list) \<times> keyspace \<Rightarrow> bool" where
  "pipe_obeys t cs ks res \<longleftrightarrow>
     res = (pipe_result (fst (redis_applys t cs ks)), snd (redis_applys t cs ks))
     \<or> (\<exists>e n. infra e \<and> res = (Inl e, snd (redis_applys t (take n cs) ks)))"

lemma pipe_obeys_lost_request: "infra e \<Longrightarrow> pipe_obeys t cs ks (Inl e, ks)"
  unfolding pipe_obeys_def by (rule disjI2, rule exI [of _ e], rule exI [of _ 0]) simp

lemma pipe_obeys_lost_answer:
  "infra e \<Longrightarrow> pipe_obeys t cs ks (Inl e, snd (redis_applys t cs ks))"
  unfolding pipe_obeys_def by (rule disjI2, rule exI [of _ e], rule exI [of _ "length cs"]) simp

locale redis_server =
  fixes P :: platform and rt :: "nat \<Rightarrow> int"
  assumes rt_mono: "m \<le> n \<Longrightarrow> rt m \<le> rt n"
    and redis_law: "redis_obeys (rt n) c ks (pl_redis P n c ks)"
    and pipe_law: "pipe_obeys (rt n) cs ks (pl_pipe P n cs ks)"
begin

lemma redis_do:
  assumes "\<And>r ks. redis_obeys (rt (w_tick w)) c (w_keys w) (r, ks) \<Longrightarrow>
      wp P (k r) Q (tick (w\<lparr>w_keys := ks\<rparr>))"
  shows "wp P (RedisDo c k) Q w"
  using assms redis_law [of "w_tick w" c "w_keys w"] by (auto simp: wp_RedisDo split: prod.split)

lemma redis_pipe:
  assumes "\<And>r ks. pipe_obeys (rt (w_tick w)) cs (w_keys w) (r, ks) \<Longrightarrow>
      wp P (k r) Q (tick (w\<lparr>w_keys := ks\<rparr>))"
  shows "wp P (RedisPipe cs k) Q w"
  using assms pipe_law [of "w_tick w" cs "w_keys w"] by (auto simp: wp_RedisPipe split: prod.split)

end

definition exec_obeys ::
  "pgtypes \<Rightarrow> time \<Rightarrow> stmt \<Rightarrow> database \<Rightarrow> (gerr + nat) \<times> database \<Rightarrow> bool" where
  "exec_obeys ty now s db res \<longleftrightarrow>
     (case sql_exec ty pg_schema pg_tables now s db of
        (Inl code, db1) \<Rightarrow> \<exists>msg. res = (Inl (PgError code msg), db)
      | (Inr n, db1) \<Rightarrow> res = (Inr n, db1))
     \<or> (\<exists>e. infra e \<and>
          (res = (Inl e, db) \<or> res = (Inl e, snd (sql_exec ty pg_schema pg_tables now s db))))"

definition query_obeys ::
  "pgtypes \<Rightarrow> time \<Rightarrow> query \<Rightarrow> database \<Rightarrow> gerr + sqlval list list \<Rightarrow> bool" where
  "query_obeys ty now q db res \<longleftrightarrow>
     (case query_error ty pg_schema q of
        Some code \<Rightarrow> \<exists>msg. res = Inl (PgError code msg)
      | None \<Rightarrow> \<exists>out. res = Inr out \<and> sql_rows ty pg_schema now q db out)
     \<or> (\<exists>e. infra e \<and> res = Inl e)"

text \<open>
  The canonical forms are canonical, and a generated UUID is already one (RFC 4122 text in
  lower case).
\<close>

locale pg_server =
  fixes P :: platform and ty :: pgtypes and pgnow :: "nat \<Rightarrow> time"
  assumes exec_law: "exec_obeys ty (pgnow n) s db (pl_exec P n s db)"
    and query_law: "query_obeys ty (pgnow n) q db (pl_query P n q db)"
    and uuid_canonical: "uuid_in ty u = Some v \<Longrightarrow> uuid_in ty v = Some v"
    and jsonb_canonical: "jsonb_in ty j = Some v \<Longrightarrow> jsonb_in ty v = Some v"
    and uuid_generated: "uuid_in ty (pl_uuid P n) = Some (pl_uuid P n)"
begin

lemma pg_exec:
  assumes "\<And>r db. exec_obeys ty (pgnow (w_tick w)) s (w_db w) (r, db) \<Longrightarrow>
      wp P (k r) Q (tick (w\<lparr>w_db := db\<rparr>))"
  shows "wp P (PgExec s k) Q w"
  using assms exec_law [of "w_tick w" s "w_db w"] by (auto simp: wp_PgExec split: prod.split)

lemma pg_query:
  assumes "\<And>r. query_obeys ty (pgnow (w_tick w)) q (w_db w) r \<Longrightarrow> wp P (k r) Q (tick w)"
  shows "wp P (PgQuery q k) Q w"
  using assms query_law [of "w_tick w" q "w_db w"] by (auto simp: wp_PgQuery)

end

text \<open>Kafka: an acknowledged message is in the log once; an error may hide a written message.\<close>

locale kafka_cluster =
  fixes P :: platform
  assumes write_law: "pl_write P n m l = (None, l @ [m])
      \<or> (\<exists>e. infra e \<and> (pl_write P n m l = (Some e, l) \<or> pl_write P n m l = (Some e, l @ [m])))"
begin

lemma kafka_write:
  assumes "wp P (k None) Q (tick (w\<lparr>w_log := w_log w @ [m]\<rparr>))"
    and "\<And>e l. infra e \<Longrightarrow> l = w_log w \<or> l = w_log w @ [m] \<Longrightarrow>
      wp P (k (Some e)) Q (tick (w\<lparr>w_log := l\<rparr>))"
  shows "wp P (KafkaWrite m k) Q w"
  using assms(1) assms(2) [of _ "w_log w"] assms(2) [of _ "w_log w @ [m]"]
    write_law [of "w_tick w" m "w_log w"] by (auto simp: wp_KafkaWrite)

end

text \<open>The Go run-time: the ranges of the random sources.\<close>

locale go_runtime =
  fixes P :: platform
  assumes int63n_range: "0 < k \<Longrightarrow> 0 \<le> pl_int63n P n k \<and> pl_int63n P n k < k"
    and rand_length: "pl_rand P n l = Inr bs \<Longrightarrow> length bs = l \<and> list_all (\<lambda>b. 0 \<le> b \<and> b < 256) bs"

locale backend =
  redis_server P rt + pg_server P ty pgnow + kafka_cluster P + go_runtime P
  for P :: platform and rt and ty and pgnow

subsection \<open>A platform that obeys the laws\<close>

datatype fault = NoFault | LostRequest | LostAnswer

record script =
  sc_start :: time
  sc_lag :: "nat \<Rightarrow> int"            \<comment> \<open>nanoseconds that pass before each request\<close>
  sc_fault :: "nat \<Rightarrow> fault"
  sc_uuid :: "nat \<Rightarrow> nat"           \<comment> \<open>choice of the generated UUID\<close>
  sc_pick :: "nat \<Rightarrow> int"           \<comment> \<open>choice of the random number\<close>
  sc_http :: "nat \<Rightarrow> http_request \<Rightarrow> gerr + http_response"
  sc_fetch :: "nat \<Rightarrow> gerr + kmessage"
  sc_cancelled :: "nat \<Rightarrow> bool"

fun sim_time :: "script \<Rightarrow> nat \<Rightarrow> time" where
  "sim_time s 0 = sc_start s"
| "sim_time s (Suc n) = sim_time s n + max 0 (sc_lag s n)"

definition sim_ms :: "script \<Rightarrow> nat \<Rightarrow> int" where
  "sim_ms s n = sim_time s n div 1000000"

definition sim_error :: gerr where
  "sim_error = PlainErr ''i/o timeout''"

text \<open>
  UUIDs of the simulation are decimal texts; its parser accepts every text unchanged, as
  its JSON parser does.
\<close>

definition sim_types :: pgtypes where
  "sim_types = \<lparr>uuid_in = Some, jsonb_in = Some\<rparr>"

definition sim_exec :: "time \<Rightarrow> stmt \<Rightarrow> database \<Rightarrow> (gerr + nat) \<times> database" where
  "sim_exec now s db =
     (case sql_exec sim_types pg_schema pg_tables now s db of
        (Inl code, db1) \<Rightarrow> (Inl (PgError code ''''), db)
      | (Inr n, db1) \<Rightarrow> (Inr n, db1))"

definition sim_query :: "time \<Rightarrow> query \<Rightarrow> database \<Rightarrow> gerr + sqlval list list" where
  "sim_query now q db =
     (case query_error sim_types pg_schema q of
        Some code \<Rightarrow> Inl (PgError code '''')
      | None \<Rightarrow> Inr (sql_answer sim_types pg_schema now q db))"

definition sim :: "script \<Rightarrow> platform" where
  "sim s = \<lparr>
     pl_now = sim_time s,
     pl_uuid = (\<lambda>n. show_nat (sc_uuid s n)),
     pl_rand = (\<lambda>n k. if sc_fault s n = NoFault
       then Inr (replicate k (sc_pick s n mod 256)) else Inl sim_error),
     pl_int63n = (\<lambda>n k. sc_pick s n mod k),
     pl_redis = (\<lambda>n c ks. case sc_fault s n of
         NoFault \<Rightarrow> redis_apply (sim_ms s n) c ks
       | LostRequest \<Rightarrow> (Inl sim_error, ks)
       | LostAnswer \<Rightarrow> (Inl sim_error, snd (redis_apply (sim_ms s n) c ks))),
     pl_pipe = (\<lambda>n cs ks. case sc_fault s n of
         NoFault \<Rightarrow> (pipe_result (fst (redis_applys (sim_ms s n) cs ks)),
                     snd (redis_applys (sim_ms s n) cs ks))
       | LostRequest \<Rightarrow> (Inl sim_error, ks)
       | LostAnswer \<Rightarrow> (Inl sim_error, snd (redis_applys (sim_ms s n) cs ks))),
     pl_exec = (\<lambda>n st db. case sc_fault s n of
         NoFault \<Rightarrow> sim_exec (sim_time s n) st db
       | LostRequest \<Rightarrow> (Inl sim_error, db)
       | LostAnswer \<Rightarrow> (Inl sim_error,
           snd (sql_exec sim_types pg_schema pg_tables (sim_time s n) st db))),
     pl_query = (\<lambda>n q db. if sc_fault s n = NoFault
       then sim_query (sim_time s n) q db else Inl sim_error),
     pl_write = (\<lambda>n m l. case sc_fault s n of
         NoFault \<Rightarrow> (None, l @ [m])
       | LostRequest \<Rightarrow> (Some sim_error, l)
       | LostAnswer \<Rightarrow> (Some sim_error, l @ [m])),
     pl_fetch = sc_fetch s,
     pl_commit = (\<lambda>n m. if sc_fault s n = NoFault then None else Some sim_error),
     pl_cancelled = sc_cancelled s,
     pl_http = sc_http s\<rparr>"

lemma infra_sim_error [simp]: "infra sim_error"
  by (simp add: infra_def sim_error_def sentinel_def)

lemma sim_time_mono: "m \<le> n \<Longrightarrow> sim_time s m \<le> sim_time s n"
  by (rule lift_Suc_mono_le [of "sim_time s"]) simp_all

lemma sim_ms_mono: "m \<le> n \<Longrightarrow> sim_ms s m \<le> sim_ms s n"
  by (simp add: sim_ms_def sim_time_mono zdiv_mono1)

text \<open>The script of an undisturbed run: no faults, and a clock that stands still.\<close>

definition quiet :: script where
  "quiet = \<lparr>sc_start = 1700000000000000000, sc_lag = \<lambda>n. 0, sc_fault = \<lambda>n. NoFault,
     sc_uuid = \<lambda>n. n, sc_pick = \<lambda>n. int n, sc_http = \<lambda>n r. Inl sim_error, sc_fetch = \<lambda>n. Inl sim_error,
     sc_cancelled = \<lambda>n. False\<rparr>"

lemma sim_time_quiet [simp]: "sim_time quiet n = 1700000000000000000"
  by (induction n) (simp_all add: quiet_def)

lemma sim_ms_quiet [simp]: "sim_ms quiet n = 1700000000000"
  by (simp add: sim_ms_def)

definition empty_world :: world where
  "empty_world = \<lparr>w_tick = 0, w_keys = \<lambda>k. None, w_db = \<lambda>t. [], w_log = [], w_committed = [],
     w_sent = []\<rparr>"

interpretation sim_redis: redis_server "sim s" "sim_ms s" for s
proof (unfold_locales, goal_cases)
  case (1 m n)
  then show ?case by (rule sim_ms_mono)
next
  case (2 n c ks)
  show ?case by (auto simp: sim_def redis_obeys_def split: fault.split intro: infra_sim_error)
next
  case (3 n cs ks)
  show ?case
    by (cases "sc_fault s n")
      (simp_all add: sim_def pipe_obeys_lost_request pipe_obeys_lost_answer,
       simp add: pipe_obeys_def)
qed

interpretation sim_pg: pg_server "sim s" sim_types "sim_time s" for s
proof (unfold_locales, goal_cases)
  case (1 n st db)
  show ?case
    by (cases "sql_exec sim_types pg_schema pg_tables (sim_time s n) st db"; cases "sc_fault s n")
      (auto simp: sim_def exec_obeys_def sim_exec_def split: sum.split intro: infra_sim_error)
next
  case (2 n q db)
  show ?case
    by (auto simp: sim_def query_obeys_def sim_query_def split: option.split
        intro: sql_answer_correct infra_sim_error)
qed (simp_all add: sim_types_def)

interpretation sim_kafka: kafka_cluster "sim s" for s
  by unfold_locales (auto simp: sim_def split: fault.split intro: infra_sim_error)

interpretation sim_go: go_runtime "sim s" for s
  by unfold_locales (auto simp: sim_def list_all_iff split: if_splits)

interpretation sim_backend: backend "sim s" "sim_ms s" sim_types "sim_time s" for s
  by unfold_locales

end
