(* ===== verification/Pg_Client.thy ===== *)
theory Pg_Client
  imports Platform
begin

text \<open>
  How the repositories use the Postgres driver: \<^verbatim>\<open>QueryRow(...).Scan\<close>, \<^verbatim>\<open>Query\<close> with the
  loop over the rows, \<^verbatim>\<open>Exec\<close> with \<^verbatim>\<open>RowsAffected\<close>; and the contracts of the statements the
  repositories issue, on a server that may fail.
\<close>

subsection \<open>Scanning\<close>

text \<open>The driver refuses to scan NULL or a value of another type into a Go variable.\<close>

definition scan_error :: gerr where
  "scan_error = PlainErr ''can't scan into dest''"

fun is_text :: "sqlval \<Rightarrow> bool" where
  "is_text (VText s) = True" | "is_text v = False"

fun text_of :: "sqlval \<Rightarrow> string" where
  "text_of (VText s) = s" | "text_of v = ''''"

fun is_int :: "sqlval \<Rightarrow> bool" where
  "is_int (VInt i) = True" | "is_int v = False"

fun int_of :: "sqlval \<Rightarrow> int" where
  "int_of (VInt i) = i" | "int_of v = 0"

fun is_bool :: "sqlval \<Rightarrow> bool" where
  "is_bool (VBool b) = True" | "is_bool v = False"

fun bool_of :: "sqlval \<Rightarrow> bool" where
  "bool_of (VBool b) = b" | "bool_of v = False"

fun is_time :: "sqlval \<Rightarrow> bool" where
  "is_time (VTime t) = True" | "is_time v = False"

fun time_of :: "sqlval \<Rightarrow> time" where
  "time_of (VTime t) = t" | "time_of v = 0"

fun is_texts :: "sqlval \<Rightarrow> bool" where
  "is_texts (VTexts xs) = True" | "is_texts VNull = True" | "is_texts v = False"

text \<open>A NULL array scans into a nil slice, a NULL time into a nil pointer, NULL bytes into nil.\<close>

fun texts_of :: "sqlval \<Rightarrow> string list option" where
  "texts_of (VTexts xs) = Some xs" | "texts_of v = None"

fun opt_time_of :: "sqlval \<Rightarrow> time option" where
  "opt_time_of (VTime t) = Some t" | "opt_time_of v = None"

definition opt_time :: "time option \<Rightarrow> sqlval" where
  "opt_time t = (case t of None \<Rightarrow> VNull | Some x \<Rightarrow> VTime x)"

text \<open>A nil slice is sent as NULL.\<close>

definition opt_texts :: "string list option \<Rightarrow> sqlval" where
  "opt_texts xs = (case xs of None \<Rightarrow> VNull | Some ys \<Rightarrow> VTexts ys)"

subsection \<open>Calls\<close>

definition pg_QueryRow :: "query \<Rightarrow> (sqlval list \<Rightarrow> gerr + 'a) \<Rightarrow> (gerr + 'a) prog" where
  "pg_QueryRow q scan = PgQuery q (\<lambda>r. Ret (case r of
     Inl err \<Rightarrow> Inl err
   | Inr [] \<Rightarrow> Inl ErrNoRows
   | Inr (row # rows) \<Rightarrow> scan row))"

text \<open>The loop \<^verbatim>\<open>for rows.Next()\<close>: the first row that cannot be scanned ends it.\<close>

fun scan_rows :: "string \<Rightarrow> (sqlval list \<Rightarrow> gerr + 'a) \<Rightarrow> sqlval list list \<Rightarrow> gerr + 'a list" where
  "scan_rows pre scan [] = Inr []"
| "scan_rows pre scan (row # rows) =
     (case scan row of
        Inl err \<Rightarrow> Inl (Wrapf pre err '''')
      | Inr x \<Rightarrow> (case scan_rows pre scan rows of Inl err \<Rightarrow> Inl err | Inr xs \<Rightarrow> Inr (x # xs)))"

definition scan_count :: "sqlval list \<Rightarrow> gerr + int" where
  "scan_count row = (case row of [v] \<Rightarrow> if is_int v then Inr (int_of v) else Inl scan_error | _ \<Rightarrow> Inl scan_error)"

lemma scan_rows_Inr:
  "scan_rows pre scan rows = Inr xs \<Longrightarrow> length xs = length rows \<and> (\<forall>i < length rows. scan (rows ! i) = Inr (xs ! i))"
proof (induction rows arbitrary: xs)
  case Nil
  then show ?case by simp
next
  case (Cons row rows)
  then obtain x ys where "scan row = Inr x" "scan_rows pre scan rows = Inr ys" "xs = x # ys"
    by (auto split: sum.splits)
  with Cons.IH [of ys] show ?case by (auto simp: less_Suc_eq_0_disj)
qed

lemma scan_rows_Inl: "scan_rows pre scan rows = Inl err \<Longrightarrow> \<exists>row \<in> set rows. \<exists>e. scan row = Inl e \<and> err = Wrapf pre e ''''"
  by (induction rows) (auto split: sum.splits)

lemma scan_rows_map:
  "(\<And>row. row \<in> set rows \<Longrightarrow> scan row = Inr (f row)) \<Longrightarrow> scan_rows pre scan rows = Inr (map f rows)"
  by (induction rows) auto

lemma scan_rows_if:
  assumes "\<And>r. scan (g r) = (if ok r then Inr (f r) else Inl e)"
  shows "list_all ok rs \<Longrightarrow> scan_rows pre scan (map g rs) = Inr (map f rs)"
    and "\<not> list_all ok rs \<Longrightarrow> \<exists>err. scan_rows pre scan (map g rs) = Inl (Wrapf pre err '''')"
  using assms by (induction rs) auto

subsection \<open>Conditions of the repositories\<close>

text \<open>Every condition on a UUID column: the parameter is parsed, and refused if malformed.\<close>

lemma holds_uuid:
  assumes "find_column tb c = Some (col c UUID)" "uuid_in ty s = Some u"
  shows "holds ty tb now (Eq c (VText s)) r \<longleftrightarrow> r c = VText u"
  using assms by simp

lemma cond_error_uuid:
  assumes "find_column tb c = Some (col c UUID)"
  shows "cond_error ty tb (Eq c (VText s)) = (if uuid_in ty s = None then Some ''22P02'' else None)"
  using assms by (auto split: option.split)

text \<open>The rows of a table with a given value in a column.\<close>

definition rows_with :: "database \<Rightarrow> string \<Rightarrow> string \<Rightarrow> string \<Rightarrow> row list" where
  "rows_with db t c u = filter (\<lambda>r. r c = VText u) (db t)"

text \<open>Between two worlds only tables changed, and time passed: the frame of the Postgres repositories.\<close>

definition only_db :: "world \<Rightarrow> world \<Rightarrow> bool" where
  "only_db w w' \<longleftrightarrow> w_keys w' = w_keys w \<and> w_log w' = w_log w \<and> w_committed w' = w_committed w
     \<and> w_sent w' = w_sent w \<and> w_tick w \<le> w_tick w'"

lemma only_db_simps [simp]:
  "only_db w w" "only_db w u \<Longrightarrow> only_db w (tick u)" "only_db w (u\<lparr>w_db := db\<rparr>) = only_db w u"
  by (simp_all add: only_db_def)

text \<open>An update of all rows of a table that carry an identifier.\<close>

definition set_rows :: "string \<Rightarrow> string \<Rightarrow> (row \<Rightarrow> row) \<Rightarrow> database \<Rightarrow> database" where
  "set_rows t u f db = db(t := update_rows (\<lambda>r. r ''id'' = VText u) f (db t))"

lemma set_rows_none: "rows_with db t ''id'' u = [] \<Longrightarrow> set_rows t u g db = db"
proof -
  assume "rows_with db t ''id'' u = []"
  then have "map (\<lambda>r. if r ''id'' = VText u then g r else r) (db t) = db t"
    by (auto simp: rows_with_def filter_empty_conv intro!: map_idI)
  then show ?thesis by (simp add: set_rows_def update_rows_def)
qed

lemma set_rows_id [simp]: "set_rows t u (\<lambda>r. r) db = db"
  by (simp add: set_rows_def update_rows_def)

text \<open>A row that only has an identifier.\<close>

definition id_row :: "string \<Rightarrow> row" where
  "id_row u = (\<lambda>c. VNull)(''id'' := VText u)"

definition insert_row :: "pgtypes \<Rightarrow> string \<Rightarrow> string list \<Rightarrow> sqlval list \<Rightarrow> database \<Rightarrow> string + row" where
  "insert_row ty t cs vs db =
     (case store_all ty (pg_schema t) (zip cs vs) (\<lambda>c. VNull) of
        Inl code \<Rightarrow> Inl code
      | Inr r \<Rightarrow>
          if violates_unique (pg_schema t) (db t) r then Inl ''23505''
          else if violates_reference db (pg_schema t) r then Inl ''23503''
          else Inr r)"

definition delete_row :: "string \<Rightarrow> string \<Rightarrow> database \<Rightarrow> database" where
  "delete_row t u db = cascade pg_schema pg_tables (length pg_tables) t (\<lambda>r. r ''id'' = VText u) db"

context pg_server
begin

text \<open>A SELECT by a UUID column: malformed parameter, or the rows found, or a failure.\<close>

lemma select_uuid_wp:
  assumes "find_column (pg_schema t) c = Some (col c UUID)"
    and "\<And>e. \<not> errors_is e ErrNoRows \<Longrightarrow> \<not> errors_is e ErrNotFound \<Longrightarrow> wp P (k (Inl e)) Q (tick w)"
    and "\<And>u rs. uuid_in ty s = Some u \<Longrightarrow> mset rs = mset (rows_with (w_db w) t c u) \<Longrightarrow> ordered ord rs \<Longrightarrow>
      wp P (k (Inr (map (\<lambda>r. map r cs) (window win rs)))) Q (tick w)"
  shows "wp P (PgQuery (Select cs t (Eq c (VText s)) ord win) k) Q w"
proof (rule pg_query)
  fix r
  assume r: "query_obeys ty (pgnow (w_tick w)) (Select cs t (Eq c (VText s)) ord win) (w_db w) r"
  show "wp P (k r) Q (tick w)"
  proof (cases "\<exists>e. r = Inl e \<and> \<not> errors_is e ErrNoRows \<and> \<not> errors_is e ErrNotFound")
    case True
    with assms(2) show ?thesis by auto
  next
    case False
    with r obtain u where u: "uuid_in ty s = Some u" and out: "\<exists>out. r = Inr out \<and>
        sql_rows ty pg_schema (pgnow (w_tick w)) (Select cs t (Eq c (VText s)) ord win) (w_db w) out"
      using assms(1) infra_not_sentinel
      by (auto simp: query_obeys_def query_error_def split: option.splits if_splits prod.splits)
    from out obtain rs where "r = Inr (map (\<lambda>r. map r cs) (window win rs))" "ordered ord rs"
      "mset rs = mset (filter (holds ty (pg_schema t) (pgnow (w_tick w)) (Eq c (VText s))) (w_db w t))"
      by (auto simp: sql_rows_def simp del: holds.simps)
    moreover have "filter (holds ty (pg_schema t) (pgnow (w_tick w)) (Eq c (VText s))) (w_db w t)
        = rows_with (w_db w) t c u"
      unfolding rows_with_def by (rule filter_cong) (simp_all only: holds_uuid [OF assms(1) u])
    ultimately show ?thesis using assms(3) [OF u] by simp
  qed
qed

lemma count_uuid_wp:
  assumes "find_column (pg_schema t) c = Some (col c UUID)"
    and "\<And>e. \<not> errors_is e ErrNoRows \<Longrightarrow> \<not> errors_is e ErrNotFound \<Longrightarrow> wp P (k (Inl e)) Q (tick w)"
    and "\<And>u. uuid_in ty s = Some u \<Longrightarrow>
      wp P (k (Inr [[VInt (int (length (rows_with (w_db w) t c u)))]])) Q (tick w)"
  shows "wp P (PgQuery (SelectCount t (Eq c (VText s))) k) Q w"
proof (rule pg_query)
  fix r
  assume r: "query_obeys ty (pgnow (w_tick w)) (SelectCount t (Eq c (VText s))) (w_db w) r"
  show "wp P (k r) Q (tick w)"
  proof (cases "\<exists>e. r = Inl e \<and> \<not> errors_is e ErrNoRows \<and> \<not> errors_is e ErrNotFound")
    case True
    with assms(2) show ?thesis by auto
  next
    case False
    with r obtain u where u: "uuid_in ty s = Some u" and out: "r = Inr [[VInt (int (length
        (filter (holds ty (pg_schema t) (pgnow (w_tick w)) (Eq c (VText s))) (w_db w t))))]]"
      using assms(1) infra_not_sentinel
      by (auto simp: query_obeys_def query_error_def sql_rows_def simp del: holds.simps split: option.splits)
    moreover have "filter (holds ty (pg_schema t) (pgnow (w_tick w)) (Eq c (VText s))) (w_db w t)
        = rows_with (w_db w) t c u"
      unfolding rows_with_def by (rule filter_cong) (simp_all only: holds_uuid [OF assms(1) u])
    ultimately show ?thesis using assms(3) [OF u] by simp
  qed
qed

text \<open>
  An INSERT: the row is added, or refused with a code, or the answer is lost. What the row
  is and when it is refused is \<open>insert_row\<close>.
\<close>

lemma insert_wp:
  assumes "\<And>r. insert_row ty t cs vs (w_db w) = Inr r \<Longrightarrow>
      wp P (k (Inr 1)) Q (tick (w\<lparr>w_db := (w_db w)(t := w_db w t @ [r])\<rparr>))"
    and "\<And>code msg. insert_row ty t cs vs (w_db w) = Inl code \<Longrightarrow>
      wp P (k (Inl (PgError code msg))) Q (tick w)"
    and "\<And>e db. infra e \<Longrightarrow> db = w_db w \<or>
        (\<exists>r. insert_row ty t cs vs (w_db w) = Inr r \<and> db = (w_db w)(t := w_db w t @ [r])) \<Longrightarrow>
      wp P (k (Inl e)) Q (tick (w\<lparr>w_db := db\<rparr>))"
  shows "wp P (PgExec (Insert t cs vs) k) Q w"
proof (rule pg_exec)
  fix r db
  assume "exec_obeys ty (pgnow (w_tick w)) (Insert t cs vs) (w_db w) (r, db)"
  then have "(\<exists>x. insert_row ty t cs vs (w_db w) = Inr x \<and> r = Inr 1 \<and> db = (w_db w)(t := w_db w t @ [x]))
    \<or> (\<exists>code msg. insert_row ty t cs vs (w_db w) = Inl code \<and> r = Inl (PgError code msg) \<and> db = w_db w)
    \<or> (\<exists>e. infra e \<and> r = Inl e \<and> (db = w_db w \<or>
        (\<exists>x. insert_row ty t cs vs (w_db w) = Inr x \<and> db = (w_db w)(t := w_db w t @ [x]))))"
    by (auto simp: exec_obeys_def insert_row_def split: sum.splits if_splits)
  then show "wp P (k r) Q (tick (w\<lparr>w_db := db\<rparr>))"
    using assms(1,2) assms(3) [of _ db] by auto
qed

text \<open>
  An UPDATE by identifier: the columns may refuse the new values, with a code that does not
  depend on the row.
\<close>

lemma update_uuid_code_wp:
  assumes col: "find_column (pg_schema t) ''id'' = Some (col ''id'' UUID)"
    and store: "\<And>now r. store_all ty (pg_schema t) (map (\<lambda>(c, s). (c, set_value now s)) sets) r =
      (case refusal of Some code \<Rightarrow> Inl code | None \<Rightarrow> Inr (f now r))"
    and applied: "\<And>u now. refusal = None \<Longrightarrow> uuid_in ty s = Some u \<Longrightarrow> rows_with (w_db w) t ''id'' u \<noteq> [] \<Longrightarrow>
      wp P (k (Inr (length (rows_with (w_db w) t ''id'' u)))) Q
        (tick (w\<lparr>w_db := set_rows t u (f now) (w_db w)\<rparr>))"
    and absent: "\<And>u. uuid_in ty s = Some u \<Longrightarrow> rows_with (w_db w) t ''id'' u = [] \<Longrightarrow> wp P (k (Inr 0)) Q (tick w)"
    and failed: "\<And>e db. \<not> errors_is e ErrNotFound \<Longrightarrow>
        db = w_db w \<or> (\<exists>u now. refusal = None \<and> uuid_in ty s = Some u \<and> db = set_rows t u (f now) (w_db w)) \<Longrightarrow>
      wp P (k (Inl e)) Q (tick (w\<lparr>w_db := db\<rparr>))"
  shows "wp P (PgExec (Update t sets (Eq ''id'' (VText s))) k) Q w"
proof (rule pg_exec)
  let ?now = "pgnow (w_tick w)" and ?stmt = "Update t sets (Eq ''id'' (VText s))"
  fix r db
  assume r: "exec_obeys ty ?now ?stmt (w_db w) (r, db)"
  have unchanged: "wp P (k (Inl e)) Q (tick (w\<lparr>w_db := w_db w\<rparr>))" if "\<not> errors_is e ErrNotFound" for e
    by (rule failed [OF that]) simp
  show "wp P (k r) Q (tick (w\<lparr>w_db := db\<rparr>))"
  proof (cases "uuid_in ty s")
    case None
    then have "\<exists>e. r = Inl e \<and> \<not> errors_is e ErrNotFound \<and> db = w_db w"
      using r col by (auto simp: exec_obeys_def infra_not_found)
    then show ?thesis using unchanged by auto
  next
    case (Some u)
    let ?hit = "rows_with (w_db w) t ''id'' u"
    have hit: "holds ty (pg_schema t) ?now (Eq ''id'' (VText s)) = (\<lambda>r. r ''id'' = VText u)"
      by (rule ext) (rule holds_uuid [OF col Some])
    have sem: "sql_exec ty pg_schema pg_tables ?now ?stmt (w_db w) =
        (if ?hit = [] then (Inr 0, w_db w)
         else (case refusal of Some code \<Rightarrow> (Inl code, w_db w)
               | None \<Rightarrow> (Inr (length ?hit), set_rows t u (f ?now) (w_db w))))"
      using col Some set_rows_none [of "w_db w" t u]
      by (auto simp: hit store rows_with_def set_rows_def Let_def simp del: holds.simps split: option.split)
    consider (none) "?hit = []" | (refused) code where "?hit \<noteq> []" "refusal = Some code"
      | (ok) "?hit \<noteq> []" "refusal = None" by (cases refusal) auto
    then show ?thesis
    proof cases
      case none
      then have "r = Inr 0 \<and> db = w_db w \<or> (\<exists>e. infra e \<and> r = Inl e \<and> db = w_db w)"
        using r unfolding exec_obeys_def sem by auto
      then show ?thesis using absent [OF Some none] unchanged infra_not_found by auto
    next
      case refused
      then have "\<exists>e. r = Inl e \<and> \<not> errors_is e ErrNotFound \<and> db = w_db w"
        using r unfolding exec_obeys_def sem by (auto simp: infra_not_found)
      then show ?thesis using unchanged by auto
    next
      case ok
      then have "(r = Inr (length ?hit) \<and> db = set_rows t u (f ?now) (w_db w))
          \<or> (\<exists>e. infra e \<and> r = Inl e \<and> (db = w_db w \<or> db = set_rows t u (f ?now) (w_db w)))"
        using r unfolding exec_obeys_def sem by auto
      then show ?thesis
        using applied [OF ok(2) Some ok(1), of ?now] failed [of _ db] Some ok(2) infra_not_found by auto
    qed
  qed
qed

lemma update_uuid_wp:
  assumes "find_column (pg_schema t) ''id'' = Some (col ''id'' UUID)"
    and "\<And>now r. store_all ty (pg_schema t) (map (\<lambda>(c, s). (c, set_value now s)) sets) r = Inr (f now r)"
    and "\<And>u now. uuid_in ty s = Some u \<Longrightarrow> rows_with (w_db w) t ''id'' u \<noteq> [] \<Longrightarrow>
      wp P (k (Inr (length (rows_with (w_db w) t ''id'' u)))) Q
        (tick (w\<lparr>w_db := set_rows t u (f now) (w_db w)\<rparr>))"
    and "\<And>u. uuid_in ty s = Some u \<Longrightarrow> rows_with (w_db w) t ''id'' u = [] \<Longrightarrow> wp P (k (Inr 0)) Q (tick w)"
    and "\<And>e db. \<not> errors_is e ErrNotFound \<Longrightarrow>
        db = w_db w \<or> (\<exists>u now. uuid_in ty s = Some u \<and> db = set_rows t u (f now) (w_db w)) \<Longrightarrow>
      wp P (k (Inl e)) Q (tick (w\<lparr>w_db := db\<rparr>))"
  shows "wp P (PgExec (Update t sets (Eq ''id'' (VText s))) k) Q w"
  by (rule update_uuid_code_wp [where refusal = None and f = f, OF assms(1)])
    (use assms(2-) in \<open>auto\<close>)

text \<open>A DELETE by identifier, with the cascade.\<close>

lemma delete_uuid_wp:
  assumes col: "find_column (pg_schema t) ''id'' = Some (col ''id'' UUID)"
    and applied: "\<And>u. uuid_in ty s = Some u \<Longrightarrow> rows_with (w_db w) t ''id'' u \<noteq> [] \<Longrightarrow>
      wp P (k (Inr (length (rows_with (w_db w) t ''id'' u)))) Q
        (tick (w\<lparr>w_db := delete_row t u (w_db w)\<rparr>))"
    and absent: "\<And>u. uuid_in ty s = Some u \<Longrightarrow> rows_with (w_db w) t ''id'' u = [] \<Longrightarrow>
      wp P (k (Inr 0)) Q (tick (w\<lparr>w_db := delete_row t u (w_db w)\<rparr>))"
    and failed: "\<And>e db. \<not> errors_is e ErrNotFound \<Longrightarrow>
        db = w_db w \<or> (\<exists>u. uuid_in ty s = Some u \<and> db = delete_row t u (w_db w)) \<Longrightarrow>
      wp P (k (Inl e)) Q (tick (w\<lparr>w_db := db\<rparr>))"
  shows "wp P (PgExec (Delete t (Eq ''id'' (VText s))) k) Q w"
proof (rule pg_exec)
  let ?now = "pgnow (w_tick w)"
  fix r db
  assume r: "exec_obeys ty ?now (Delete t (Eq ''id'' (VText s))) (w_db w) (r, db)"
  have unchanged: "wp P (k (Inl e)) Q (tick (w\<lparr>w_db := w_db w\<rparr>))" if "\<not> errors_is e ErrNotFound" for e
    by (rule failed [OF that]) simp
  show "wp P (k r) Q (tick (w\<lparr>w_db := db\<rparr>))"
  proof (cases "uuid_in ty s")
    case None
    then have "\<exists>e. r = Inl e \<and> \<not> errors_is e ErrNotFound \<and> db = w_db w"
      using r col by (auto simp: exec_obeys_def infra_not_found)
    then show ?thesis using unchanged by auto
  next
    case (Some u)
    have "holds ty (pg_schema t) ?now (Eq ''id'' (VText s)) = (\<lambda>r. r ''id'' = VText u)"
      by (rule ext) (rule holds_uuid [OF col Some])
    then have "sql_exec ty pg_schema pg_tables ?now (Delete t (Eq ''id'' (VText s))) (w_db w) =
        (Inr (length (rows_with (w_db w) t ''id'' u)), delete_row t u (w_db w))"
      using col Some by (simp add: rows_with_def delete_row_def del: holds.simps)
    then have "(r = Inr (length (rows_with (w_db w) t ''id'' u)) \<and> db = delete_row t u (w_db w))
        \<or> (\<exists>e. infra e \<and> r = Inl e \<and> (db = w_db w \<or> db = delete_row t u (w_db w)))"
      using r unfolding exec_obeys_def by auto
    then show ?thesis
      using applied [OF Some] absent [OF Some] failed [of _ db] Some infra_not_found
      by (cases "rows_with (w_db w) t ''id'' u = []") auto
  qed
qed

end

end
