(* ===== verification/Endpoint_Repo.thy ===== *)
theory Endpoint_Repo
  imports Pg_Client
begin

text \<open>
  \<^verbatim>\<open>internal/repository/postgres/endpoint.go\<close>. A unique violation on insert becomes
  \<^verbatim>\<open>ErrAlreadyExists\<close>, no row becomes \<^verbatim>\<open>ErrNotFound\<close>; a deletion takes everything that
  references the endpoint with it.
\<close>

definition endpointColumns :: "string list" where
  "endpointColumns = [''id'', ''tenant_id'', ''url'', ''description'', ''event_types'', ''secret'',
     ''active'', ''created_at'', ''updated_at'']"

definition endpoint_params :: "endpoint \<Rightarrow> sqlval list" where
  "endpoint_params ep =
     [VText (ep_ID ep), VText (ep_TenantID ep), VText (ep_URL ep), VText (ep_Description ep),
      opt_texts (ep_EventTypes ep), VText (ep_Secret ep), VBool (ep_Active ep),
      VTime (ep_CreatedAt ep), VTime (ep_UpdatedAt ep)]"

definition endpoint_Scan :: "sqlval list \<Rightarrow> gerr + endpoint" where
  "endpoint_Scan vs = (case vs of
     [i, t, url, d, et, s, a, c, u] \<Rightarrow>
       if list_all is_text [i, t, url, d, s] \<and> is_texts et \<and> is_bool a \<and> list_all is_time [c, u]
       then Inr \<lparr>ep_ID = text_of i, ep_TenantID = text_of t, ep_URL = text_of url,
              ep_Description = text_of d, ep_EventTypes = texts_of et, ep_Secret = text_of s,
              ep_Active = bool_of a, ep_CreatedAt = time_of c, ep_UpdatedAt = time_of u\<rparr>
       else Inl scan_error
   | _ \<Rightarrow> Inl scan_error)"

definition EndpointRepo_scanEndpoint :: "gerr + endpoint \<Rightarrow> gerr + endpoint" where
  "EndpointRepo_scanEndpoint res = (case res of
     Inl err \<Rightarrow> if errors_is err ErrNoRows then Inl ErrNotFound else Inl (Wrapf ''scan endpoint: '' err '''')
   | Inr ep \<Rightarrow> Inr ep)"

definition EndpointRepo_Create :: "endpoint \<Rightarrow> gerr option prog" where
  "EndpointRepo_Create ep =
     PgExec (Insert ''endpoints'' endpointColumns (endpoint_params ep)) (\<lambda>r. Ret (case r of
       Inl err \<Rightarrow>
         if errors_as_pg err = Some ''23505'' then Some ErrAlreadyExists
         else Some (Wrapf ''insert endpoint: '' err '''')
     | Inr n \<Rightarrow> None))"

definition EndpointRepo_GetByID :: "string \<Rightarrow> (gerr + endpoint) prog" where
  "EndpointRepo_GetByID eid =
     bind (pg_QueryRow (Select endpointColumns ''endpoints'' (Eq ''id'' (VText eid)) None None) endpoint_Scan)
       (\<lambda>r. Ret (EndpointRepo_scanEndpoint r))"

definition EndpointRepo_ListByTenantID :: "string \<Rightarrow> int \<Rightarrow> int \<Rightarrow> (gerr + endpoint list) prog" where
  "EndpointRepo_ListByTenantID tenantID limit offset =
     PgQuery (Select endpointColumns ''endpoints'' (Eq ''tenant_id'' (VText tenantID))
         (Some (Desc ''created_at'')) (Some (limit, offset))) (\<lambda>r. Ret (case r of
       Inl err \<Rightarrow> Inl (Wrapf ''query endpoints: '' err '''')
     | Inr rows \<Rightarrow> scan_rows ''scan endpoint row: '' endpoint_Scan rows))"

definition EndpointRepo_CountByTenantID :: "string \<Rightarrow> (gerr + int) prog" where
  "EndpointRepo_CountByTenantID tenantID =
     bind (pg_QueryRow (SelectCount ''endpoints'' (Eq ''tenant_id'' (VText tenantID))) scan_count)
       (\<lambda>r. Ret (case r of Inl err \<Rightarrow> Inl (Wrapf ''count endpoints: '' err '''') | Inr n \<Rightarrow> Inr n))"

definition EndpointRepo_Update :: "endpoint \<Rightarrow> gerr option prog" where
  "EndpointRepo_Update ep =
     PgExec (Update ''endpoints'' [(''url'', Param (VText (ep_URL ep))),
         (''description'', Param (VText (ep_Description ep))),
         (''event_types'', Param (opt_texts (ep_EventTypes ep))),
         (''active'', Param (VBool (ep_Active ep))), (''updated_at'', Param (VTime (ep_UpdatedAt ep)))]
         (Eq ''id'' (VText (ep_ID ep)))) (\<lambda>r. Ret (case r of
       Inl err \<Rightarrow> Some (Wrapf ''update endpoint: '' err '''')
     | Inr n \<Rightarrow> if n = 0 then Some ErrNotFound else None))"

definition EndpointRepo_Delete :: "string \<Rightarrow> gerr option prog" where
  "EndpointRepo_Delete eid =
     PgExec (Delete ''endpoints'' (Eq ''id'' (VText eid))) (\<lambda>r. Ret (case r of
       Inl err \<Rightarrow> Some (Wrapf ''delete endpoint: '' err '''')
     | Inr n \<Rightarrow> if n = 0 then Some ErrNotFound else None))"

subsection \<open>Rows and structs\<close>

definition row_endpoint :: "row \<Rightarrow> endpoint" where
  "row_endpoint r = \<lparr>ep_ID = text_of (r ''id''), ep_TenantID = text_of (r ''tenant_id''),
     ep_URL = text_of (r ''url''), ep_Description = text_of (r ''description''),
     ep_EventTypes = texts_of (r ''event_types''), ep_Secret = text_of (r ''secret''),
     ep_Active = bool_of (r ''active''), ep_CreatedAt = time_of (r ''created_at''),
     ep_UpdatedAt = time_of (r ''updated_at'')\<rparr>"

definition endpoint_row_ok :: "row \<Rightarrow> bool" where
  "endpoint_row_ok r \<longleftrightarrow>
     list_all (\<lambda>c. is_text (r c)) [''id'', ''tenant_id'', ''url'', ''description'', ''secret'']
     \<and> is_texts (r ''event_types'') \<and> is_bool (r ''active'')
     \<and> list_all (\<lambda>c. is_time (r c)) [''created_at'', ''updated_at'']"

lemma endpoint_Scan_row:
  "endpoint_Scan (map r endpointColumns) =
     (if endpoint_row_ok r then Inr (row_endpoint r) else Inl scan_error)"
  by (simp add: endpoint_Scan_def endpointColumns_def endpoint_row_ok_def row_endpoint_def)

lemma endpoint_scan_rows:
  "list_all endpoint_row_ok rs \<Longrightarrow>
     scan_rows pre endpoint_Scan (map (\<lambda>r. map r endpointColumns) rs) = Inr (map row_endpoint rs)"
  "\<not> list_all endpoint_row_ok rs \<Longrightarrow>
     \<exists>err. scan_rows pre endpoint_Scan (map (\<lambda>r. map r endpointColumns) rs) = Inl (Wrapf pre err '''')"
  using scan_rows_if [where scan = endpoint_Scan and g = "\<lambda>r. map r endpointColumns"
      and ok = endpoint_row_ok and f = row_endpoint and e = scan_error] endpoint_Scan_row by blast+

definition stored_endpoint :: "pgtypes \<Rightarrow> endpoint \<Rightarrow> endpoint" where
  "stored_endpoint ty ep = ep\<lparr>ep_ID := the (uuid_in ty (ep_ID ep)),
     ep_TenantID := the (uuid_in ty (ep_TenantID ep)),
     ep_CreatedAt := micros (ep_CreatedAt ep), ep_UpdatedAt := micros (ep_UpdatedAt ep)\<rparr>"

lemma store_endpoint:
  assumes "store_all ty endpoints_table (zip endpointColumns (endpoint_params ep)) (\<lambda>c. VNull) = Inr r"
  shows "endpoint_row_ok r \<and> row_endpoint r = stored_endpoint ty ep
    \<and> r ''id'' = VText (the (uuid_in ty (ep_ID ep))) \<and> uuid_in ty (ep_ID ep) \<noteq> None
    \<and> (\<exists>t. uuid_in ty (ep_TenantID ep) = Some t \<and> r ''tenant_id'' = VText t)
    \<and> ep_EventTypes ep \<noteq> None"
  using assms
  by (cases "ep_EventTypes ep")
    (auto simp: endpointColumns_def endpoint_params_def opt_texts_def store_def row_simps
      endpoint_row_ok_def row_endpoint_def stored_endpoint_def split: sum.splits option.splits if_splits)

lemma insert_endpoint_row:
  "insert_row ty ''endpoints'' endpointColumns (endpoint_params ep) db = Inr r \<Longrightarrow>
     endpoint_row_ok r \<and> row_endpoint r = stored_endpoint ty ep
     \<and> r ''id'' = VText (the (uuid_in ty (ep_ID ep))) \<and> uuid_in ty (ep_ID ep) \<noteq> None
     \<and> (\<exists>t. uuid_in ty (ep_TenantID ep) = Some t \<and> r ''tenant_id'' = VText t)
     \<and> rows_with db ''endpoints'' ''id'' (the (uuid_in ty (ep_ID ep))) = []"
  by (auto simp: insert_row_def violates_unique_def rows_with_def filter_empty_conv list_ex_iff
      dest!: store_endpoint split: sum.splits if_splits)

text \<open>Update replaces the five columns it names and never the owner, the secret or the identifier.\<close>

definition put_endpoint :: "endpoint \<Rightarrow> row \<Rightarrow> row" where
  "put_endpoint ep r = r(''url'' := VText (ep_URL ep), ''description'' := VText (ep_Description ep),
     ''event_types'' := opt_texts (ep_EventTypes ep), ''active'' := VBool (ep_Active ep),
     ''updated_at'' := VTime (micros (ep_UpdatedAt ep)))"

text \<open>The code with which the columns refuse an update.\<close>

definition update_refusal :: "endpoint \<Rightarrow> string option" where
  "update_refusal ep =
     (if \<not> text_ok (ep_URL ep) then Some ''22021''
      else if utf8_chars (ep_URL ep) > 2048 then Some ''22001''
      else if \<not> text_ok (ep_Description ep) then Some ''22021''
      else (case ep_EventTypes ep of None \<Rightarrow> Some ''23502''
        | Some ets \<Rightarrow> if list_all text_ok ets then None else Some ''22021''))"

lemma store_endpoint_update:
  "store_all ty endpoints_table (map (\<lambda>(c, s). (c, set_value now s))
     [(''url'', Param (VText (ep_URL ep))), (''description'', Param (VText (ep_Description ep))),
      (''event_types'', Param (opt_texts (ep_EventTypes ep))), (''active'', Param (VBool (ep_Active ep))),
      (''updated_at'', Param (VTime (ep_UpdatedAt ep)))]) r
   = (case update_refusal ep of Some code \<Rightarrow> Inl code | None \<Rightarrow> Inr (put_endpoint ep r))"
  by (cases "ep_EventTypes ep"; cases "text_ok (ep_URL ep)"; cases "text_ok (ep_Description ep)";
      cases "utf8_chars (ep_URL ep) \<le> 2048")
    (simp_all add: store_def row_simps set_value_def update_refusal_def put_endpoint_def opt_texts_def)

text \<open>What a deletion leaves.\<close>

definition delete_endpoint :: "string \<Rightarrow> database \<Rightarrow> database" where
  "delete_endpoint u db = db(
     ''endpoints'' := filter (\<lambda>r. r ''id'' \<noteq> VText u) (db ''endpoints''),
     ''events'' := filter (\<lambda>r. r ''endpoint_id'' \<noteq> VText u) (db ''events''),
     ''dead_letter_events'' := filter (\<lambda>r. r ''endpoint_id'' \<noteq> VText u) (db ''dead_letter_events''),
     ''delivery_attempts'' := filter (\<lambda>r. r ''endpoint_id'' \<noteq> VText u
       \<and> r ''event_id'' \<notin> (\<lambda>e. e ''id'') ` set (rows_with db ''events'' ''endpoint_id'' u))
       (db ''delivery_attempts''))"

lemma delete_endpoint_found:
  assumes "rows_with db ''endpoints'' ''id'' u \<noteq> []"
  shows "delete_row ''endpoints'' u db = delete_endpoint u db"
proof -
  have "(\<lambda>x. VText u) ` {x \<in> set (db ''endpoints''). x ''id'' = VText u} = {VText u}"
    using assms by (auto simp: rows_with_def filter_empty_conv)
  then show ?thesis
    by (simp add: delete_row_def pg_tables_def Let_def delete_endpoint_def rows_with_def
        conj_commute fun_upd_twist)
qed

lemma delete_endpoint_absent:
  assumes "rows_with db ''endpoints'' ''id'' u = []"
  shows "delete_row ''endpoints'' u db = db"
proof -
  have none: "{x \<in> set (db ''endpoints''). x ''id'' = VText u} = {}"
    using assms by (auto simp: rows_with_def filter_empty_conv)
  then have "filter (\<lambda>r. r ''id'' \<noteq> VText u) (db ''endpoints'') = db ''endpoints''"
    by (auto simp: filter_id_conv)
  with none show ?thesis
    by (simp add: delete_row_def pg_tables_def Let_def)
qed

subsection \<open>Contracts\<close>

context pg_server
begin

lemma EndpointRepo_GetByID_wp:
  assumes "\<And>u r. uuid_in ty eid = Some u \<Longrightarrow> r \<in> set (rows_with (w_db w) ''endpoints'' ''id'' u) \<Longrightarrow>
      endpoint_row_ok r \<Longrightarrow> Q (Inr (row_endpoint r)) (tick w)"
    and "\<And>u. uuid_in ty eid = Some u \<Longrightarrow> rows_with (w_db w) ''endpoints'' ''id'' u = [] \<Longrightarrow>
      Q (Inl ErrNotFound) (tick w)"
    and "\<And>e. \<not> errors_is e ErrNotFound \<Longrightarrow> Q (Inl e) (tick w)"
  shows "wp P (EndpointRepo_GetByID eid) Q w"
  unfolding EndpointRepo_GetByID_def pg_QueryRow_def wp_bind
proof (rule select_uuid_wp, goal_cases)
  case 1
  show ?case by (simp add: row_simps)
next
  case (2 e)
  then show ?case by (auto simp: EndpointRepo_scanEndpoint_def intro: assms)
next
  case (3 u rs)
  show ?case
  proof (cases rs)
    case Nil
    with 3 assms(2) [of u] show ?thesis by (simp add: window_def EndpointRepo_scanEndpoint_def)
  next
    case (Cons r rs')
    have "r \<in> set (rows_with (w_db w) ''endpoints'' ''id'' u)"
      using 3(2) Cons by (metis list.set_intros(1) mset_eq_setD)
    with Cons 3(1) assms(1,3) show ?thesis
      by (simp add: window_def EndpointRepo_scanEndpoint_def endpoint_Scan_row scan_error_def)
  qed
qed

lemma EndpointRepo_ListByTenantID_wp:
  assumes "\<And>e. Q (Inl e) (tick w)"
    and "\<And>u rs. uuid_in ty tid = Some u \<Longrightarrow>
      mset rs = mset (rows_with (w_db w) ''endpoints'' ''tenant_id'' u) \<Longrightarrow>
      ordered (Some (Desc ''created_at'')) rs \<Longrightarrow> list_all endpoint_row_ok (window (Some (limit, offset)) rs) \<Longrightarrow>
      Q (Inr (map row_endpoint (window (Some (limit, offset)) rs))) (tick w)"
  shows "wp P (EndpointRepo_ListByTenantID tid limit offset) Q w"
  unfolding EndpointRepo_ListByTenantID_def
proof (rule select_uuid_wp, goal_cases)
  case 1
  show ?case by (simp add: row_simps)
next
  case (2 e)
  show ?case by (simp add: assms(1))
next
  case (3 u rs)
  from endpoint_scan_rows [of "window (Some (limit, offset)) rs" "''scan endpoint row: ''"]
    assms(1) assms(2) [OF 3]
  show ?case by (cases "list_all endpoint_row_ok (window (Some (limit, offset)) rs)") auto
qed

lemma EndpointRepo_CountByTenantID_wp:
  assumes "\<And>e. Q (Inl e) (tick w)"
    and "\<And>u. uuid_in ty tid = Some u \<Longrightarrow>
      Q (Inr (int (length (rows_with (w_db w) ''endpoints'' ''tenant_id'' u)))) (tick w)"
  shows "wp P (EndpointRepo_CountByTenantID tid) Q w"
  unfolding EndpointRepo_CountByTenantID_def pg_QueryRow_def wp_bind
  by (rule count_uuid_wp) (use assms in \<open>auto simp: row_simps scan_count_def\<close>)

lemma EndpointRepo_Create_wp:
  assumes "\<And>r. insert_row ty ''endpoints'' endpointColumns (endpoint_params ep) (w_db w) = Inr r \<Longrightarrow>
      Q None (tick (w\<lparr>w_db := (w_db w)(''endpoints'' := w_db w ''endpoints'' @ [r])\<rparr>))"
    and "insert_row ty ''endpoints'' endpointColumns (endpoint_params ep) (w_db w) = Inl ''23505'' \<Longrightarrow>
      Q (Some ErrAlreadyExists) (tick w)"
    and "\<And>e. Q (Some (Wrapf ''insert endpoint: '' e '''')) (tick w)"
    and "\<And>e r. insert_row ty ''endpoints'' endpointColumns (endpoint_params ep) (w_db w) = Inr r \<Longrightarrow>
      Q (Some (Wrapf ''insert endpoint: '' e ''''))
        (tick (w\<lparr>w_db := (w_db w)(''endpoints'' := w_db w ''endpoints'' @ [r])\<rparr>))"
  shows "wp P (EndpointRepo_Create ep) Q w"
  unfolding EndpointRepo_Create_def
  by (rule insert_wp) (use assms in \<open>auto simp: infra_not_sentinel(6) split: sum.split\<close>)

lemma EndpointRepo_Update_wp:
  assumes "\<And>u. update_refusal ep = None \<Longrightarrow> uuid_in ty (ep_ID ep) = Some u \<Longrightarrow>
      rows_with (w_db w) ''endpoints'' ''id'' u \<noteq> [] \<Longrightarrow>
      Q None (tick (w\<lparr>w_db := set_rows ''endpoints'' u (put_endpoint ep) (w_db w)\<rparr>))"
    and "\<And>u. uuid_in ty (ep_ID ep) = Some u \<Longrightarrow> rows_with (w_db w) ''endpoints'' ''id'' u = [] \<Longrightarrow>
      Q (Some ErrNotFound) (tick w)"
    and "\<And>e db. \<not> errors_is e ErrNotFound \<Longrightarrow> db = w_db w \<or> (\<exists>u. update_refusal ep = None \<and>
        uuid_in ty (ep_ID ep) = Some u \<and> db = set_rows ''endpoints'' u (put_endpoint ep) (w_db w)) \<Longrightarrow>
      Q (Some e) (tick (w\<lparr>w_db := db\<rparr>))"
  shows "wp P (EndpointRepo_Update ep) Q w"
  unfolding EndpointRepo_Update_def
proof (rule update_uuid_code_wp [where refusal = "update_refusal ep" and f = "\<lambda>now. put_endpoint ep"], goal_cases)
  case (2 now r)
  show ?case unfolding pg_schema_simps by (rule store_endpoint_update)
qed (use assms in \<open>auto simp: row_simps\<close>)

lemma EndpointRepo_Delete_wp:
  assumes "\<And>u. uuid_in ty eid = Some u \<Longrightarrow> rows_with (w_db w) ''endpoints'' ''id'' u \<noteq> [] \<Longrightarrow>
      Q None (tick (w\<lparr>w_db := delete_endpoint u (w_db w)\<rparr>))"
    and "\<And>u. uuid_in ty eid = Some u \<Longrightarrow> rows_with (w_db w) ''endpoints'' ''id'' u = [] \<Longrightarrow>
      Q (Some ErrNotFound) (tick w)"
    and "\<And>e db. \<not> errors_is e ErrNotFound \<Longrightarrow>
        db = w_db w \<or> (\<exists>u. uuid_in ty eid = Some u \<and> db = delete_endpoint u (w_db w)) \<Longrightarrow>
      Q (Some e) (tick (w\<lparr>w_db := db\<rparr>))"
  shows "wp P (EndpointRepo_Delete eid) Q w"
  unfolding EndpointRepo_Delete_def
proof (rule delete_uuid_wp, goal_cases)
  case 1
  show ?case by (simp add: row_simps)
next
  case (2 u)
  then show ?case using assms(1) delete_endpoint_found by auto
next
  case (3 u)
  then show ?case using assms(2) delete_endpoint_absent by simp
next
  case (4 e db)
  have "db = w_db w \<or> (\<exists>u. uuid_in ty eid = Some u \<and> db = delete_endpoint u (w_db w))"
    using 4(2) delete_endpoint_found delete_endpoint_absent by metis
  with 4(1) assms(3) show ?case by auto
qed

end

subsection \<open>Properties\<close>

text \<open>
  A created endpoint is read back as it was stored, or the server fails: after a
  successful Create, GetByID never reports it missing and never returns another one.
\<close>

theorem endpoint_create_get_roundtrip:
  assumes "pg_server P ty pgnow"
  shows "wp P (bind (EndpointRepo_Create ep) (\<lambda>e. bind (EndpointRepo_GetByID (ep_ID ep)) (\<lambda>r. Ret (e, r))))
    (\<lambda>(e, r) w'. e = None \<longrightarrow> r = Inr (stored_endpoint ty ep)
       \<or> (\<exists>err. r = Inl err \<and> \<not> errors_is err ErrNotFound)) w"
  unfolding wp_bind
proof (rule pg_server.EndpointRepo_Create_wp [OF assms], goal_cases)
  case (1 row)
  note row = insert_endpoint_row [OF 1]
  show ?case
    by (rule pg_server.EndpointRepo_GetByID_wp [OF assms])
      (use row in \<open>auto simp: rows_with_def filter_empty_conv split: if_splits\<close>)
qed (rule pg_server.EndpointRepo_GetByID_wp [OF assms]; auto)+

definition sample_endpoint :: endpoint where
  "sample_endpoint = \<lparr>ep_ID = ''p'', ep_TenantID = ''t'', ep_URL = ''https://x.io/hook'', ep_Description = '''',
     ep_EventTypes = Some [''order.*''], ep_Secret = ''s'', ep_Active = True, ep_CreatedAt = 1700000000000000123,
     ep_UpdatedAt = 1700000000000000123\<rparr>"

definition tenant_db :: database where
  "tenant_db = (\<lambda>t. [])(''tenants'' := [id_row ''t''])"

lemma endpoint_create_get_example:
  "fst (run (sim quiet) (bind (EndpointRepo_Create sample_endpoint) (\<lambda>e. bind (EndpointRepo_GetByID ''p'')
       (\<lambda>r. Ret (e, r)))) (empty_world\<lparr>w_db := tenant_db\<rparr>))
     = Returns (None, Inr (stored_endpoint sim_types sample_endpoint))"
  by code_simp

theorem endpoint_create_get_roundtrip_witness:
  "wp (sim quiet) (bind (EndpointRepo_Create sample_endpoint) (\<lambda>e. bind (EndpointRepo_GetByID (ep_ID sample_endpoint))
       (\<lambda>r. Ret (e, r))))
     (\<lambda>(e, r) w'. e = None \<longrightarrow> r = Inr (stored_endpoint sim_types sample_endpoint)
       \<or> (\<exists>err. r = Inl err \<and> \<not> errors_is err ErrNotFound)) (empty_world\<lparr>w_db := tenant_db\<rparr>)"
  by (rule endpoint_create_get_roundtrip [OF sim_pg.pg_server_axioms])

text \<open>
  C31: deleting an endpoint deletes exactly the endpoint, its events, its dead letters and
  the delivery attempts made to it or for its events; the rows of other endpoints and tenants stay.
\<close>

theorem endpoint_delete_cascades:
  assumes "pg_server P ty pgnow"
  shows "wp P (EndpointRepo_Delete eid) (\<lambda>e w'. e = None \<longrightarrow> (\<exists>u. uuid_in ty eid = Some u
    \<and> w_db w' = (w_db w)(
        ''endpoints'' := filter (\<lambda>r. r ''id'' \<noteq> VText u) (w_db w ''endpoints''),
        ''events'' := filter (\<lambda>r. r ''endpoint_id'' \<noteq> VText u) (w_db w ''events''),
        ''dead_letter_events'' := filter (\<lambda>r. r ''endpoint_id'' \<noteq> VText u) (w_db w ''dead_letter_events''),
        ''delivery_attempts'' := filter (\<lambda>r. r ''endpoint_id'' \<noteq> VText u
          \<and> r ''event_id'' \<notin> (\<lambda>e. e ''id'') ` set (rows_with (w_db w) ''events'' ''endpoint_id'' u))
          (w_db w ''delivery_attempts'')))) w"
  by (rule pg_server.EndpointRepo_Delete_wp [OF assms]) (auto simp: delete_endpoint_def)

theorem endpoint_delete_cascades_witness:
  "wp (sim quiet) (EndpointRepo_Delete ''p'') (\<lambda>e w'. e = None \<longrightarrow> w_db w' ''endpoints'' = [])
     (empty_world\<lparr>w_db := (\<lambda>t. [])(''endpoints'' := [id_row ''p'']) \<rparr>)"
  by (rule wp_mono [OF endpoint_delete_cascades [OF sim_pg.pg_server_axioms]])
    (auto simp: id_row_def sim_types_def)

end
