(* ===== verification/Base64.thy ===== *)
theory Base64
  imports Prelude
begin

text \<open>
  \<^verbatim>\<open>base64.RawURLEncoding.EncodeToString\<close>: three bytes become four digits of the URL-safe
  alphabet; the last group is not padded. A decoder is defined for the round trip only.
\<close>

definition b64_char :: "nat \<Rightarrow> char" where
  "b64_char n = (if n < 26 then char_of (65 + n) else if n < 52 then char_of (71 + n)
     else if n < 62 then char_of (n - 4) else if n = 62 then char_of (45 :: nat) else char_of (95 :: nat))"

fun b64_encode :: "nat list \<Rightarrow> string" where
  "b64_encode [] = ''''"
| "b64_encode [a] = [b64_char (a div 4), b64_char (a mod 4 * 16)]"
| "b64_encode [a, b] = [b64_char (a div 4), b64_char (a mod 4 * 16 + b div 16), b64_char (b mod 16 * 4)]"
| "b64_encode (a # b # c # xs) =
     [b64_char (a div 4), b64_char (a mod 4 * 16 + b div 16), b64_char (b mod 16 * 4 + c div 64), b64_char (c mod 64)]
     @ b64_encode xs"

definition b64_value :: "char \<Rightarrow> nat" where
  "b64_value ch = (let n = of_char ch in
     if n = 45 then 62 else if n = 95 then 63
     else if n < 58 then n + 4 else if n < 91 then n - 65 else n - 71)"

fun b64_decode :: "string \<Rightarrow> nat list" where
  "b64_decode (p # q # r # s # cs) =
     [b64_value p * 4 + b64_value q div 16, b64_value q mod 16 * 16 + b64_value r div 4,
      b64_value r mod 4 * 64 + b64_value s] @ b64_decode cs"
| "b64_decode [p, q, r] = [b64_value p * 4 + b64_value q div 16, b64_value q mod 16 * 16 + b64_value r div 4]"
| "b64_decode [p, q] = [b64_value p * 4 + b64_value q div 16]"
| "b64_decode cs = []"

lemma b64_value_char [simp]: "n < 64 \<Longrightarrow> b64_value (b64_char n) = n"
  by (auto simp: b64_value_def b64_char_def Let_def of_char_of)

lemma b64_roundtrip: "list_all (\<lambda>b. b < 256) bs \<Longrightarrow> b64_decode (b64_encode bs) = bs"
proof (induction bs rule: b64_encode.induct)
  case (2 a)
  then have "a div 4 < 64" "a mod 4 * 16 < 64" by auto
  then show ?case by simp
next
  case (3 a b)
  then have "a div 4 < 64" "a mod 4 * 16 + b div 16 < 64" "b mod 16 * 4 < 64" "b div 16 < 16" by auto
  then show ?case using "3.prems" by simp
next
  case (4 a b c xs)
  then have "a div 4 < 64" "a mod 4 * 16 + b div 16 < 64" "b mod 16 * 4 + c div 64 < 64" "c mod 64 < 64"
    "b div 16 < 16" "c div 64 < 4" by auto
  then show ?case using 4 by simp
qed simp

lemma b64_inj:
  "list_all (\<lambda>b. b < 256) bs \<Longrightarrow> list_all (\<lambda>b. b < 256) cs \<Longrightarrow> b64_encode bs = b64_encode cs \<longleftrightarrow> bs = cs"
  by (metis b64_roundtrip)

definition url_safe :: "char \<Rightarrow> bool" where
  "url_safe ch \<longleftrightarrow> (\<exists>n < 64. ch = b64_char n)"

lemma url_safe_char: "n < 64 \<Longrightarrow> url_safe (b64_char n)"
  by (auto simp: url_safe_def)

lemma b64_encode_url_safe: "list_all (\<lambda>b. b < 256) bs \<Longrightarrow> list_all url_safe (b64_encode bs)"
proof (induction bs rule: b64_encode.induct)
  case (2 a)
  then have "a div 4 < 64" "a mod 4 * 16 < 64" by auto
  then show ?case by (simp add: url_safe_char)
next
  case (3 a b)
  then have "a div 4 < 64" "a mod 4 * 16 + b div 16 < 64" "b mod 16 * 4 < 64" by auto
  then show ?case by (simp add: url_safe_char)
next
  case (4 a b c xs)
  then have "a div 4 < 64" "a mod 4 * 16 + b div 16 < 64" "b mod 16 * 4 + c div 64 < 64" "c mod 64 < 64" by auto
  then show ?case using 4 by (simp add: url_safe_char)
qed simp

lemma length_b64_encode: "length (b64_encode bs) = (4 * length bs + 2) div 3"
  by (induction bs rule: b64_encode.induct) auto

end
