(* ===== verification/Event_Repo.thy ===== *)
theory Event_Repo
  imports Pg_Client
begin

text \<open>
  \<^verbatim>\<open>internal/repository/postgres/event.go\<close>: the SQL of every method with its parameters, the
  scan of a row into the struct, and the translation of the driver's errors.
\<close>

definition eventColumns :: "string list" where
  "eventColumns = [''id'', ''tenant_id'', ''endpoint_id'', ''event_type'', ''payload'', ''signature'',
     ''status'', ''attempt_count'', ''max_attempts'', ''next_retry_at'', ''created_at'', ''updated_at'']"

definition event_params :: "event \<Rightarrow> sqlval list" where
  "event_params ev =
     [VText (ev_ID ev), VText (ev_TenantID ev), VText (ev_EndpointID ev), VText (ev_EventType ev),
      VText (ev_Payload ev), VText (ev_Signature ev), VText (ev_Status ev), VInt (ev_AttemptCount ev),
      VInt (ev_MaxAttempts ev), opt_time (ev_NextRetryAt ev), VTime (ev_CreatedAt ev),
      VTime (ev_UpdatedAt ev)]"

definition event_Scan :: "sqlval list \<Rightarrow> gerr + event" where
  "event_Scan vs = (case vs of
     [i, t, e, ty, p, s, st, a, m, n, c, u] \<Rightarrow>
       if list_all is_text [i, t, e, ty, p, s, st] \<and> list_all is_int [a, m]
          \<and> (n = VNull \<or> is_time n) \<and> list_all is_time [c, u]
       then Inr \<lparr>ev_ID = text_of i, ev_TenantID = text_of t, ev_EndpointID = text_of e,
              ev_EventType = text_of ty, ev_Payload = text_of p, ev_Signature = text_of s,
              ev_Status = text_of st, ev_AttemptCount = int_of a, ev_MaxAttempts = int_of m,
              ev_NextRetryAt = opt_time_of n, ev_CreatedAt = time_of c, ev_UpdatedAt = time_of u\<rparr>
       else Inl scan_error
   | _ \<Rightarrow> Inl scan_error)"

definition EventRepo_scanEvent :: "gerr + event \<Rightarrow> gerr + event" where
  "EventRepo_scanEvent res = (case res of
     Inl err \<Rightarrow> if errors_is err ErrNoRows then Inl ErrNotFound else Inl (Wrapf ''scan event: '' err '''')
   | Inr ev \<Rightarrow> Inr ev)"

definition EventRepo_Create :: "event \<Rightarrow> gerr option prog" where
  "EventRepo_Create ev =
     PgExec (Insert ''events'' eventColumns (event_params ev)) (\<lambda>r. Ret (case r of
       Inl err \<Rightarrow> Some (Wrapf ''insert event: '' err '''')
     | Inr n \<Rightarrow> None))"

definition EventRepo_GetByID :: "string \<Rightarrow> (gerr + event) prog" where
  "EventRepo_GetByID eid =
     bind (pg_QueryRow (Select eventColumns ''events'' (Eq ''id'' (VText eid)) None None) event_Scan)
       (\<lambda>r. Ret (EventRepo_scanEvent r))"

definition EventRepo_ListByTenantID :: "string \<Rightarrow> int \<Rightarrow> int \<Rightarrow> (gerr + event list) prog" where
  "EventRepo_ListByTenantID tenantID limit offset =
     PgQuery (Select eventColumns ''events'' (Eq ''tenant_id'' (VText tenantID))
         (Some (Desc ''created_at'')) (Some (limit, offset))) (\<lambda>r. Ret (case r of
       Inl err \<Rightarrow> Inl (Wrapf ''query events: '' err '''')
     | Inr rows \<Rightarrow> scan_rows ''scan event row: '' event_Scan rows))"

definition EventRepo_CountByTenantID :: "string \<Rightarrow> (gerr + int) prog" where
  "EventRepo_CountByTenantID tenantID =
     bind (pg_QueryRow (SelectCount ''events'' (Eq ''tenant_id'' (VText tenantID))) scan_count)
       (\<lambda>r. Ret (case r of Inl err \<Rightarrow> Inl (Wrapf ''count events: '' err '''') | Inr n \<Rightarrow> Inr n))"

definition EventRepo_UpdateStatus :: "string \<Rightarrow> string \<Rightarrow> gerr option prog" where
  "EventRepo_UpdateStatus eid status =
     PgExec (Update ''events'' [(''status'', Param (VText status)), (''updated_at'', NowFn)]
         (Eq ''id'' (VText eid))) (\<lambda>r. Ret (case r of
       Inl err \<Rightarrow> Some (Wrapf ''update event status: '' err '''')
     | Inr n \<Rightarrow> if n = 0 then Some ErrNotFound else None))"

definition EventRepo_UpdateForRetry :: "string \<Rightarrow> string \<Rightarrow> int \<Rightarrow> time \<Rightarrow> gerr option prog" where
  "EventRepo_UpdateForRetry eid status attemptCount nextRetryAt =
     PgExec (Update ''events'' [(''status'', Param (VText status)),
         (''attempt_count'', Param (VInt attemptCount)), (''next_retry_at'', Param (VTime nextRetryAt)),
         (''updated_at'', NowFn)] (Eq ''id'' (VText eid))) (\<lambda>r. Ret (case r of
       Inl err \<Rightarrow> Some (Wrapf ''update event for retry: '' err '''')
     | Inr n \<Rightarrow> if n = 0 then Some ErrNotFound else None))"

definition EventRepo_FindRetryable :: "int \<Rightarrow> (gerr + event list) prog" where
  "EventRepo_FindRetryable limit =
     PgQuery (Select eventColumns ''events''
         (Both (Eq ''status'' (VText ''retrying'')) (LeNow ''next_retry_at''))
         (Some (Asc ''next_retry_at'')) (Some (limit, 0))) (\<lambda>r. Ret (case r of
       Inl err \<Rightarrow> Inl (Wrapf ''find retryable events: '' err '''')
     | Inr rows \<Rightarrow> scan_rows ''scan event row: '' event_Scan rows))"

subsection \<open>Rows and structs\<close>

text \<open>A row of the table, read as the struct; the rows that carry an identifier.\<close>

definition row_event :: "row \<Rightarrow> event" where
  "row_event r = \<lparr>ev_ID = text_of (r ''id''), ev_TenantID = text_of (r ''tenant_id''),
     ev_EndpointID = text_of (r ''endpoint_id''), ev_EventType = text_of (r ''event_type''),
     ev_Payload = text_of (r ''payload''), ev_Signature = text_of (r ''signature''),
     ev_Status = text_of (r ''status''), ev_AttemptCount = int_of (r ''attempt_count''),
     ev_MaxAttempts = int_of (r ''max_attempts''), ev_NextRetryAt = opt_time_of (r ''next_retry_at''),
     ev_CreatedAt = time_of (r ''created_at''), ev_UpdatedAt = time_of (r ''updated_at'')\<rparr>"

definition event_row_ok :: "row \<Rightarrow> bool" where
  "event_row_ok r \<longleftrightarrow>
     list_all (\<lambda>c. is_text (r c)) [''id'', ''tenant_id'', ''endpoint_id'', ''event_type'', ''payload'',
       ''signature'', ''status'']
     \<and> list_all (\<lambda>c. is_int (r c)) [''attempt_count'', ''max_attempts'']
     \<and> (r ''next_retry_at'' = VNull \<or> is_time (r ''next_retry_at''))
     \<and> list_all (\<lambda>c. is_time (r c)) [''created_at'', ''updated_at'']"

lemma event_Scan_row:
  "event_Scan (map r eventColumns) = (if event_row_ok r then Inr (row_event r) else Inl scan_error)"
  by (simp add: event_Scan_def eventColumns_def event_row_ok_def row_event_def)

lemma event_scan_rows:
  "list_all event_row_ok rs \<Longrightarrow>
     scan_rows pre event_Scan (map (\<lambda>r. map r eventColumns) rs) = Inr (map row_event rs)"
  "\<not> list_all event_row_ok rs \<Longrightarrow>
     \<exists>err. scan_rows pre event_Scan (map (\<lambda>r. map r eventColumns) rs) = Inl (Wrapf pre err '''')"
  using scan_rows_if [where scan = event_Scan and g = "\<lambda>r. map r eventColumns" and ok = event_row_ok
      and f = row_event and e = scan_error] event_Scan_row by blast+

text \<open>The struct as it comes back: identifiers and payload canonical, times in microseconds.\<close>

definition stored_event :: "pgtypes \<Rightarrow> event \<Rightarrow> event" where
  "stored_event ty ev = ev\<lparr>ev_ID := the (uuid_in ty (ev_ID ev)), ev_TenantID := the (uuid_in ty (ev_TenantID ev)),
     ev_EndpointID := the (uuid_in ty (ev_EndpointID ev)), ev_Payload := the (jsonb_in ty (ev_Payload ev)),
     ev_NextRetryAt := map_option micros (ev_NextRetryAt ev), ev_CreatedAt := micros (ev_CreatedAt ev),
     ev_UpdatedAt := micros (ev_UpdatedAt ev)\<rparr>"

lemma store_event:
  assumes "store_all ty events_table (zip eventColumns (event_params ev)) (\<lambda>c. VNull) = Inr r"
  shows "event_row_ok r \<and> row_event r = stored_event ty ev \<and> r ''id'' = VText (the (uuid_in ty (ev_ID ev)))
    \<and> uuid_in ty (ev_ID ev) \<noteq> None
    \<and> (\<exists>t. uuid_in ty (ev_TenantID ev) = Some t \<and> r ''tenant_id'' = VText t)
    \<and> (\<exists>e. uuid_in ty (ev_EndpointID ev) = Some e \<and> r ''endpoint_id'' = VText e)"
  using assms
  by (cases "ev_NextRetryAt ev")
    (auto simp: eventColumns_def event_params_def opt_time_def store_def row_simps event_row_ok_def
      row_event_def stored_event_def split: sum.splits option.splits if_splits)

lemma insert_event_row:
  "insert_row ty ''events'' eventColumns (event_params ev) db = Inr r \<Longrightarrow>
     event_row_ok r \<and> row_event r = stored_event ty ev \<and> r ''id'' = VText (the (uuid_in ty (ev_ID ev)))
     \<and> uuid_in ty (ev_ID ev) \<noteq> None
     \<and> (\<exists>t. uuid_in ty (ev_TenantID ev) = Some t \<and> r ''tenant_id'' = VText t)
     \<and> (\<exists>e. uuid_in ty (ev_EndpointID ev) = Some e \<and> r ''endpoint_id'' = VText e)
     \<and> rows_with db ''events'' ''id'' (the (uuid_in ty (ev_ID ev))) = []"
  by (auto simp: insert_row_def violates_unique_def rows_with_def filter_empty_conv list_ex_iff
      dest!: store_event split: sum.splits if_splits)

subsection \<open>Contracts\<close>

definition due :: "time \<Rightarrow> row \<Rightarrow> bool" where
  "due now r \<longleftrightarrow> r ''status'' = VText EventStatusRetrying
     \<and> is_time (r ''next_retry_at'') \<and> time_of (r ''next_retry_at'') \<le> now"

text \<open>The batch: the earliest due events first, at most \<open>limit\<close>, each of them a due row.\<close>

definition due_batch :: "time \<Rightarrow> int \<Rightarrow> database \<Rightarrow> event list \<Rightarrow> bool" where
  "due_batch now limit db evs \<longleftrightarrow>
     (\<exists>rs. mset rs = mset (filter (due now) (db ''events''))
        \<and> sorted_wrt (\<lambda>a b. time_of (a ''next_retry_at'') \<le> time_of (b ''next_retry_at'')) rs
        \<and> list_all event_row_ok (take (nat limit) rs)
        \<and> evs = map row_event (take (nat limit) rs))"

definition status_ok :: "string \<Rightarrow> bool" where
  "status_ok st \<longleftrightarrow> text_ok st \<and> utf8_chars st \<le> 50"

lemma status_ok_constants [simp]:
  "status_ok EventStatusPending" "status_ok EventStatusQueued" "status_ok EventStatusDelivered"
  "status_ok EventStatusFailed" "status_ok EventStatusRetrying"
  by (simp_all add: status_ok_def status_defs byte_def utf8_chars_def)

definition put_status :: "string \<Rightarrow> time \<Rightarrow> row \<Rightarrow> row" where
  "put_status st now r = r(''status'' := VText st, ''updated_at'' := VTime (micros now))"

definition put_retry :: "string \<Rightarrow> int \<Rightarrow> time \<Rightarrow> time \<Rightarrow> row \<Rightarrow> row" where
  "put_retry st n next_at now r = r(''status'' := VText st, ''attempt_count'' := VInt n,
     ''next_retry_at'' := VTime (micros next_at), ''updated_at'' := VTime (micros now))"

lemma store_status:
  "status_ok st \<Longrightarrow> store_all ty events_table
     (map (\<lambda>(c, s). (c, set_value now s)) [(''status'', Param (VText st)), (''updated_at'', NowFn)]) r
   = Inr (put_status st now r)"
  by (simp add: store_def row_simps status_ok_def set_value_def put_status_def)

lemma store_retry:
  "status_ok st \<Longrightarrow> store_all ty events_table
     (map (\<lambda>(c, s). (c, set_value now s)) [(''status'', Param (VText st)), (''attempt_count'', Param (VInt n)),
       (''next_retry_at'', Param (VTime next_at)), (''updated_at'', NowFn)]) r
   = (case (if int4_ok n then None else Some ''22003'') of
        Some code \<Rightarrow> Inl code | None \<Rightarrow> Inr (put_retry st n next_at now r))"
  by (simp add: store_def row_simps status_ok_def set_value_def put_retry_def)

context pg_server
begin

lemma EventRepo_GetByID_wp:
  assumes "\<And>u r. uuid_in ty eid = Some u \<Longrightarrow> r \<in> set (rows_with (w_db w) ''events'' ''id'' u) \<Longrightarrow>
      event_row_ok r \<Longrightarrow> Q (Inr (row_event r)) (tick w)"
    and "\<And>u. uuid_in ty eid = Some u \<Longrightarrow> rows_with (w_db w) ''events'' ''id'' u = [] \<Longrightarrow>
      Q (Inl ErrNotFound) (tick w)"
    and "\<And>e. \<not> errors_is e ErrNotFound \<Longrightarrow> Q (Inl e) (tick w)"
  shows "wp P (EventRepo_GetByID eid) Q w"
  unfolding EventRepo_GetByID_def pg_QueryRow_def wp_bind
proof (rule select_uuid_wp, goal_cases)
  case 1
  show ?case by (simp add: row_simps)
next
  case (2 e)
  then show ?case by (auto simp: EventRepo_scanEvent_def intro: assms)
next
  case (3 u rs)
  show ?case
  proof (cases rs)
    case Nil
    with 3 assms(2) [of u] show ?thesis by (simp add: window_def EventRepo_scanEvent_def)
  next
    case (Cons r rs')
    have "r \<in> set (rows_with (w_db w) ''events'' ''id'' u)"
      using 3(2) Cons by (metis list.set_intros(1) mset_eq_setD)
    with Cons 3(1) assms(1,3) show ?thesis
      by (simp add: window_def EventRepo_scanEvent_def event_Scan_row scan_error_def)
  qed
qed

lemma EventRepo_UpdateStatus_wp:
  assumes "status_ok st"
    and "\<And>u now. uuid_in ty eid = Some u \<Longrightarrow> rows_with (w_db w) ''events'' ''id'' u \<noteq> [] \<Longrightarrow>
      Q None (tick (w\<lparr>w_db := set_rows ''events'' u (put_status st now) (w_db w)\<rparr>))"
    and "\<And>u. uuid_in ty eid = Some u \<Longrightarrow> rows_with (w_db w) ''events'' ''id'' u = [] \<Longrightarrow>
      Q (Some ErrNotFound) (tick w)"
    and "\<And>e db. \<not> errors_is e ErrNotFound \<Longrightarrow> db = w_db w \<or> (\<exists>u now. uuid_in ty eid = Some u \<and>
        db = set_rows ''events'' u (put_status st now) (w_db w)) \<Longrightarrow> Q (Some e) (tick (w\<lparr>w_db := db\<rparr>))"
  shows "wp P (EventRepo_UpdateStatus eid st) Q w"
  unfolding EventRepo_UpdateStatus_def
proof (rule update_uuid_wp [where f = "put_status st"], goal_cases)
  case 2
  show ?case unfolding pg_schema_simps by (rule store_status [OF assms(1)])
qed (use assms(2-) in \<open>auto simp: row_simps\<close>)

lemma EventRepo_UpdateForRetry_wp:
  assumes "status_ok st"
    and "\<And>u now. int4_ok n \<Longrightarrow> uuid_in ty eid = Some u \<Longrightarrow> rows_with (w_db w) ''events'' ''id'' u \<noteq> [] \<Longrightarrow>
      Q None (tick (w\<lparr>w_db := set_rows ''events'' u (put_retry st n next_at now) (w_db w)\<rparr>))"
    and "\<And>u. uuid_in ty eid = Some u \<Longrightarrow> rows_with (w_db w) ''events'' ''id'' u = [] \<Longrightarrow>
      Q (Some ErrNotFound) (tick w)"
    and "\<And>e db. \<not> errors_is e ErrNotFound \<Longrightarrow> db = w_db w \<or> (\<exists>u now. int4_ok n \<and> uuid_in ty eid = Some u \<and>
        db = set_rows ''events'' u (put_retry st n next_at now) (w_db w)) \<Longrightarrow> Q (Some e) (tick (w\<lparr>w_db := db\<rparr>))"
  shows "wp P (EventRepo_UpdateForRetry eid st n next_at) Q w"
  unfolding EventRepo_UpdateForRetry_def
proof (rule update_uuid_code_wp [where f = "put_retry st n next_at"
      and refusal = "if int4_ok n then None else Some ''22003''"], goal_cases)
  case (2 now r)
  show ?case unfolding pg_schema_simps using assms(1) by (rule store_retry)
qed (use assms(2-) in \<open>auto simp: row_simps split: if_splits\<close>)

lemma EventRepo_Create_wp:
  assumes "\<And>r. insert_row ty ''events'' eventColumns (event_params ev) (w_db w) = Inr r \<Longrightarrow>
      Q None (tick (w\<lparr>w_db := (w_db w)(''events'' := w_db w ''events'' @ [r])\<rparr>))"
    and "\<And>e. Q (Some (Wrapf ''insert event: '' e '''')) (tick w)"
    and "\<And>e r. insert_row ty ''events'' eventColumns (event_params ev) (w_db w) = Inr r \<Longrightarrow>
      Q (Some (Wrapf ''insert event: '' e ''''))
        (tick (w\<lparr>w_db := (w_db w)(''events'' := w_db w ''events'' @ [r])\<rparr>))"
  shows "wp P (EventRepo_Create ev) Q w"
  unfolding EventRepo_Create_def
  by (rule insert_wp) (use assms in \<open>auto split: sum.split\<close>)

lemma due_order_key: "due now r \<Longrightarrow> order_key (r ''next_retry_at'') = time_of (r ''next_retry_at'')"
  by (cases "r ''next_retry_at''") (auto simp: due_def)

lemma holds_due:
  "holds ty events_table now (Both (Eq ''status'' (VText ''retrying'')) (LeNow ''next_retry_at'')) = due now"
proof
  fix r
  show "holds ty events_table now (Both (Eq ''status'' (VText ''retrying'')) (LeNow ''next_retry_at'')) r
      = due now r"
    by (cases "r ''next_retry_at''")
      (auto simp: row_simps due_def status_defs byte_def utf8_chars_def)
qed

lemma EventRepo_FindRetryable_wp:
  assumes "0 \<le> limit"
    and "\<And>evs. due_batch (pgnow (w_tick w)) limit (w_db w) evs \<Longrightarrow> Q (Inr evs) (tick w)"
    and "\<And>e. Q (Inl e) (tick w)"
  shows "wp P (EventRepo_FindRetryable limit) Q w"
  unfolding EventRepo_FindRetryable_def
proof (rule pg_query)
  let ?now = "pgnow (w_tick w)"
  let ?q = "Select eventColumns ''events''
      (Both (Eq ''status'' (VText ''retrying'')) (LeNow ''next_retry_at''))
      (Some (Asc ''next_retry_at'')) (Some (limit, 0))"
  fix r
  assume r: "query_obeys ty ?now ?q (w_db w) r"
  have ok: "query_error ty pg_schema ?q = None"
    using assms(1) by (simp add: query_error_def row_simps byte_def utf8_chars_def)
  show "wp P (Ret (case r of Inl err \<Rightarrow> Inl (Wrapf ''find retryable events: '' err '''')
      | Inr rows \<Rightarrow> scan_rows ''scan event row: '' event_Scan rows)) Q (tick w)"
  proof (cases r)
    case (Inl e)
    then show ?thesis using assms(3) by simp
  next
    case (Inr rows)
    then obtain rs where rs: "mset rs = mset (filter (due ?now) (w_db w ''events''))"
      "ordered (Some (Asc ''next_retry_at'')) rs"
      and rows: "rows = map (\<lambda>r. map r eventColumns) (take (nat limit) rs)"
      using r by (auto simp: query_obeys_def ok sql_rows_def holds_due window_def cong: filter_cong
          simp del: holds.simps)
    have "set rs = set (filter (due ?now) (w_db w ''events''))"
      using rs(1) by (rule mset_eq_setD)
    then have mem: "r \<in> set rs \<Longrightarrow> due ?now r" for r by simp
    have "sorted_wrt (\<lambda>a b. time_of (a ''next_retry_at'') \<le> time_of (b ''next_retry_at'')) rs"
      using rs(2) due_order_key [OF mem] by (auto simp: ordered_def elim!: sorted_wrt_mono_rel [rotated])
    then have batch: "list_all event_row_ok (take (nat limit) rs) \<Longrightarrow>
        due_batch ?now limit (w_db w) (map row_event (take (nat limit) rs))"
      using rs(1) by (auto simp: due_batch_def)
    show ?thesis
      using event_scan_rows [of "take (nat limit) rs" "''scan event row: ''"] Inr rows batch assms(2,3)
      by (cases "list_all event_row_ok (take (nat limit) rs)") auto
  qed
qed

lemma EventRepo_ListByTenantID_wp:
  assumes "\<And>e. Q (Inl e) (tick w)"
    and "\<And>u rs. uuid_in ty tid = Some u \<Longrightarrow> mset rs = mset (rows_with (w_db w) ''events'' ''tenant_id'' u) \<Longrightarrow>
      ordered (Some (Desc ''created_at'')) rs \<Longrightarrow> list_all event_row_ok (window (Some (limit, offset)) rs) \<Longrightarrow>
      Q (Inr (map row_event (window (Some (limit, offset)) rs))) (tick w)"
  shows "wp P (EventRepo_ListByTenantID tid limit offset) Q w"
  unfolding EventRepo_ListByTenantID_def
proof (rule select_uuid_wp, goal_cases)
  case 1
  show ?case by (simp add: row_simps)
next
  case (2 e)
  show ?case by (simp add: assms(1))
next
  case (3 u rs)
  from event_scan_rows [of "window (Some (limit, offset)) rs" "''scan event row: ''"] assms(1) assms(2) [OF 3]
  show ?case by (cases "list_all event_row_ok (window (Some (limit, offset)) rs)") auto
qed

lemma EventRepo_CountByTenantID_wp:
  assumes "\<And>e. Q (Inl e) (tick w)"
    and "\<And>u. uuid_in ty tid = Some u \<Longrightarrow>
      Q (Inr (int (length (rows_with (w_db w) ''events'' ''tenant_id'' u)))) (tick w)"
  shows "wp P (EventRepo_CountByTenantID tid) Q w"
  unfolding EventRepo_CountByTenantID_def pg_QueryRow_def wp_bind
  by (rule count_uuid_wp) (use assms in \<open>auto simp: row_simps scan_count_def\<close>)

end

subsection \<open>Properties\<close>

text \<open>
  C30: a created event is read back: if Create reports success, then GetByID either returns
  the event, with identifiers and payload in the database's canonical form and times cut to
  microseconds and every other field unchanged, or fails for a reason of the server; it never reports
  the event missing.
\<close>

theorem event_create_get_roundtrip:
  assumes "pg_server P ty pgnow"
  shows "wp P (bind (EventRepo_Create ev) (\<lambda>e. bind (EventRepo_GetByID (ev_ID ev)) (\<lambda>r. Ret (e, r))))
    (\<lambda>(e, r) w'. e = None \<longrightarrow> r = Inr (stored_event ty ev) \<or> (\<exists>err. r = Inl err \<and> \<not> errors_is err ErrNotFound)) w"
  unfolding wp_bind
proof (rule pg_server.EventRepo_Create_wp [OF assms], goal_cases)
  case (1 row)
  note row = insert_event_row [OF 1]
  show ?case
    by (rule pg_server.EventRepo_GetByID_wp [OF assms])
      (use row in \<open>auto simp: rows_with_def filter_empty_conv split: if_splits\<close>)
next
  case (2 e)
  show ?case by (rule pg_server.EventRepo_GetByID_wp [OF assms]) auto
next
  case (3 e row)
  show ?case by (rule pg_server.EventRepo_GetByID_wp [OF assms]) auto
qed

definition referenced_db :: database where
  "referenced_db = (\<lambda>t. [])(''tenants'' := [id_row ''t''], ''endpoints'' := [id_row ''p''])"

definition sample_event :: event where
  "sample_event = \<lparr>ev_ID = ''e'', ev_TenantID = ''t'', ev_EndpointID = ''p'', ev_EventType = ''order.paid'',
     ev_Payload = ''{}'', ev_Signature = ''t=1,v1=00'', ev_Status = EventStatusPending, ev_AttemptCount = 0,
     ev_MaxAttempts = 5, ev_NextRetryAt = None, ev_CreatedAt = 1700000000000000123,
     ev_UpdatedAt = 1700000000000000123\<rparr>"

theorem event_create_get_roundtrip_witness:
  "wp (sim quiet) (bind (EventRepo_Create sample_event) (\<lambda>e. bind (EventRepo_GetByID (ev_ID sample_event))
       (\<lambda>r. Ret (e, r))))
     (\<lambda>(e, r) w'. e = None \<longrightarrow> r = Inr (stored_event sim_types sample_event)
        \<or> (\<exists>err. r = Inl err \<and> \<not> errors_is err ErrNotFound)) (empty_world\<lparr>w_db := referenced_db\<rparr>)"
  by (rule event_create_get_roundtrip [OF sim_pg.pg_server_axioms])

lemma event_create_get_example:
  "fst (run (sim quiet) (bind (EventRepo_Create sample_event) (\<lambda>e. bind (EventRepo_GetByID ''e'')
       (\<lambda>r. Ret (e, r)))) (empty_world\<lparr>w_db := referenced_db\<rparr>))
     = Returns (None, Inr (sample_event\<lparr>ev_CreatedAt := 1700000000000000000,
         ev_UpdatedAt := 1700000000000000000\<rparr>))"
  by code_simp

end
