(* ===== verification/Kafka_Producer.thy ===== *)
theory Kafka_Producer
  imports Platform Go_Lib
begin

text \<open>
  \<^verbatim>\<open>internal/kafka/producer.go\<close> and \<^verbatim>\<open>topics.go\<close>: events go to a topic as JSON, keyed by
  the tenant so that Kafka keeps each tenant's order.
\<close>

definition TopicEvents :: string where "TopicEvents = ''webhook.events''"
definition TopicRetries :: string where "TopicRetries = ''webhook.retries''"
definition TopicDLQ :: string where "TopicDLQ = ''webhook.dlq''"

record Producer =
  pr_topic :: string

definition event_message :: "string \<Rightarrow> string \<Rightarrow> string \<Rightarrow> string \<Rightarrow> string \<Rightarrow> string \<Rightarrow> time \<Rightarrow> EventMessage" where
  "event_message eventID tenantID endpointID eventType payload signature now =
     \<lparr>em_EventID = eventID, em_TenantID = tenantID, em_EndpointID = endpointID,
      em_EventType = eventType, em_Payload = payload, em_Signature = signature,
      em_Timestamp = now\<rparr>"

definition PublishEvent ::
  "golib \<Rightarrow> Producer \<Rightarrow> string \<Rightarrow> string \<Rightarrow> string \<Rightarrow> string \<Rightarrow> string \<Rightarrow> string \<Rightarrow> gerr option prog" where
  "PublishEvent gl p eventID tenantID endpointID eventType payload signature =
     Now (\<lambda>now.
       case gl_MarshalMessage gl
              (event_message eventID tenantID endpointID eventType payload signature now) of
         Inl err \<Rightarrow> Ret (Some (Wrapf ''marshal event message: '' err ''''))
       | Inr value \<Rightarrow>
           KafkaWrite \<lparr>km_Topic = pr_topic p, km_Key = tenantID, km_Value = value\<rparr> (\<lambda>e. case e of
             Some err \<Rightarrow> Ret (Some (Wrapf ''write kafka message: '' err ''''))
           | None \<Rightarrow> Ret None))"

text \<open>The message that a call for these arguments at this time writes.\<close>

definition published ::
  "golib \<Rightarrow> Producer \<Rightarrow> string \<Rightarrow> string \<Rightarrow> string \<Rightarrow> string \<Rightarrow> string \<Rightarrow> string \<Rightarrow> time \<Rightarrow> kmessage \<Rightarrow> bool" where
  "published gl p eventID tenantID endpointID eventType payload signature now m \<longleftrightarrow>
     km_Topic m = pr_topic p \<and> km_Key m = tenantID
     \<and> gl_MarshalMessage gl (event_message eventID tenantID endpointID eventType payload signature now)
         = Inr (km_Value m)"

context kafka_cluster
begin

lemma PublishEvent_wp:
  assumes "\<And>m. published gl p eid tid epid et pl sg (pl_now P (w_tick w)) m \<Longrightarrow>
      Q None (tick (tick w\<lparr>w_log := w_log w @ [m]\<rparr>))"
    and "\<And>e. Q (Some e) (tick w)"
    and "\<And>e m l. published gl p eid tid epid et pl sg (pl_now P (w_tick w)) m \<Longrightarrow>
      l = w_log w \<or> l = w_log w @ [m] \<Longrightarrow> Q (Some e) (tick (tick w\<lparr>w_log := l\<rparr>))"
  shows "wp P (PublishEvent gl p eid tid epid et pl sg) Q w"
proof (cases "gl_MarshalMessage gl (event_message eid tid epid et pl sg (pl_now P (w_tick w)))")
  case (Inl e)
  then show ?thesis by (simp add: PublishEvent_def assms(2))
next
  case (Inr v)
  let ?m = "\<lparr>km_Topic = pr_topic p, km_Key = tid, km_Value = v\<rparr>"
  have m: "published gl p eid tid epid et pl sg (pl_now P (w_tick w)) ?m"
    using Inr by (simp add: published_def)
  from Inr show ?thesis
    by (simp add: PublishEvent_def) (rule kafka_write; use assms(1,3) [OF m] in auto)
qed

end

end
