(* ===== verification/Hmac_Sha256.thy ===== *)
theory Hmac_Sha256
  imports Prelude "HOL-Library.Word"
begin

unbundle bit_operations_syntax

text \<open>
  The part of the Go standard library that \<^verbatim>\<open>internal/delivery/signer.go\<close> relies on:
  \<^verbatim>\<open>crypto/hmac\<close> over \<^verbatim>\<open>crypto/sha256\<close> (FIPS 180-4 and RFC 2104), on byte lists with a byte
  as an \<^typ>\<open>int\<close> from 0 to 255. The definitions compute; what the development needs of them
  is that a digest is 32 bytes.
\<close>

type_synonym w32 = "32 word"

definition rotr :: "nat \<Rightarrow> w32 \<Rightarrow> w32" where
  "rotr n x = (drop_bit n x) OR (push_bit (32 - n) x)"

definition ch :: "w32 \<Rightarrow> w32 \<Rightarrow> w32 \<Rightarrow> w32" where
  "ch x y z = (x AND y) XOR (NOT x AND z)"

definition maj :: "w32 \<Rightarrow> w32 \<Rightarrow> w32 \<Rightarrow> w32" where
  "maj x y z = (x AND y) XOR (x AND z) XOR (y AND z)"

definition big_sigma0 :: "w32 \<Rightarrow> w32" where
  "big_sigma0 x = rotr 2 x XOR rotr 13 x XOR rotr 22 x"

definition big_sigma1 :: "w32 \<Rightarrow> w32" where
  "big_sigma1 x = rotr 6 x XOR rotr 11 x XOR rotr 25 x"

definition small_sigma0 :: "w32 \<Rightarrow> w32" where
  "small_sigma0 x = rotr 7 x XOR rotr 18 x XOR drop_bit 3 x"

definition small_sigma1 :: "w32 \<Rightarrow> w32" where
  "small_sigma1 x = rotr 17 x XOR rotr 19 x XOR drop_bit 10 x"

definition sha256_K :: "w32 list" where
  "sha256_K = [
   1116352408, 1899447441, 3049323471, 3921009573,
   961987163, 1508970993, 2453635748, 2870763221,
   3624381080, 310598401, 607225278, 1426881987,
   1925078388, 2162078206, 2614888103, 3248222580,
   3835390401, 4022224774, 264347078, 604807628,
   770255983, 1249150122, 1555081692, 1996064986,
   2554220882, 2821834349, 2952996808, 3210313671,
   3336571891, 3584528711, 113926993, 338241895,
   666307205, 773529912, 1294757372, 1396182291,
   1695183700, 1986661051, 2177026350, 2456956037,
   2730485921, 2820302411, 3259730800, 3345764771,
   3516065817, 3600352804, 4094571909, 275423344,
   430227734, 506948616, 659060556, 883997877,
   958139571, 1322822218, 1537002063, 1747873779,
   1955562222, 2024104815, 2227730452, 2361852424,
   2428436474, 2756734187, 3204031479, 3329325298]"

record sha_state =
  sA :: w32
  sB :: w32
  sC :: w32
  sD :: w32
  sE :: w32
  sF :: w32
  sG :: w32
  sH :: w32

definition sha256_init :: sha_state where
  "sha256_init = \<lparr>
     sA = 0x6a09e667, sB = 0xbb67ae85, sC = 0x3c6ef372, sD = 0xa54ff53a,
     sE = 0x510e527f, sF = 0x9b05688c, sG = 0x1f83d9ab, sH = 0x5be0cd19\<rparr>"

text \<open>Padding: the byte 128, zeros up to 56 modulo 64, the bit length in 8 bytes.\<close>

fun be_bytes :: "nat \<Rightarrow> int \<Rightarrow> int list" where
  "be_bytes 0 n = []"
| "be_bytes (Suc k) n = be_bytes k (n div 256) @ [n mod 256]"

definition sha256_pad :: "int list \<Rightarrow> int list" where
  "sha256_pad m =
     m @ [128] @ replicate ((119 - length m mod 64) mod 64) 0 @ be_bytes 8 (8 * int (length m))"

fun words_of :: "int list \<Rightarrow> w32 list" where
  "words_of (a # b # c # d # r) =
     word_of_int (a * 16777216 + b * 65536 + c * 256 + d) # words_of r"
| "words_of _ = []"

text \<open>The message schedule, kept as the last sixteen words, newest first.\<close>

definition sched_next :: "w32 list \<Rightarrow> w32" where
  "sched_next ws = small_sigma1 (ws ! 1) + ws ! 6 + small_sigma0 (ws ! 14) + ws ! 15"

fun sched_extend :: "nat \<Rightarrow> w32 list \<Rightarrow> w32 list" where
  "sched_extend 0 ws = ws"
| "sched_extend (Suc n) ws = sched_extend n (sched_next ws # ws)"

definition sha_round :: "sha_state \<Rightarrow> w32 \<times> w32 \<Rightarrow> sha_state" where
  "sha_round s kw =
     (let t1 = sH s + big_sigma1 (sE s) + ch (sE s) (sF s) (sG s) + fst kw + snd kw;
          t2 = big_sigma0 (sA s) + maj (sA s) (sB s) (sC s)
      in \<lparr>sA = t1 + t2, sB = sA s, sC = sB s, sD = sC s,
          sE = sD s + t1, sF = sE s, sG = sF s, sH = sG s\<rparr>)"

definition sha_block :: "sha_state \<Rightarrow> int list \<Rightarrow> sha_state" where
  "sha_block s blk =
     (let ws = rev (sched_extend 48 (rev (words_of blk)));
          t = foldl sha_round s (zip sha256_K ws)
      in \<lparr>sA = sA s + sA t, sB = sB s + sB t, sC = sC s + sC t, sD = sD s + sD t,
          sE = sE s + sE t, sF = sF s + sF t, sG = sG s + sG t, sH = sH s + sH t\<rparr>)"

function sha_blocks :: "sha_state \<Rightarrow> int list \<Rightarrow> sha_state" where
  "sha_blocks s m = (if m = [] then s else sha_blocks (sha_block s (take 64 m)) (drop 64 m))"
  by pat_completeness auto
termination
  by (relation "measure (\<lambda>(s, m). length m)") auto

declare sha_blocks.simps [simp del]

definition word_bytes :: "w32 \<Rightarrow> int list" where
  "word_bytes w = be_bytes 4 (uint w)"

definition sha_digest :: "sha_state \<Rightarrow> int list" where
  "sha_digest s = concat (map word_bytes [sA s, sB s, sC s, sD s, sE s, sF s, sG s, sH s])"

definition sha256 :: "int list \<Rightarrow> int list" where
  "sha256 m = sha_digest (sha_blocks sha256_init (sha256_pad m))"

definition xor_byte :: "int \<Rightarrow> int \<Rightarrow> int" where
  "xor_byte a b = (a XOR b)"

definition hmac_key_block :: "int list \<Rightarrow> int list" where
  "hmac_key_block key =
     (let k = (if length key > 64 then sha256 key else key)
      in k @ replicate (64 - length k) 0)"

definition hmac_sha256 :: "int list \<Rightarrow> int list \<Rightarrow> int list" where
  "hmac_sha256 key m =
     (let k = hmac_key_block key
      in sha256 (map (xor_byte 92) k @ sha256 (map (xor_byte 54) k @ m)))"

lemma length_be_bytes [simp]: "length (be_bytes k n) = k"
  by (induction k arbitrary: n) auto

lemma be_bytes_lt: "list_all (\<lambda>b. 0 \<le> b \<and> b < 256) (be_bytes k n)"
  by (induction k arbitrary: n) auto

lemma length_sha256 [simp]: "length (sha256 m) = 32"
  by (simp add: sha256_def sha_digest_def word_bytes_def)

lemma sha256_lt: "list_all (\<lambda>b. 0 \<le> b \<and> b < 256) (sha256 m)"
  by (simp add: sha256_def sha_digest_def word_bytes_def be_bytes_lt)

lemma length_hmac_sha256 [simp]: "length (hmac_sha256 key m) = 32"
  by (simp add: hmac_sha256_def Let_def)

lemma hmac_sha256_lt: "list_all (\<lambda>b. 0 \<le> b \<and> b < 256) (hmac_sha256 key m)"
  by (simp add: hmac_sha256_def Let_def sha256_lt)

text \<open>Every padded message is a whole number of 64-byte blocks.\<close>

lemma sha256_pad_blocks: "length (sha256_pad m) mod 64 = 0"
proof -
  have "(n + 1 + (119 - n mod 64) mod 64 + 8) mod 64 = 0" for n :: nat
  proof -
    define r where "r = n mod 64"
    then have "r < 64" by simp
    have "(r + 1 + (119 - r) mod 64 + 8) mod 64 = 0"
    proof (cases "r \<le> 55")
      case True
      then have "119 - r = (55 - r) + 64" by simp
      then have "(119 - r) mod 64 = (55 - r) mod 64" by (simp only: mod_add_self2)
      with True show ?thesis by simp
    next
      case False
      then have "(119 - r) mod 64 = 119 - r" by simp
      with \<open>r < 64\<close> show ?thesis by simp
    qed
    then have "(n mod 64 + 1 + (119 - n mod 64) mod 64 + 8) mod 64 = 0"
      by (simp only: r_def)
    moreover have "(n + 1 + (119 - n mod 64) mod 64 + 8) mod 64
        = (n mod 64 + (1 + (119 - n mod 64) mod 64 + 8)) mod 64"
      by (simp only: add.assoc mod_add_left_eq)
    ultimately show ?thesis by (simp add: ac_simps)
  qed
  then show ?thesis by (simp add: sha256_pad_def ac_simps)
qed

end
