(* ===== verification/Signer.thy ===== *)
theory Signer
  imports Go_Strings Hmac_Sha256
begin

text \<open>
  \<^verbatim>\<open>internal/delivery/signer.go\<close>: the signature put on a webhook, its header text, and
  the parser and check a receiver runs on it.
\<close>

record Signature =
  sg_Timestamp :: int
  sg_V1 :: string

definition Signature_String :: "Signature \<Rightarrow> string" where
  "Signature_String s = ''t='' @ show_int (sg_Timestamp s) @ '',v1='' @ sg_V1 s"

definition bytes :: "string \<Rightarrow> int list" where
  "bytes s = map of_char s"

definition signed_payload :: "string \<Rightarrow> int \<Rightarrow> string" where
  "signed_payload payload timestamp = show_int timestamp @ ''.'' @ payload"

definition Sign :: "string \<Rightarrow> string \<Rightarrow> int \<Rightarrow> Signature" where
  "Sign payload secret timestamp =
     (let hash = hmac_sha256 (bytes secret) (bytes (signed_payload payload timestamp))
      in \<lparr>sg_Timestamp = timestamp, sg_V1 = EncodeToString (map nat hash)\<rparr>)"

definition Verify :: "string \<Rightarrow> string \<Rightarrow> Signature \<Rightarrow> bool" where
  "Verify payload secret sig =
     (let expected = Sign payload secret (sg_Timestamp sig) in sg_V1 expected = sg_V1 sig)"

text \<open>
  The loop over the comma-separated parts: a part without \<^verbatim>\<open>=\<close> or with another key is
  skipped, a later part overwrites an earlier one, a bad number stops with its error.
\<close>

fun parse_parts :: "string list \<Rightarrow> Signature \<Rightarrow> gerr + Signature" where
  "parse_parts [] sig = Inr sig"
| "parse_parts (part # parts) sig =
     (case SplitN2 part CHR ''='' of
        [k, v] \<Rightarrow>
          if k = ''t'' then
            (case ParseInt v of
               Inl err \<Rightarrow> Inl (Wrapf ''parse timestamp: '' err '''')
             | Inr ts \<Rightarrow> parse_parts parts (sig\<lparr>sg_Timestamp := ts\<rparr>))
          else if k = ''v1'' then parse_parts parts (sig\<lparr>sg_V1 := v\<rparr>)
          else parse_parts parts sig
      | _ \<Rightarrow> parse_parts parts sig)"

definition ParseSignature :: "string \<Rightarrow> gerr + Signature" where
  "ParseSignature header =
     (case parse_parts (Split header CHR '','') \<lparr>sg_Timestamp = 0, sg_V1 = ''''\<rparr> of
        Inl err \<Rightarrow> Inl err
      | Inr sig \<Rightarrow>
          if sg_Timestamp sig = 0 \<or> sg_V1 sig = '''' then Inl (PlainErr ''invalid signature format'')
          else Inr sig)"

subsection \<open>Lemmas\<close>

lemma Sign_Timestamp [simp]: "sg_Timestamp (Sign p k t) = t"
  by (simp add: Sign_def Let_def)

lemma length_Sign_V1 [simp]: "length (sg_V1 (Sign p k t)) = 64"
  by (simp add: Sign_def Let_def)

lemma Sign_V1_nonempty [simp]: "sg_V1 (Sign p k t) \<noteq> []"
  using length_Sign_V1 [of p k t] by (metis list.size(3) zero_neq_numeral)

lemma Sign_V1_no_comma [simp]: "CHR '','' \<notin> set (sg_V1 (Sign p k t))"
  by (simp add: Sign_def Let_def)

lemma Sign_V1_is_hex: "list_all is_hex (sg_V1 (Sign p k t))"
  by (simp add: Sign_def Let_def EncodeToString_is_hex)

lemma Signature_String_parts:
  assumes "CHR '','' \<notin> set (sg_V1 sig)"
  shows "Split (Signature_String sig) CHR '','' =
    [''t='' @ show_int (sg_Timestamp sig), ''v1='' @ sg_V1 sig]"
proof -
  have "CHR '','' \<notin> set (''t='' @ show_int (sg_Timestamp sig))"
    using not_in_show_int [of "CHR '',''"] by simp
  from Split_append_sep [OF this, of "''v1='' @ sg_V1 sig"] assms show ?thesis
    by (simp add: Signature_String_def go_string)
qed

lemma SplitN2_t [simp]: "SplitN2 (''t='' @ v) CHR ''='' = [''t'', v]"
  using SplitN2_sep [of "CHR ''=''" "''t''" v] by simp

lemma SplitN2_v1 [simp]: "SplitN2 (''v1='' @ v) CHR ''='' = [''v1'', v]"
  using SplitN2_sep [of "CHR ''=''" "''v1''" v] by simp

lemma parse_string_roundtrip:
  assumes "int64_ok (sg_Timestamp sig)" "sg_Timestamp sig \<noteq> 0"
    and "sg_V1 sig \<noteq> ''''" "CHR '','' \<notin> set (sg_V1 sig)"
  shows "ParseSignature (Signature_String sig) = Inr sig"
  using assms SplitN2_t SplitN2_v1
  by (simp add: ParseSignature_def Signature_String_parts ParseInt_show_int
      del: append_Cons append_Nil)

lemma Sign_V1_eq_iff:
  "sg_V1 (Sign p k t) = sg_V1 (Sign p' k' t') \<longleftrightarrow>
     hmac_sha256 (bytes k) (bytes (signed_payload p t)) =
     hmac_sha256 (bytes k') (bytes (signed_payload p' t'))" (is "?l \<longleftrightarrow> ?h = ?h'")
proof
  have lt: "list_all (\<lambda>b. b < 256) (map nat (hmac_sha256 a b))" for a b
    using hmac_sha256_lt [of a b] by (auto simp: list_all_iff)
  have inj: "xs = ys" if "map nat xs = map nat ys"
    "list_all (\<lambda>b. 0 \<le> b \<and> b < 256) xs" "list_all (\<lambda>b. 0 \<le> b \<and> b < 256) ys" for xs ys
    using that by (induction xs arbitrary: ys) (auto simp: Cons_eq_map_conv)
  assume ?l
  then have "map nat ?h = map nat ?h'"
    by (intro EncodeToString_inj lt) (simp add: Sign_def Let_def)
  then show "?h = ?h'" by (rule inj) (rule hmac_sha256_lt)+
qed (simp add: Sign_def Let_def)

lemma bytes_inj: "bytes s = bytes t \<longleftrightarrow> s = t"
  by (auto simp: bytes_def inj_map_eq_map inj_def)

subsection \<open>Properties\<close>

text \<open>
  C17: a receiver who parses the header the platform sends gets back the signature that was
  made, and it verifies with the endpoint's secret; this holds for every payload, secret and
  non-zero 64-bit timestamp.
\<close>

theorem signature_header_roundtrip:
  assumes "int64_ok timestamp" "timestamp \<noteq> 0"
  shows "ParseSignature (Signature_String (Sign payload secret timestamp))
           = Inr (Sign payload secret timestamp)
    \<and> Verify payload secret (Sign payload secret timestamp)"
  using assms by (simp add: parse_string_roundtrip Verify_def)

theorem signature_header_roundtrip_witness:
  "ParseSignature (Signature_String (Sign ''{}'' ''whsec_k'' 1700000000)) = Inr (Sign ''{}'' ''whsec_k'' 1700000000)
    \<and> Verify ''{}'' ''whsec_k'' (Sign ''{}'' ''whsec_k'' 1700000000)"
  by (rule signature_header_roundtrip) (simp_all add: int64_ok_def)

end
