(* ===== verification/Event_Service.thy ===== *)
theory Event_Service
  imports Event_Repo Endpoint_Repo Kafka_Producer Signer
begin

text \<open>
  \<^verbatim>\<open>internal/service/event.go\<close>: accepting an event. Create validates, checks that the
  endpoint belongs to the tenant, is active and subscribed, signs the payload, stores the
  event as pending, publishes it and marks it queued; the last two failures are only logged.
\<close>

subsection \<open>Subscriptions\<close>

definition matchEventType :: "string \<Rightarrow> string \<Rightarrow> bool" where
  "matchEventType pattern eventType =
     (if pattern = ''*'' then True
      else if HasSuffix pattern ''.*'' then HasPrefix eventType (TrimSuffix pattern ''.*'' @ ''.'')
      else pattern = eventType)"

fun match_loop :: "string list \<Rightarrow> string \<Rightarrow> bool" where
  "match_loop [] eventType = False"
| "match_loop (pattern # patterns) eventType =
     (if matchEventType pattern eventType then True else match_loop patterns eventType)"

definition matchesEventTypes :: "string list option \<Rightarrow> string \<Rightarrow> bool" where
  "matchesEventTypes patterns eventType =
     (if elems patterns = [] then True else match_loop (elems patterns) eventType)"

text \<open>What a subscription means: the star, a prefix up to a dot, or the type itself.\<close>

definition subscribed :: "string \<Rightarrow> string \<Rightarrow> bool" where
  "subscribed pattern eventType \<longleftrightarrow>
     pattern = ''*'' \<or> (\<exists>base rest. pattern = base @ ''.*'' \<and> eventType = base @ ''.'' @ rest)
     \<or> (pattern = eventType \<and> (\<nexists>base. pattern = base @ ''.*''))"

lemma matchEventType_subscribed: "matchEventType pattern eventType \<longleftrightarrow> subscribed pattern eventType"
proof (cases "HasSuffix pattern ''.*''")
  case True
  then obtain base where base: "pattern = base @ ''.*''" by (auto simp: HasSuffix_iff)
  then have "pattern \<noteq> ''*''" by (auto simp: append_eq_Cons_conv)
  with base show ?thesis
    by (auto simp: matchEventType_def subscribed_def HasSuffix_iff HasPrefix_iff TrimSuffix_append)
next
  case False
  then show ?thesis by (auto simp: matchEventType_def subscribed_def HasSuffix_iff)
qed

lemma match_loop_iff: "match_loop patterns et \<longleftrightarrow> (\<exists>p \<in> set patterns. subscribed p et)"
  by (induction patterns) (auto simp: matchEventType_subscribed)

subsection \<open>The service\<close>

definition inactive_error :: gerr where
  "inactive_error = Wrapf '''' ErrValidation '': endpoint is inactive''"

definition mismatch_error :: "string \<Rightarrow> string list option \<Rightarrow> gerr" where
  "mismatch_error eventType eventTypes = Wrapf '''' ErrValidation
     ('': event type '' @ Quote eventType @ '' does not match endpoint subscriptions ''
       @ fmt_slice (elems eventTypes))"

definition new_event :: "string \<Rightarrow> CreateEventInput \<Rightarrow> string \<Rightarrow> time \<Rightarrow> string \<Rightarrow> event" where
  "new_event tenantID input sig now uuid =
     \<lparr>ev_ID = uuid, ev_TenantID = tenantID, ev_EndpointID = ci_EndpointID input,
      ev_EventType = ci_EventType input, ev_Payload = ci_Payload input, ev_Signature = sig,
      ev_Status = EventStatusPending, ev_AttemptCount = 0, ev_MaxAttempts = 5,
      ev_NextRetryAt = None, ev_CreatedAt = now, ev_UpdatedAt = now\<rparr>"

definition publish_new :: "golib \<Rightarrow> Producer \<Rightarrow> event \<Rightarrow> (gerr + event) prog" where
  "publish_new gl p ev =
     bind (PublishEvent gl p (ev_ID ev) (ev_TenantID ev) (ev_EndpointID ev) (ev_EventType ev)
         (ev_Payload ev) (ev_Signature ev)) (\<lambda>pe. case pe of
       Some err \<Rightarrow> Ret (Inr ev)
     | None \<Rightarrow>
         bind (EventRepo_UpdateStatus (ev_ID ev) EventStatusQueued) (\<lambda>ue. case ue of
           Some err \<Rightarrow> Ret (Inr ev)
         | None \<Rightarrow> Ret (Inr (ev\<lparr>ev_Status := EventStatusQueued\<rparr>))))"

definition eventService_Create ::
  "golib \<Rightarrow> Producer \<Rightarrow> string \<Rightarrow> CreateEventInput \<Rightarrow> (gerr + event) prog" where
  "eventService_Create gl p tenantID input =
     (let errs = CreateEventInput_Validate input in
      if errs \<noteq> [] then Ret (Inl (validation_failure errs))
      else
        bind (EndpointRepo_GetByID (ci_EndpointID input)) (\<lambda>r. case r of
          Inl err \<Rightarrow> Ret (Inl (Wrapf ''get endpoint: '' err ''''))
        | Inr ep \<Rightarrow>
            if ep_TenantID ep \<noteq> tenantID then Ret (Inl ErrForbidden)
            else if \<not> ep_Active ep then Ret (Inl inactive_error)
            else if \<not> matchesEventTypes (ep_EventTypes ep) (ci_EventType input)
            then Ret (Inl (mismatch_error (ci_EventType input) (ep_EventTypes ep)))
            else
              Now (\<lambda>t1. let sig = Sign (ci_Payload input) (ep_Secret ep) (unix_seconds t1) in
              Now (\<lambda>now.
              NewUUID (\<lambda>uuid.
                let ev = new_event tenantID input (Signature_String sig) now uuid in
                bind (EventRepo_Create ev) (\<lambda>e. case e of
                  Some err \<Rightarrow> Ret (Inl (Wrapf ''create event: '' err ''''))
                | None \<Rightarrow> publish_new gl p ev))))))"

definition eventService_GetByID :: "string \<Rightarrow> (gerr + event) prog" where
  "eventService_GetByID eid =
     bind (EventRepo_GetByID eid) (\<lambda>r. Ret (case r of
       Inl err \<Rightarrow> Inl (Wrapf ''get event: '' err '''') | Inr ev \<Rightarrow> Inr ev))"

definition clamp_limit :: "int \<Rightarrow> int" where
  "clamp_limit limit = (let l = (if limit \<le> 0 then 50 else limit) in if l > 100 then 100 else l)"

definition clamp_offset :: "int \<Rightarrow> int" where
  "clamp_offset offset = (if offset < 0 then 0 else offset)"

definition eventService_ListByTenantID :: "string \<Rightarrow> int \<Rightarrow> int \<Rightarrow> (gerr + event list \<times> int) prog" where
  "eventService_ListByTenantID tenantID limit offset =
     bind (EventRepo_ListByTenantID tenantID (clamp_limit limit) (clamp_offset offset)) (\<lambda>r. case r of
       Inl err \<Rightarrow> Ret (Inl (Wrapf ''list events: '' err ''''))
     | Inr evs \<Rightarrow>
         bind (EventRepo_CountByTenantID tenantID) (\<lambda>c. Ret (case c of
           Inl err \<Rightarrow> Inl (Wrapf ''count events: '' err '''')
         | Inr cnt \<Rightarrow> Inr (evs, cnt))))"

subsection \<open>Contracts\<close>

definition published_event :: "golib \<Rightarrow> Producer \<Rightarrow> event \<Rightarrow> kmessage \<Rightarrow> bool" where
  "published_event gl p ev m \<longleftrightarrow>
     (\<exists>now. published gl p (ev_ID ev) (ev_TenantID ev) (ev_EndpointID ev) (ev_EventType ev)
        (ev_Payload ev) (ev_Signature ev) now m)"

text \<open>What a tenant may send: a valid input for a stored, active, subscribed endpoint of its own.\<close>

definition may_send :: "pgtypes \<Rightarrow> database \<Rightarrow> string \<Rightarrow> CreateEventInput \<Rightarrow> endpoint \<Rightarrow> bool" where
  "may_send ty db tenantID input ep \<longleftrightarrow> valid_event_input input
     \<and> (\<exists>u r. uuid_in ty (ci_EndpointID input) = Some u \<and> r \<in> set (rows_with db ''endpoints'' ''id'' u)
          \<and> endpoint_row_ok r \<and> ep = row_endpoint r)
     \<and> ep_TenantID ep = tenantID \<and> ep_Active ep
     \<and> matchesEventTypes (ep_EventTypes ep) (ci_EventType input)"

definition signed_event :: "(nat \<Rightarrow> time) \<Rightarrow> string \<Rightarrow> CreateEventInput \<Rightarrow> endpoint \<Rightarrow> event \<Rightarrow> bool" where
  "signed_event clock tenantID input ep ev \<longleftrightarrow>
     (\<exists>n now uuid. ev = new_event tenantID input
        (Signature_String (Sign (ci_Payload input) (ep_Secret ep) (unix_seconds (clock n)))) now uuid)"

definition with_event :: "row \<Rightarrow> database \<Rightarrow> database" where
  "with_event row db = db(''events'' := db ''events'' @ [row])"

definition mark_queued :: "pgtypes \<Rightarrow> event \<Rightarrow> database \<Rightarrow> database \<Rightarrow> bool" where
  "mark_queued ty ev db db' \<longleftrightarrow> (\<exists>u now. uuid_in ty (ev_ID ev) = Some u
     \<and> db' = set_rows ''events'' u (put_status EventStatusQueued now) db)"

definition unchanged :: "world \<Rightarrow> world \<Rightarrow> bool" where
  "unchanged w w' \<longleftrightarrow> w_keys w' = w_keys w \<and> w_committed w' = w_committed w \<and> w_sent w' = w_sent w"

lemma unchanged_simps [simp]:
  "unchanged w w" "unchanged w (tick w') = unchanged w w'"
  "unchanged w (w'\<lparr>w_db := db\<rparr>) = unchanged w w'" "unchanged w (w'\<lparr>w_log := l\<rparr>) = unchanged w w'"
  by (simp_all add: unchanged_def)

text \<open>Every way Create can end.\<close>

definition create_outcome ::
  "pgtypes \<Rightarrow> (nat \<Rightarrow> time) \<Rightarrow> golib \<Rightarrow> Producer \<Rightarrow> string \<Rightarrow> CreateEventInput \<Rightarrow> world \<Rightarrow> gerr + event \<Rightarrow> world \<Rightarrow> bool" where
  "create_outcome ty clock gl p tenantID input w r w' \<longleftrightarrow> unchanged w w' \<and>
     (case r of
        Inl e \<Rightarrow> w_log w' = w_log w \<and> (w_db w' = w_db w \<or>
          (\<exists>ep ev row. may_send ty (w_db w) tenantID input ep \<and> signed_event clock tenantID input ep ev
             \<and> insert_row ty ''events'' eventColumns (event_params ev) (w_db w) = Inr row
             \<and> w_db w' = with_event row (w_db w)))
      | Inr ev \<Rightarrow>
          \<exists>ep ev0 row. may_send ty (w_db w) tenantID input ep \<and> signed_event clock tenantID input ep ev0
             \<and> insert_row ty ''events'' eventColumns (event_params ev0) (w_db w) = Inr row
             \<and> ((ev = ev0\<lparr>ev_Status := EventStatusQueued\<rparr>
                   \<and> (\<exists>m. published_event gl p ev0 m \<and> w_log w' = w_log w @ [m])
                   \<and> mark_queued ty ev0 (with_event row (w_db w)) (w_db w'))
                \<or> (ev = ev0
                   \<and> (w_log w' = w_log w \<or> (\<exists>m. published_event gl p ev0 m \<and> w_log w' = w_log w @ [m]))
                   \<and> (w_db w' = with_event row (w_db w)
                      \<or> mark_queued ty ev0 (with_event row (w_db w)) (w_db w')))))"

context backend
begin

lemma publish_new_wp:
  assumes "\<And>m w'. published_event gl p ev m \<Longrightarrow> unchanged w w' \<Longrightarrow> w_log w' = w_log w @ [m] \<Longrightarrow>
      mark_queued ty ev (w_db w) (w_db w') \<Longrightarrow> Q (Inr (ev\<lparr>ev_Status := EventStatusQueued\<rparr>)) w'"
    and "\<And>w'. unchanged w w' \<Longrightarrow> w_log w' = w_log w \<or> (\<exists>m. published_event gl p ev m \<and> w_log w' = w_log w @ [m]) \<Longrightarrow>
      w_db w' = w_db w \<or> mark_queued ty ev (w_db w) (w_db w') \<Longrightarrow> Q (Inr ev) w'"
  shows "wp P (publish_new gl p ev) Q w"
  unfolding publish_new_def wp_bind
proof (rule PublishEvent_wp, goal_cases)
  case (1 m)
  then have m: "published_event gl p ev m" by (auto simp: published_event_def)
  show ?case
    by simp (rule EventRepo_UpdateStatus_wp; use m in \<open>auto simp: mark_queued_def intro!: assms\<close>)
next
  case (2 e)
  show ?case by (simp add: assms(2))
next
  case (3 e m l)
  then have m: "published_event gl p ev m" by (auto simp: published_event_def)
  then show ?case using 3(2) assms(2) by auto
qed

lemma create_outcome_refused: "create_outcome ty clock gl p tenantID input w (Inl e) (tick w)"
  by (simp add: create_outcome_def)

lemma eventService_Create_wp:
  "wp P (eventService_Create gl p tenantID input) (create_outcome ty (pl_now P) gl p tenantID input w) w"
proof (cases "CreateEventInput_Validate input = []")
  case False
  then show ?thesis by (simp add: eventService_Create_def Let_def create_outcome_def)
next
  case True
  then have valid: "valid_event_input input" by (simp add: event_input_accepted_iff)
  show ?thesis
    unfolding eventService_Create_def Let_def using True
  proof (simp only: not_False_eq_True simp_thms if_False wp_bind, rule_tac EndpointRepo_GetByID_wp, goal_cases)
    case (1 u r)
    let ?ep = "row_endpoint r"
    show ?case
    proof (cases "ep_TenantID ?ep = tenantID \<and> ep_Active ?ep
        \<and> matchesEventTypes (ep_EventTypes ?ep) (ci_EventType input)")
      case False
      then show ?thesis by (auto simp: create_outcome_refused)
    next
      case ok: True
      with 1 valid have ms: "may_send ty (w_db w) tenantID input ?ep"
        unfolding may_send_def by blast
      have created: "wp P (EventRepo_Create ev) (\<lambda>e. wp P (case e of
            Some err \<Rightarrow> Ret (Inl (Wrapf ''create event: '' err '''')) | None \<Rightarrow> publish_new gl p ev)
          (create_outcome ty (pl_now P) gl p tenantID input w)) w1"
        if sg: "signed_event (pl_now P) tenantID input ?ep ev" and w1: "w_db w1 = w_db w" "w_log w1 = w_log w" "unchanged w w1"
        for ev w1
      proof (rule EventRepo_Create_wp, goal_cases)
        case (1 row)
        note ins = 1 [unfolded w1]
        let ?w2 = "tick (w1\<lparr>w_db := (w_db w1)(''events'' := w_db w1 ''events'' @ [row])\<rparr>)"
        have w2: "w_db ?w2 = with_event row (w_db w)" "w_log ?w2 = w_log w" "unchanged w ?w2"
          using w1 by (simp_all add: with_event_def)
        have tr: "unchanged ?w2 w' \<Longrightarrow> unchanged w w'" for w'
          using w2(3) by (auto simp: unchanged_def)
        show ?case
          by simp (rule publish_new_wp;
            use ms sg ins w2 tr in \<open>simp add: create_outcome_def; blast\<close>)
      next
        case (2 e)
        then show ?case using w1 by (simp add: create_outcome_def)
      next
        case (3 e row)
        then show ?case
          using w1 ms sg by (simp add: create_outcome_def) (auto simp: with_event_def)
      qed
      show ?thesis
        using ok by simp (rule created; auto simp: signed_event_def)
    qed
  next
    case (2 u)
    then show ?case by (simp add: create_outcome_refused)
  next
    case (3 e)
    then show ?case by (simp add: create_outcome_refused)
  qed
qed

end

lemma window_rows:
  assumes "mset rs = mset qs"
  shows "length (window (Some (clamp_limit limit, off)) rs) \<le> 100"
    and "set (window (Some (l, off)) rs) \<subseteq> set qs"
proof -
  show "length (window (Some (clamp_limit limit, off)) rs) \<le> 100"
    by (auto simp: window_def clamp_limit_def Let_def)
  have "set rs = set qs" using assms by (rule mset_eq_setD)
  then show "set (window (Some (l, off)) rs) \<subseteq> set qs"
    using set_window_subset [of "nat l" "nat off" rs] by (simp add: window_def)
qed

lemma ordered_window: "ordered ord rs \<Longrightarrow> ordered ord (window w rs)"
  by (auto simp: ordered_def window_def sorted_wrt_window split: option.splits order.splits)

lemma newest_first:
  assumes "ordered (Some (Desc ''created_at'')) rs" "list_all event_row_ok rs"
  shows "sorted_wrt (\<lambda>a b. ev_CreatedAt b \<le> ev_CreatedAt a) (map row_event rs)"
proof -
  have "order_key (r ''created_at'') = ev_CreatedAt (row_event r)" if "r \<in> set rs" for r
    using assms(2) that by (cases "r ''created_at''") (auto simp: list_all_iff event_row_ok_def row_event_def)
  then show ?thesis
    using assms(1) by (auto simp: ordered_def sorted_wrt_map elim!: sorted_wrt_mono_rel [rotated])
qed

subsection \<open>Properties\<close>

text \<open>
  C29: an endpoint without patterns gets every event; with patterns, exactly the events that
  one of them subscribes to, where a pattern is the star, a dotted prefix followed by a star,
  or the type itself.
\<close>

theorem matches_event_types_iff:
  "matchesEventTypes patterns eventType \<longleftrightarrow>
     elems patterns = [] \<or> (\<exists>p \<in> set (elems patterns). subscribed p eventType)"
  by (simp add: matchesEventTypes_def match_loop_iff)


text \<open>
  A tenant cannot send an event to an endpoint of another tenant: Create fails and
  neither the database nor the topic changes.
\<close>

theorem create_event_tenant_isolation:
  assumes "backend P rt ty pgnow"
    and "\<And>u r. uuid_in ty (ci_EndpointID input) = Some u \<Longrightarrow> r \<in> set (rows_with (w_db w) ''endpoints'' ''id'' u) \<Longrightarrow>
      r ''tenant_id'' \<noteq> VText tenantID"
    and "\<And>r. r \<in> set (w_db w ''endpoints'') \<Longrightarrow> is_text (r ''tenant_id'')"
  shows "wp P (eventService_Create gl p tenantID input)
    (\<lambda>r w'. (\<exists>e. r = Inl e) \<and> w_db w' = w_db w \<and> w_log w' = w_log w) w"
proof (rule wp_mono [OF backend.eventService_Create_wp [OF assms(1)]])
  have none: "\<not> may_send ty (w_db w) tenantID input ep" for ep
  proof
    assume "may_send ty (w_db w) tenantID input ep"
    then obtain u r where u: "uuid_in ty (ci_EndpointID input) = Some u"
      and r: "r \<in> set (rows_with (w_db w) ''endpoints'' ''id'' u)" and t: "text_of (r ''tenant_id'') = tenantID"
      by (auto simp: may_send_def row_endpoint_def)
    have "is_text (r ''tenant_id'')" using r assms(3) by (simp add: rows_with_def)
    with t have "r ''tenant_id'' = VText tenantID" by (cases "r ''tenant_id''") auto
    with assms(2) [OF u r] show False by simp
  qed
  show "(\<exists>e. r = Inl e) \<and> w_db w' = w_db w \<and> w_log w' = w_log w"
    if "create_outcome ty (pl_now P) gl p tenantID input w r w'" for r w'
    using that none by (auto simp: create_outcome_def split: sum.splits)
qed

text \<open>The row of an accepted event.\<close>

lemma accepted_row:
  assumes "create_outcome ty clock gl p tenantID input w (Inr ev) w'"
  shows "\<exists>r. r \<in> set (w_db w' ''events'') \<and> r ''id'' = VText (the (uuid_in ty (ev_ID ev))) \<and> r ''signature'' = VText (ev_Signature ev)"
proof -
  obtain ev0 row where ins: "insert_row ty ''events'' eventColumns (event_params ev0) (w_db w) = Inr row"
    and ev: "ev_ID ev = ev_ID ev0" "ev_Signature ev = ev_Signature ev0"
    and db: "w_db w' = with_event row (w_db w) \<or> mark_queued ty ev0 (with_event row (w_db w)) (w_db w')"
    using assms by (auto simp: create_outcome_def)
  note row = insert_event_row [OF ins]
  then have "ev_Signature (row_event row) = ev_Signature ev" by (simp add: stored_event_def ev)
  then have "row ''signature'' = VText (ev_Signature ev)"
    using row by (cases "row ''signature''") (auto simp: event_row_ok_def row_event_def)
  moreover have "row \<in> set (w_db w' ''events'') \<or> (\<exists>t. put_status EventStatusQueued t row \<in> set (w_db w' ''events''))"
    using db row by (auto simp: with_event_def mark_queued_def set_rows_def update_rows_def)
  ultimately show ?thesis using row ev by (auto simp: put_status_def)
qed

text \<open>
  C26: an accepted event carries a signature that the receiver of what the client sent can check. For
  every clock between 1970 and the end of 64-bit Unix time: the event that Create returns has the
  payload of the request as the client sent it; its signature header, which is the one in
  the stored row, parses, and verifies against that payload with the secret of the endpoint it was
  sent to. (What is stored and delivered is the payload as the database prints it.)
\<close>

theorem created_event_verifies:
  assumes "backend P rt ty pgnow"
    and "\<And>n. int64_ok (unix_seconds (pl_now P n)) \<and> unix_seconds (pl_now P n) \<noteq> 0"
  shows "wp P (eventService_Create gl p tenantID input)
    (\<lambda>r w'. \<forall>ev. r = Inr ev \<longrightarrow> ev_Payload ev = ci_Payload input
       \<and> (\<exists>r. r \<in> set (w_db w' ''events'') \<and> r ''id'' = VText (the (uuid_in ty (ev_ID ev))) \<and> r ''signature'' = VText (ev_Signature ev))
       \<and> (\<exists>ep sig. may_send ty (w_db w) tenantID input ep
         \<and> ParseSignature (ev_Signature ev) = Inr sig \<and> Verify (ci_Payload input) (ep_Secret ep) sig)) w"
proof (rule wp_mono [OF backend.eventService_Create_wp [OF assms(1)]], intro allI impI)
  fix res w' ev assume "create_outcome ty (pl_now P) gl p tenantID input w res w'" "res = Inr ev"
  then have out: "create_outcome ty (pl_now P) gl p tenantID input w (Inr ev) w'" by simp
  then obtain ep ev0 where sg: "may_send ty (w_db w) tenantID input ep" "signed_event (pl_now P) tenantID input ep ev0"
    "ev_Payload ev = ev_Payload ev0" "ev_Signature ev = ev_Signature ev0" by (auto simp: create_outcome_def)
  then obtain n where "ev_Payload ev = ci_Payload input"
    "ev_Signature ev = Signature_String (Sign (ci_Payload input) (ep_Secret ep) (unix_seconds (pl_now P n)))"
    by (auto simp: signed_event_def new_event_def)
  moreover from this have "\<exists>sig. ParseSignature (ev_Signature ev) = Inr sig \<and> Verify (ci_Payload input) (ep_Secret ep) sig"
    using assms(2) [of n] by (simp add: parse_string_roundtrip Verify_def)
  ultimately show "ev_Payload ev = ci_Payload input
       \<and> (\<exists>r. r \<in> set (w_db w' ''events'') \<and> r ''id'' = VText (the (uuid_in ty (ev_ID ev))) \<and> r ''signature'' = VText (ev_Signature ev))
       \<and> (\<exists>ep sig. may_send ty (w_db w) tenantID input ep
         \<and> ParseSignature (ev_Signature ev) = Inr sig \<and> Verify (ci_Payload input) (ep_Secret ep) sig)"
    using accepted_row [OF out] sg(1) by blast
qed

text \<open>
  A page of events holds at most a hundred, all of the tenant asked for, newest first,
  and comes with the number of all its events.
\<close>

theorem list_events_page:
  assumes "pg_server P ty pgnow"
  shows "wp P (eventService_ListByTenantID tenantID limit offset)
    (\<lambda>r w'. \<forall>evs cnt. r = Inr (evs, cnt) \<longrightarrow> (\<exists>u. uuid_in ty tenantID = Some u
       \<and> length evs \<le> 100 \<and> (\<forall>ev \<in> set evs. ev_TenantID ev = u)
       \<and> sorted_wrt (\<lambda>a b. ev_CreatedAt b \<le> ev_CreatedAt a) evs
       \<and> cnt = int (length (rows_with (w_db w) ''events'' ''tenant_id'' u)))) w"
  unfolding eventService_ListByTenantID_def wp_bind
proof (rule pg_server.EventRepo_ListByTenantID_wp [OF assms], goal_cases)
  case (1 e)
  show ?case by simp
next
  case (2 u rs)
  let ?win = "window (Some (clamp_limit limit, clamp_offset offset)) rs"
  have page: "length ?win \<le> 100" "\<forall>r \<in> set ?win. text_of (r ''tenant_id'') = u"
    "sorted_wrt (\<lambda>a b. ev_CreatedAt b \<le> ev_CreatedAt a) (map row_event ?win)"
    using window_rows(1) [OF 2(2), of limit] window_rows(2) [OF 2(2), of "clamp_limit limit" "clamp_offset offset"]
      newest_first [OF ordered_window [OF 2(3)] 2(4)]
    by (auto simp: rows_with_def dest!: subsetD)
  show ?case
    by simp (rule pg_server.EventRepo_CountByTenantID_wp [OF assms];
      use page 2(1) in \<open>auto simp: row_event_def\<close>)
qed

subsection \<open>Concrete runs\<close>

text \<open>A database with one tenant, one endpoint of its own and one of another tenant.\<close>

definition endpoint_row :: "string \<Rightarrow> string \<Rightarrow> row" where
  "endpoint_row eid tid = (\<lambda>c. VNull)(''id'' := VText eid, ''tenant_id'' := VText tid,
     ''url'' := VText ''https://x.io/hook'', ''description'' := VText '''',
     ''event_types'' := VTexts [''order.*''], ''secret'' := VText ''s'', ''active'' := VBool True,
     ''created_at'' := VTime 0, ''updated_at'' := VTime 0)"

definition two_tenants :: database where
  "two_tenants = (\<lambda>t. [])(''tenants'' := [id_row ''t'', id_row ''other''],
     ''endpoints'' := [endpoint_row ''p'' ''t'', endpoint_row ''q'' ''other''])"

definition order_input :: "string \<Rightarrow> CreateEventInput" where
  "order_input endpointID = \<lparr>ci_EndpointID = endpointID, ci_EventType = ''order.paid'', ci_Payload = ''{}''\<rparr>"

definition api_world :: world where
  "api_world = empty_world\<lparr>w_db := two_tenants\<rparr>"

definition events_producer :: Producer where
  "events_producer = \<lparr>pr_topic = TopicEvents\<rparr>"


theorem create_event_tenant_isolation_witness:
  "wp (sim quiet) (eventService_Create sim_lib events_producer ''t'' (order_input ''q''))
     (\<lambda>r w'. (\<exists>e. r = Inl e) \<and> w_db w' = w_db api_world \<and> w_log w' = w_log api_world) api_world"
  by (rule create_event_tenant_isolation [OF sim_backend.backend_axioms])
    (auto simp: api_world_def two_tenants_def endpoint_row_def rows_with_def order_input_def sim_types_def)

theorem created_event_verifies_witness:
  "wp (sim quiet) (eventService_Create sim_lib events_producer ''t'' (order_input ''p''))
     (\<lambda>r w'. \<forall>ev. r = Inr ev \<longrightarrow> ev_Payload ev = ''{}'' \<and> (\<exists>ep sig. may_send sim_types (w_db api_world) ''t'' (order_input ''p'') ep
        \<and> ParseSignature (ev_Signature ev) = Inr sig \<and> Verify ''{}'' (ep_Secret ep) sig)) api_world"
  by (rule wp_mono [OF created_event_verifies [OF sim_backend.backend_axioms]])
    (simp add: sim_def unix_seconds_def int64_ok_def, simp add: order_input_def)

theorem list_events_page_witness:
  "wp (sim quiet) (eventService_ListByTenantID ''t'' 1000 0)
     (\<lambda>r w'. \<forall>evs cnt. r = Inr (evs, cnt) \<longrightarrow> length evs \<le> 100) api_world"
  by (rule wp_mono [OF list_events_page [OF sim_pg.pg_server_axioms]]) auto

end
