(* ===== verification/Endpoint_Service.thy ===== *)
theory Endpoint_Service
  imports Endpoint_Repo Base64 Event_Service
begin

text \<open>
  \<^verbatim>\<open>internal/service/endpoint.go\<close>: registration, reading, change and removal of the
  endpoints of a tenant. \<^verbatim>\<open>url.Parse\<close> is a parameter; what the code reads of its result
  is the scheme and the host.
\<close>

definition validateURL :: "golib \<Rightarrow> string \<Rightarrow> gerr option" where
  "validateURL gl raw = (case gl_ParseURL gl raw of
     Inl err \<Rightarrow> Some (Wrapf ''invalid url: '' err '''')
   | Inr (scheme, host) \<Rightarrow>
       if scheme \<noteq> ''http'' \<and> scheme \<noteq> ''https'' then Some (PlainErr ''url must use http or https scheme'')
       else if host = '''' then Some (PlainErr ''url must have a host'')
       else None)"

definition url_error :: "gerr \<Rightarrow> gerr" where
  "url_error err = Wrapf '''' ErrValidation ('': url: '' @ err_msg err)"

definition generateSecret :: "(gerr + string) prog" where
  "generateSecret = RandRead 32 (\<lambda>r. case r of
     Inl err \<Rightarrow> Ret (Inl err)
   | Inr b \<Rightarrow> Ret (Inr (''whsec_'' @ b64_encode (map nat b))))"

definition new_endpoint :: "string \<Rightarrow> CreateEndpointInput \<Rightarrow> string \<Rightarrow> time \<Rightarrow> string \<Rightarrow> endpoint" where
  "new_endpoint tenantID input secret now uuid =
     \<lparr>ep_ID = uuid, ep_TenantID = tenantID, ep_URL = ce_URL input, ep_Description = ce_Description input,
      ep_EventTypes = Some (elems (ce_EventTypes input)), ep_Secret = secret,
      ep_Active = (case ce_Active input of None \<Rightarrow> True | Some a \<Rightarrow> a),
      ep_CreatedAt = now, ep_UpdatedAt = now\<rparr>"

definition endpointService_Create :: "golib \<Rightarrow> string \<Rightarrow> CreateEndpointInput \<Rightarrow> (gerr + endpoint \<times> string) prog" where
  "endpointService_Create gl tenantID input =
     (let errs = CreateEndpointInput_Validate input in
      if errs \<noteq> [] then Ret (Inl (validation_failure errs))
      else case validateURL gl (ce_URL input) of
        Some err \<Rightarrow> Ret (Inl (url_error err))
      | None \<Rightarrow>
          bind generateSecret (\<lambda>g. case g of
            Inl err \<Rightarrow> Ret (Inl (Wrapf ''generate secret: '' err ''''))
          | Inr secret \<Rightarrow>
              Now (\<lambda>now. NewUUID (\<lambda>uuid.
                let ep = new_endpoint tenantID input secret now uuid in
                bind (EndpointRepo_Create ep) (\<lambda>e. case e of
                  Some err \<Rightarrow> Ret (Inl (Wrapf ''create endpoint: '' err ''''))
                | None \<Rightarrow> Ret (Inr (ep, secret)))))))"

definition endpointService_GetByID :: "string \<Rightarrow> (gerr + endpoint) prog" where
  "endpointService_GetByID eid =
     bind (EndpointRepo_GetByID eid) (\<lambda>r. case r of
       Inl err \<Rightarrow> Ret (Inl (Wrapf ''get endpoint: '' err ''''))
     | Inr ep \<Rightarrow> Ret (Inr ep))"

definition endpointService_ListByTenantID :: "string \<Rightarrow> int \<Rightarrow> int \<Rightarrow> (gerr + endpoint list \<times> int) prog" where
  "endpointService_ListByTenantID tenantID limit offset =
     bind (EndpointRepo_ListByTenantID tenantID (clamp_limit limit) (clamp_offset offset)) (\<lambda>r. case r of
       Inl err \<Rightarrow> Ret (Inl (Wrapf ''list endpoints: '' err ''''))
     | Inr eps \<Rightarrow>
         bind (EndpointRepo_CountByTenantID tenantID) (\<lambda>c. case c of
           Inl err \<Rightarrow> Ret (Inl (Wrapf ''count endpoints: '' err ''''))
         | Inr cnt \<Rightarrow> Ret (Inr (eps, cnt))))"

text \<open>The fields that the input gives.\<close>

definition apply_update :: "UpdateEndpointInput \<Rightarrow> endpoint \<Rightarrow> endpoint" where
  "apply_update input ep =
     ep\<lparr>ep_URL := (case ue_URL input of None \<Rightarrow> ep_URL ep | Some url \<Rightarrow> url),
        ep_Description := (case ue_Description input of None \<Rightarrow> ep_Description ep | Some d \<Rightarrow> d),
        ep_EventTypes := (case ue_EventTypes input of None \<Rightarrow> ep_EventTypes ep | Some ets \<Rightarrow> Some ets),
        ep_Active := (case ue_Active input of None \<Rightarrow> ep_Active ep | Some a \<Rightarrow> a)\<rparr>"

definition endpointService_Update ::
  "golib \<Rightarrow> string \<Rightarrow> string \<Rightarrow> UpdateEndpointInput \<Rightarrow> (gerr + endpoint) prog" where
  "endpointService_Update gl eid tenantID input =
     bind (EndpointRepo_GetByID eid) (\<lambda>r. case r of
       Inl err \<Rightarrow> Ret (Inl (Wrapf ''get endpoint: '' err ''''))
     | Inr ep \<Rightarrow>
         if ep_TenantID ep \<noteq> tenantID then Ret (Inl ErrForbidden)
         else case Option.bind (ue_URL input) (validateURL gl) of
           Some err \<Rightarrow> Ret (Inl (url_error err))
         | None \<Rightarrow>
             Now (\<lambda>now.
               let ep' = (apply_update input ep)\<lparr>ep_UpdatedAt := now\<rparr> in
               bind (EndpointRepo_Update ep') (\<lambda>e. case e of
                 Some err \<Rightarrow> Ret (Inl (Wrapf ''update endpoint: '' err ''''))
               | None \<Rightarrow> Ret (Inr ep'))))"

definition endpointService_Delete :: "string \<Rightarrow> string \<Rightarrow> gerr option prog" where
  "endpointService_Delete eid tenantID =
     bind (EndpointRepo_GetByID eid) (\<lambda>r. case r of
       Inl err \<Rightarrow> Ret (Some (Wrapf ''get endpoint: '' err ''''))
     | Inr ep \<Rightarrow>
         if ep_TenantID ep \<noteq> tenantID then Ret (Some ErrForbidden)
         else bind (EndpointRepo_Delete eid) (\<lambda>e. case e of
           Some err \<Rightarrow> Ret (Some (Wrapf ''delete endpoint: '' err ''''))
         | None \<Rightarrow> Ret None))"

subsection \<open>Contracts\<close>

text \<open>The row an identifier names, when it belongs to the tenant.\<close>

definition owned_row :: "pgtypes \<Rightarrow> database \<Rightarrow> string \<Rightarrow> string \<Rightarrow> string \<Rightarrow> row \<Rightarrow> bool" where
  "owned_row ty db eid tenantID u r \<longleftrightarrow> uuid_in ty eid = Some u
     \<and> r \<in> set (rows_with db ''endpoints'' ''id'' u) \<and> endpoint_row_ok r
     \<and> ep_TenantID (row_endpoint r) = tenantID"

text \<open>The update of an owned row: the fields of the input replace those of the row.\<close>

definition endpoint_updated ::
  "golib \<Rightarrow> pgtypes \<Rightarrow> string \<Rightarrow> string \<Rightarrow> UpdateEndpointInput \<Rightarrow> world \<Rightarrow> endpoint \<Rightarrow> world \<Rightarrow> bool" where
  "endpoint_updated gl ty eid tenantID input w ep w' \<longleftrightarrow>
     (\<exists>u r now. owned_row ty (w_db w) eid tenantID u r
        \<and> (\<forall>url. ue_URL input = Some url \<longrightarrow> validateURL gl url = None)
        \<and> ep = (apply_update input (row_endpoint r))\<lparr>ep_UpdatedAt := now\<rparr>
        \<and> w_db w' = set_rows ''endpoints'' u (put_endpoint ep) (w_db w))"

text \<open>A secret: the prefix and the text of 32 random bytes.\<close>

definition is_secret :: "platform \<Rightarrow> string \<Rightarrow> bool" where
  "is_secret P secret \<longleftrightarrow> (\<exists>n bs. pl_rand P n 32 = Inr bs \<and> secret = ''whsec_'' @ b64_encode (map nat bs))"

definition endpoint_created ::
  "golib \<Rightarrow> platform \<Rightarrow> pgtypes \<Rightarrow> string \<Rightarrow> CreateEndpointInput \<Rightarrow> world \<Rightarrow> endpoint \<Rightarrow> world \<Rightarrow> bool" where
  "endpoint_created gl P ty tenantID input w ep w' \<longleftrightarrow>
     valid_endpoint_input input \<and> validateURL gl (ce_URL input) = None
     \<and> (\<exists>secret now uuid r. is_secret P secret \<and> ep = new_endpoint tenantID input secret now uuid
          \<and> insert_row ty ''endpoints'' endpointColumns (endpoint_params ep) (w_db w) = Inr r
          \<and> row_endpoint r = stored_endpoint ty ep \<and> endpoint_row_ok r
          \<and> w_db w' = (w_db w)(''endpoints'' := w_db w ''endpoints'' @ [r]))"

context pg_server
begin

lemma endpointService_Create_wp:
  "wp P (endpointService_Create gl tenantID input) (\<lambda>r w'. case r of
       Inr (ep, secret) \<Rightarrow> secret = ep_Secret ep \<and> endpoint_created gl P ty tenantID input w ep w'
     | Inl e \<Rightarrow> w_db w' = w_db w \<or> (\<exists>ep. endpoint_created gl P ty tenantID input w ep w')) w"
    (is "wp P _ ?Q w")
proof (cases "CreateEndpointInput_Validate input = [] \<and> validateURL gl (ce_URL input) = None")
  case False
  then show ?thesis by (auto simp: endpointService_Create_def Let_def split: option.split)
next
  case True
  show ?thesis
  proof (cases "pl_rand P (w_tick w) 32")
    case (Inl e)
    with True show ?thesis by (simp add: endpointService_Create_def generateSecret_def)
  next
    case (Inr bs)
    define secret where "secret = ''whsec_'' @ b64_encode (map nat bs)"
    define ep where "ep = new_endpoint tenantID input secret
      (pl_now P (Suc (w_tick w))) (pl_uuid P (Suc (Suc (w_tick w))))"
    have created: "endpoint_created gl P ty tenantID input w ep w'"
      if "insert_row ty ''endpoints'' endpointColumns (endpoint_params ep) (w_db w) = Inr r"
        "w_db w' = (w_db w)(''endpoints'' := w_db w ''endpoints'' @ [r])" for r w'
      using True that insert_endpoint_row [OF that(1)] Inr
      unfolding endpoint_created_def is_secret_def secret_def ep_def endpoint_input_accepted_iff by blast
    have secret: "secret = ep_Secret ep" by (simp add: ep_def new_endpoint_def)
    have "wp P (bind (EndpointRepo_Create ep) (\<lambda>e. case e of
          Some err \<Rightarrow> Ret (Inl (Wrapf ''create endpoint: '' err ''''))
        | None \<Rightarrow> Ret (Inr (ep, secret)))) ?Q (tick (tick (tick w)))"
      unfolding wp_bind
      by (rule EndpointRepo_Create_wp) (auto simp: created secret dest!: spec [of _ ep])
    then show ?thesis
      using True Inr by (simp add: endpointService_Create_def generateSecret_def Let_def flip: secret_def ep_def
        del: append_Cons append_Nil)
  qed
qed

lemma endpointService_Update_wp:
  "wp P (endpointService_Update gl eid tenantID input) (\<lambda>r w'. case r of
       Inr ep \<Rightarrow> endpoint_updated gl ty eid tenantID input w ep w'
     | Inl e \<Rightarrow> w_db w' = w_db w \<or> (\<exists>ep. endpoint_updated gl ty eid tenantID input w ep w')) w"
    (is "wp P _ ?Q w")
  unfolding endpointService_Update_def wp_bind
proof (rule EndpointRepo_GetByID_wp, goal_cases)
  case (1 u r)
  let ?ep = "row_endpoint r"
  have id: "ep_ID ?ep = u" using 1 by (simp add: rows_with_def row_endpoint_def)
  then have uuid: "uuid_in ty (ep_ID ?ep) = Some u" using uuid_canonical [OF 1(1)] by simp
  show ?case
  proof (cases "ep_TenantID ?ep = tenantID \<and> Option.bind (ue_URL input) (validateURL gl) = None")
    case False
    then show ?thesis by (auto split: option.split)
  next
    case True
    then have url: "\<forall>url. ue_URL input = Some url \<longrightarrow> validateURL gl url = None" by auto
    define ep' where "ep' = (apply_update input ?ep)\<lparr>ep_UpdatedAt := pl_now P (Suc (w_tick w))\<rparr>"
    have uuid': "uuid_in ty (ep_ID ep') = Some u" using uuid by (simp add: ep'_def apply_update_def)
    have updated: "endpoint_updated gl ty eid tenantID input w ep' w'"
      if "w_db w' = set_rows ''endpoints'' u (put_endpoint ep') (w_db w)" for w'
      using that 1 True url unfolding endpoint_updated_def owned_row_def ep'_def by blast
    have "wp P (EndpointRepo_Update ep') (\<lambda>e. wp P (case e of
          Some err \<Rightarrow> Ret (Inl (Wrapf ''update endpoint: '' err '''')) | None \<Rightarrow> Ret (Inr ep')) ?Q) (tick (tick w))"
      by (rule EndpointRepo_Update_wp) (use uuid' in \<open>auto simp: updated dest!: spec [of _ ep']\<close>)
    with True show ?thesis by (simp add: Let_def flip: ep'_def)
  qed
qed (simp_all split: sum.split)

lemma endpointService_Delete_wp:
  "wp P (endpointService_Delete eid tenantID) (\<lambda>r w'.
      (w_db w' = w_db w \<and> r \<noteq> None)
      \<or> (\<exists>u row. owned_row ty (w_db w) eid tenantID u row \<and> w_db w' = delete_endpoint u (w_db w))) w"
  unfolding endpointService_Delete_def wp_bind
proof (rule EndpointRepo_GetByID_wp, goal_cases)
  case (1 u r)
  then have owned: "ep_TenantID (row_endpoint r) = tenantID \<Longrightarrow> owned_row ty (w_db w) eid tenantID u r"
    by (simp add: owned_row_def)
  show ?case
    by simp (intro impI, rule EndpointRepo_Delete_wp; use 1 owned in auto)
qed simp_all

end

subsection \<open>Properties\<close>

text \<open>
  C35: registering an endpoint: it succeeds only for a valid input whose URL is an http or https
  URL with a host; the endpoint stored is the one returned, with a fresh secret of 32 random
  bytes, active unless the input says otherwise; a failed call has stored nothing or, when only
  the answer was lost, that same endpoint.
\<close>

theorem create_endpoint_outcomes:
  assumes "pg_server P ty pgnow"
  shows "wp P (endpointService_Create gl tenantID input) (\<lambda>r w'. case r of
       Inr (ep, secret) \<Rightarrow> secret = ep_Secret ep \<and> endpoint_created gl P ty tenantID input w ep w'
     | Inl e \<Rightarrow> w_db w' = w_db w \<or> (\<exists>ep. endpoint_created gl P ty tenantID input w ep w')) w"
  by (rule pg_server.endpointService_Create_wp [OF assms])

definition hook_input :: CreateEndpointInput where
  "hook_input = \<lparr>ce_URL = ''https://x.io/hook'', ce_Description = '''', ce_EventTypes = Some [''order.*''], ce_Active = None\<rparr>"

theorem create_endpoint_outcomes_witness:
  "wp (sim quiet) (endpointService_Create sim_lib ''t'' hook_input) (\<lambda>r w'. case r of
       Inr (ep, secret) \<Rightarrow> secret = ep_Secret ep \<and> endpoint_created sim_lib (sim quiet) sim_types ''t'' hook_input api_world ep w'
     | Inl e \<Rightarrow> w_db w' = w_db api_world
         \<or> (\<exists>ep. endpoint_created sim_lib (sim quiet) sim_types ''t'' hook_input api_world ep w')) api_world"
  by (rule create_endpoint_outcomes [OF sim_pg.pg_server_axioms])

text \<open>
  A change of an endpoint is applied to the row of that identifier, which must be the
  caller's: the given fields replace the old ones, the others stay; the identifier, the owner,
  the secret and the time of creation never change, and neither does any other row.
\<close>

theorem update_endpoint_effect:
  assumes "pg_server P ty pgnow"
  shows "wp P (endpointService_Update gl eid tenantID input) (\<lambda>r w'.
      (case r of Inr ep \<Rightarrow> endpoint_updated gl ty eid tenantID input w ep w'
       | Inl e \<Rightarrow> w_db w' = w_db w \<or> (\<exists>ep. endpoint_updated gl ty eid tenantID input w ep w'))
      \<and> (\<forall>t. t \<noteq> ''endpoints'' \<longrightarrow> w_db w' t = w_db w t)
      \<and> map (\<lambda>r. (r ''id'', r ''tenant_id'', r ''secret'', r ''created_at'')) (w_db w' ''endpoints'')
          = map (\<lambda>r. (r ''id'', r ''tenant_id'', r ''secret'', r ''created_at'')) (w_db w ''endpoints'')) w"
  by (rule wp_mono [OF pg_server.endpointService_Update_wp [OF assms]])
    (auto simp: endpoint_updated_def set_rows_def update_rows_def put_endpoint_def split: sum.splits)

definition switch_off :: UpdateEndpointInput where
  "switch_off = \<lparr>ue_URL = None, ue_Description = None, ue_EventTypes = None, ue_Active = Some False\<rparr>"

theorem update_endpoint_effect_witness:
  "wp (sim quiet) (endpointService_Update sim_lib ''p'' ''t'' switch_off) (\<lambda>r w'.
     map (\<lambda>r. r ''secret'') (w_db w' ''endpoints'') = [VText ''s'', VText ''s'']) api_world"
  by (rule wp_mono [OF update_endpoint_effect [OF sim_pg.pg_server_axioms]])
    (auto simp: api_world_def two_tenants_def endpoint_row_def)

text \<open>
  C36: a tenant cannot change or remove an endpoint of another: whatever fails, both calls return an
  error and leave the database as it was, when no stored endpoint of the identifier is the tenant's.
\<close>

theorem foreign_endpoint_protected:
  assumes "pg_server P ty pgnow"
    and "\<And>u r. uuid_in ty eid = Some u \<Longrightarrow> r \<in> set (rows_with (w_db w) ''endpoints'' ''id'' u) \<Longrightarrow>
      r ''tenant_id'' \<noteq> VText tenantID"
  shows "wp P (endpointService_Update gl eid tenantID input) (\<lambda>r w'. (\<exists>e. r = Inl e) \<and> w_db w' = w_db w) w
    \<and> wp P (endpointService_Delete eid tenantID) (\<lambda>r w'. r \<noteq> None \<and> w_db w' = w_db w) w"
proof -
  have none: "\<not> owned_row ty (w_db w) eid tenantID u r" for u r
  proof
    assume o: "owned_row ty (w_db w) eid tenantID u r"
    then have "r ''tenant_id'' = VText tenantID"
      by (cases "r ''tenant_id''") (auto simp: owned_row_def row_endpoint_def endpoint_row_ok_def)
    with assms(2) [of u r] o show False by (simp add: owned_row_def)
  qed
  show ?thesis
    using none
    by (auto intro!: wp_mono [OF pg_server.endpointService_Update_wp [OF assms(1)]]
        wp_mono [OF pg_server.endpointService_Delete_wp [OF assms(1)]] simp: endpoint_updated_def split: sum.splits)
qed

theorem foreign_endpoint_protected_witness:
  "wp (sim quiet) (endpointService_Delete ''q'' ''t'') (\<lambda>r w'. r \<noteq> None \<and> w_db w' = w_db api_world) api_world"
proof -
  have "wp (sim quiet) (endpointService_Update sim_lib ''q'' ''t'' switch_off)
      (\<lambda>r w'. (\<exists>e. r = Inl e) \<and> w_db w' = w_db api_world) api_world
    \<and> wp (sim quiet) (endpointService_Delete ''q'' ''t'') (\<lambda>r w'. r \<noteq> None \<and> w_db w' = w_db api_world) api_world"
    by (rule foreign_endpoint_protected [OF sim_pg.pg_server_axioms])
      (auto simp: api_world_def two_tenants_def endpoint_row_def rows_with_def sim_types_def split: if_splits)
  then show ?thesis ..
qed

text \<open>
  Changing an endpoint does not repeat the checks of its registration: an input that could
  not be registered, with an empty event type, is accepted as a change.
\<close>

theorem update_skips_validation:
  "(case run (sim quiet) (endpointService_Update sim_lib ''p'' ''t''
        \<lparr>ue_URL = None, ue_Description = None, ue_EventTypes = Some [''''], ue_Active = None\<rparr>) api_world of
     (r, w) \<Rightarrow> (case r of Returns (Inr ep) \<Rightarrow> ep_EventTypes ep = Some [''''] | _ \<Rightarrow> False))
   \<and> CreateEndpointInput_Validate (hook_input\<lparr>ce_EventTypes := Some ['''']\<rparr>) \<noteq> []"
  by code_simp

end
