(* ===== verification/Tenant_Repo.thy ===== *)
theory Tenant_Repo
  imports Pg_Client
begin

text \<open>
  \<^verbatim>\<open>internal/repository/postgres/tenant.go\<close>: tenants by identifier and by API key (both
  unique).
\<close>

definition tenantColumns :: "string list" where
  "tenantColumns = [''id'', ''name'', ''api_key'', ''rate_limit_per_minute'', ''max_retries'',
     ''retry_base_ms'', ''created_at'', ''updated_at'']"

definition tenant_params :: "tenant \<Rightarrow> sqlval list" where
  "tenant_params tn =
     [VText (tn_ID tn), VText (tn_Name tn), VText (tn_APIKey tn), VInt (tn_RateLimitPerMinute tn),
      VInt (tn_MaxRetries tn), VInt (tn_RetryBaseMs tn), VTime (tn_CreatedAt tn), VTime (tn_UpdatedAt tn)]"

definition tenant_Scan :: "sqlval list \<Rightarrow> gerr + tenant" where
  "tenant_Scan vs = (case vs of
     [i, n, k, r, m, b, c, u] \<Rightarrow>
       if list_all is_text [i, n, k] \<and> list_all is_int [r, m, b] \<and> list_all is_time [c, u]
       then Inr \<lparr>tn_ID = text_of i, tn_Name = text_of n, tn_APIKey = text_of k,
              tn_RateLimitPerMinute = int_of r, tn_MaxRetries = int_of m, tn_RetryBaseMs = int_of b,
              tn_CreatedAt = time_of c, tn_UpdatedAt = time_of u\<rparr>
       else Inl scan_error
   | _ \<Rightarrow> Inl scan_error)"

definition TenantRepo_scanTenant :: "gerr + tenant \<Rightarrow> gerr + tenant" where
  "TenantRepo_scanTenant res = (case res of
     Inl err \<Rightarrow> if errors_is err ErrNoRows then Inl ErrNotFound else Inl (Wrapf ''scan tenant: '' err '''')
   | Inr tn \<Rightarrow> Inr tn)"

definition TenantRepo_Create :: "tenant \<Rightarrow> gerr option prog" where
  "TenantRepo_Create tn =
     PgExec (Insert ''tenants'' tenantColumns (tenant_params tn)) (\<lambda>r. Ret (case r of
       Inl err \<Rightarrow>
         if errors_as_pg err = Some ''23505'' then Some ErrAlreadyExists
         else Some (Wrapf ''insert tenant: '' err '''')
     | Inr n \<Rightarrow> None))"

definition TenantRepo_GetByID :: "string \<Rightarrow> (gerr + tenant) prog" where
  "TenantRepo_GetByID tid =
     bind (pg_QueryRow (Select tenantColumns ''tenants'' (Eq ''id'' (VText tid)) None None) tenant_Scan)
       (\<lambda>r. Ret (TenantRepo_scanTenant r))"

definition TenantRepo_GetByAPIKey :: "string \<Rightarrow> (gerr + tenant) prog" where
  "TenantRepo_GetByAPIKey apiKey =
     bind (pg_QueryRow (Select tenantColumns ''tenants'' (Eq ''api_key'' (VText apiKey)) None None) tenant_Scan)
       (\<lambda>r. Ret (TenantRepo_scanTenant r))"

definition TenantRepo_Update :: "tenant \<Rightarrow> gerr option prog" where
  "TenantRepo_Update tn =
     PgExec (Update ''tenants'' [(''name'', Param (VText (tn_Name tn))),
         (''rate_limit_per_minute'', Param (VInt (tn_RateLimitPerMinute tn))),
         (''max_retries'', Param (VInt (tn_MaxRetries tn))),
         (''retry_base_ms'', Param (VInt (tn_RetryBaseMs tn))),
         (''updated_at'', Param (VTime (tn_UpdatedAt tn)))]
         (Eq ''id'' (VText (tn_ID tn)))) (\<lambda>r. Ret (case r of
       Inl err \<Rightarrow> Some (Wrapf ''update tenant: '' err '''')
     | Inr n \<Rightarrow> if n = 0 then Some ErrNotFound else None))"

subsection \<open>Rows and structs\<close>

definition row_tenant :: "row \<Rightarrow> tenant" where
  "row_tenant r = \<lparr>tn_ID = text_of (r ''id''), tn_Name = text_of (r ''name''),
     tn_APIKey = text_of (r ''api_key''), tn_RateLimitPerMinute = int_of (r ''rate_limit_per_minute''),
     tn_MaxRetries = int_of (r ''max_retries''), tn_RetryBaseMs = int_of (r ''retry_base_ms''),
     tn_CreatedAt = time_of (r ''created_at''), tn_UpdatedAt = time_of (r ''updated_at'')\<rparr>"

definition tenant_row_ok :: "row \<Rightarrow> bool" where
  "tenant_row_ok r \<longleftrightarrow>
     list_all (\<lambda>c. is_text (r c)) [''id'', ''name'', ''api_key'']
     \<and> list_all (\<lambda>c. is_int (r c)) [''rate_limit_per_minute'', ''max_retries'', ''retry_base_ms'']
     \<and> list_all (\<lambda>c. is_time (r c)) [''created_at'', ''updated_at'']"

lemma tenant_Scan_row:
  "tenant_Scan (map r tenantColumns) = (if tenant_row_ok r then Inr (row_tenant r) else Inl scan_error)"
  by (simp add: tenant_Scan_def tenantColumns_def tenant_row_ok_def row_tenant_def)

definition stored_tenant :: "pgtypes \<Rightarrow> tenant \<Rightarrow> tenant" where
  "stored_tenant ty tn = tn\<lparr>tn_ID := the (uuid_in ty (tn_ID tn)),
     tn_CreatedAt := micros (tn_CreatedAt tn), tn_UpdatedAt := micros (tn_UpdatedAt tn)\<rparr>"

lemma store_tenant:
  assumes "store_all ty tenants_table (zip tenantColumns (tenant_params tn)) (\<lambda>c. VNull) = Inr r"
  shows "tenant_row_ok r \<and> row_tenant r = stored_tenant ty tn
    \<and> r ''id'' = VText (the (uuid_in ty (tn_ID tn))) \<and> r ''api_key'' = VText (tn_APIKey tn)
    \<and> uuid_in ty (tn_ID tn) \<noteq> None \<and> int4_ok (tn_RetryBaseMs tn)"
  using assms
  by (auto simp: tenantColumns_def tenant_params_def store_def row_simps
      tenant_row_ok_def row_tenant_def stored_tenant_def split: sum.splits option.splits if_splits)

lemma insert_tenant_row:
  "insert_row ty ''tenants'' tenantColumns (tenant_params tn) db = Inr r \<Longrightarrow>
     tenant_row_ok r \<and> row_tenant r = stored_tenant ty tn
     \<and> r ''id'' = VText (the (uuid_in ty (tn_ID tn))) \<and> r ''api_key'' = VText (tn_APIKey tn)
     \<and> uuid_in ty (tn_ID tn) \<noteq> None
     \<and> rows_with db ''tenants'' ''api_key'' (tn_APIKey tn) = [] \<and> int4_ok (tn_RetryBaseMs tn)"
  by (auto simp: insert_row_def violates_unique_def rows_with_def filter_empty_conv list_ex_iff
      dest!: store_tenant split: sum.splits if_splits)

definition put_tenant :: "tenant \<Rightarrow> row \<Rightarrow> row" where
  "put_tenant tn r = r(''name'' := VText (tn_Name tn),
     ''rate_limit_per_minute'' := VInt (tn_RateLimitPerMinute tn),
     ''max_retries'' := VInt (tn_MaxRetries tn), ''retry_base_ms'' := VInt (tn_RetryBaseMs tn),
     ''updated_at'' := VTime (micros (tn_UpdatedAt tn)))"

definition tenant_refusal :: "tenant \<Rightarrow> string option" where
  "tenant_refusal tn =
     (if \<not> text_ok (tn_Name tn) then Some ''22021''
      else if utf8_chars (tn_Name tn) > 255 then Some ''22001''
      else if \<not> int4_ok (tn_RateLimitPerMinute tn) \<or> \<not> int4_ok (tn_MaxRetries tn)
        \<or> \<not> int4_ok (tn_RetryBaseMs tn) then Some ''22003''
      else None)"

lemma store_tenant_update:
  "store_all ty tenants_table (map (\<lambda>(c, s). (c, set_value now s))
     [(''name'', Param (VText (tn_Name tn))),
      (''rate_limit_per_minute'', Param (VInt (tn_RateLimitPerMinute tn))),
      (''max_retries'', Param (VInt (tn_MaxRetries tn))),
      (''retry_base_ms'', Param (VInt (tn_RetryBaseMs tn))),
      (''updated_at'', Param (VTime (tn_UpdatedAt tn)))]) r
   = (case tenant_refusal tn of Some code \<Rightarrow> Inl code | None \<Rightarrow> Inr (put_tenant tn r))"
  by (cases "text_ok (tn_Name tn)"; cases "utf8_chars (tn_Name tn) \<le> 255";
      cases "int4_ok (tn_RateLimitPerMinute tn)"; cases "int4_ok (tn_MaxRetries tn)";
      cases "int4_ok (tn_RetryBaseMs tn)")
    (simp_all add: store_def row_simps set_value_def tenant_refusal_def put_tenant_def)

subsection \<open>Contracts\<close>

text \<open>A condition on a text column: the parameter must be well-formed and not too long.\<close>

context pg_server
begin

lemma TenantRepo_scan_first:
  assumes "rs = [] \<Longrightarrow> Q (Inl ErrNotFound) (tick w)"
    and "\<And>r. r \<in> set rs \<Longrightarrow> tenant_row_ok r \<Longrightarrow> Q (Inr (row_tenant r)) (tick w)"
    and "\<And>e. \<not> errors_is e ErrNotFound \<Longrightarrow> Q (Inl e) (tick w)"
  shows "Q (TenantRepo_scanTenant (case map (\<lambda>r. map r tenantColumns) (window None rs) of
      [] \<Rightarrow> Inl ErrNoRows | row # rows \<Rightarrow> tenant_Scan row)) (tick w)"
proof (cases rs)
  case Nil
  then show ?thesis using assms(1) by (simp add: window_def TenantRepo_scanTenant_def)
next
  case (Cons r rs')
  then show ?thesis
    using assms(2,3) by (simp add: window_def TenantRepo_scanTenant_def tenant_Scan_row scan_error_def)
qed

lemma TenantRepo_GetByID_wp:
  assumes "\<And>u r. uuid_in ty tid = Some u \<Longrightarrow> r \<in> set (rows_with (w_db w) ''tenants'' ''id'' u) \<Longrightarrow>
      tenant_row_ok r \<Longrightarrow> Q (Inr (row_tenant r)) (tick w)"
    and "\<And>u. uuid_in ty tid = Some u \<Longrightarrow> rows_with (w_db w) ''tenants'' ''id'' u = [] \<Longrightarrow>
      Q (Inl ErrNotFound) (tick w)"
    and "\<And>e. \<not> errors_is e ErrNotFound \<Longrightarrow> Q (Inl e) (tick w)"
  shows "wp P (TenantRepo_GetByID tid) Q w"
  unfolding TenantRepo_GetByID_def pg_QueryRow_def wp_bind
proof (rule select_uuid_wp, goal_cases)
  case 1
  show ?case by (simp add: row_simps)
next
  case (2 e)
  then show ?case by (auto simp: TenantRepo_scanTenant_def intro: assms)
next
  case (3 u rs)
  have hits: "set rs = set (rows_with (w_db w) ''tenants'' ''id'' u)" using 3(2) by (rule mset_eq_setD)
  have "Q (TenantRepo_scanTenant (case map (\<lambda>r. map r tenantColumns) (window None rs) of
      [] \<Rightarrow> Inl ErrNoRows | row # rows \<Rightarrow> tenant_Scan row)) (tick w)"
    by (rule TenantRepo_scan_first [of rs Q w]) (use hits 3(1) assms in auto)
  then show ?case by simp
qed

lemma TenantRepo_GetByAPIKey_wp:
  assumes "\<And>r. r \<in> set (rows_with (w_db w) ''tenants'' ''api_key'' key) \<Longrightarrow>
      tenant_row_ok r \<Longrightarrow> Q (Inr (row_tenant r)) (tick w)"
    and "rows_with (w_db w) ''tenants'' ''api_key'' key = [] \<Longrightarrow> Q (Inl ErrNotFound) (tick w)"
    and "\<And>e. \<not> errors_is e ErrNotFound \<Longrightarrow> Q (Inl e) (tick w)"
  shows "wp P (TenantRepo_GetByAPIKey key) Q w"
  unfolding TenantRepo_GetByAPIKey_def pg_QueryRow_def wp_bind
proof (rule pg_query)
  let ?now = "pgnow (w_tick w)" and ?q = "Select tenantColumns ''tenants'' (Eq ''api_key'' (VText key)) None None"
  fix r
  assume r: "query_obeys ty ?now ?q (w_db w) r"
  show "wp P (Ret (case r of Inl err \<Rightarrow> Inl err | Inr [] \<Rightarrow> Inl ErrNoRows
      | Inr (row # rows) \<Rightarrow> tenant_Scan row)) (\<lambda>a. wp P (Ret (TenantRepo_scanTenant a)) Q) (tick w)"
  proof (cases r)
    case (Inl e)
    then have "\<not> errors_is e ErrNoRows" "\<not> errors_is e ErrNotFound"
      using r infra_not_sentinel(5) infra_not_found
      by (auto simp: query_obeys_def sql_rows_def split: option.splits)
    then show ?thesis using Inl assms(3) by (simp add: TenantRepo_scanTenant_def)
  next
    case (Inr out)
    then have ok: "cond_error ty tenants_table (Eq ''api_key'' (VText key)) = None"
      using r by (auto simp: query_obeys_def query_error_def split: option.splits)
    then have hit: "holds ty tenants_table ?now (Eq ''api_key'' (VText key)) = (\<lambda>r. r ''api_key'' = VText key)"
      by (auto simp: row_simps split: sum.splits if_splits)
    obtain rs where rs: "out = map (\<lambda>r. map r tenantColumns) (window None rs)"
      "mset rs = mset (rows_with (w_db w) ''tenants'' ''api_key'' key)"
      using r Inr by (auto simp: query_obeys_def query_error_def ok hit sql_rows_def rows_with_def
          simp del: holds.simps cond_error.simps)
    have hits: "set rs = set (rows_with (w_db w) ''tenants'' ''api_key'' key)" using rs(2) by (rule mset_eq_setD)
    have "Q (TenantRepo_scanTenant (case map (\<lambda>r. map r tenantColumns) (window None rs) of
        [] \<Rightarrow> Inl ErrNoRows | row # rows \<Rightarrow> tenant_Scan row)) (tick w)"
      by (rule TenantRepo_scan_first [of rs Q w]) (use hits assms in auto)
    then show ?thesis by (simp add: Inr rs(1))
  qed
qed

lemma TenantRepo_Create_wp:
  assumes "\<And>r. insert_row ty ''tenants'' tenantColumns (tenant_params tn) (w_db w) = Inr r \<Longrightarrow>
      Q None (tick (w\<lparr>w_db := (w_db w)(''tenants'' := w_db w ''tenants'' @ [r])\<rparr>))"
    and "insert_row ty ''tenants'' tenantColumns (tenant_params tn) (w_db w) = Inl ''23505'' \<Longrightarrow>
      Q (Some ErrAlreadyExists) (tick w)"
    and "\<And>e. Q (Some (Wrapf ''insert tenant: '' e '''')) (tick w)"
    and "\<And>e r. insert_row ty ''tenants'' tenantColumns (tenant_params tn) (w_db w) = Inr r \<Longrightarrow>
      Q (Some (Wrapf ''insert tenant: '' e ''''))
        (tick (w\<lparr>w_db := (w_db w)(''tenants'' := w_db w ''tenants'' @ [r])\<rparr>))"
  shows "wp P (TenantRepo_Create tn) Q w"
  unfolding TenantRepo_Create_def
  by (rule insert_wp) (use assms in \<open>auto simp: infra_not_sentinel(6) split: sum.split\<close>)

lemma TenantRepo_Update_wp:
  assumes "\<And>u. tenant_refusal tn = None \<Longrightarrow> uuid_in ty (tn_ID tn) = Some u \<Longrightarrow>
      rows_with (w_db w) ''tenants'' ''id'' u \<noteq> [] \<Longrightarrow>
      Q None (tick (w\<lparr>w_db := set_rows ''tenants'' u (put_tenant tn) (w_db w)\<rparr>))"
    and "\<And>u. uuid_in ty (tn_ID tn) = Some u \<Longrightarrow> rows_with (w_db w) ''tenants'' ''id'' u = [] \<Longrightarrow>
      Q (Some ErrNotFound) (tick w)"
    and "\<And>e db. \<not> errors_is e ErrNotFound \<Longrightarrow> db = w_db w \<or> (\<exists>u. tenant_refusal tn = None \<and>
        uuid_in ty (tn_ID tn) = Some u \<and> db = set_rows ''tenants'' u (put_tenant tn) (w_db w)) \<Longrightarrow>
      Q (Some e) (tick (w\<lparr>w_db := db\<rparr>))"
  shows "wp P (TenantRepo_Update tn) Q w"
  unfolding TenantRepo_Update_def
proof (rule update_uuid_code_wp [where refusal = "tenant_refusal tn" and f = "\<lambda>now. put_tenant tn"], goal_cases)
  case (2 now r)
  show ?case unfolding pg_schema_simps by (rule store_tenant_update)
qed (use assms in \<open>auto simp: row_simps\<close>)

end

subsection \<open>Properties\<close>

text \<open>
  The API key of a created tenant identifies it: after a successful Create, GetByAPIKey
  returns that tenant, as stored, and never reports it missing.
\<close>

theorem tenant_create_get_by_key:
  assumes "pg_server P ty pgnow"
  shows "wp P (bind (TenantRepo_Create tn) (\<lambda>e. bind (TenantRepo_GetByAPIKey (tn_APIKey tn)) (\<lambda>r. Ret (e, r))))
    (\<lambda>(e, r) w'. e = None \<longrightarrow> r = Inr (stored_tenant ty tn)
       \<or> (\<exists>err. r = Inl err \<and> \<not> errors_is err ErrNotFound)) w"
  unfolding wp_bind
proof (rule pg_server.TenantRepo_Create_wp [OF assms], goal_cases)
  case (1 row)
  note row = insert_tenant_row [OF 1]
  show ?case
    by (rule pg_server.TenantRepo_GetByAPIKey_wp [OF assms])
      (use row in \<open>auto simp: rows_with_def filter_empty_conv split: if_splits\<close>)
qed (rule pg_server.TenantRepo_GetByAPIKey_wp [OF assms]; auto)+

definition sample_tenant :: tenant where
  "sample_tenant = \<lparr>tn_ID = ''t'', tn_Name = ''Acme'', tn_APIKey = ''whk_1'', tn_RateLimitPerMinute = 100,
     tn_MaxRetries = 5, tn_RetryBaseMs = 1000, tn_CreatedAt = 1700000000000000123,
     tn_UpdatedAt = 1700000000000000123\<rparr>"

lemma tenant_create_get_example:
  "fst (run (sim quiet) (bind (TenantRepo_Create sample_tenant) (\<lambda>e. bind (TenantRepo_GetByAPIKey ''whk_1'')
       (\<lambda>r. Ret (e, r)))) empty_world) = Returns (None, Inr (stored_tenant sim_types sample_tenant))"
  by code_simp

theorem tenant_create_get_by_key_witness:
  "wp (sim quiet) (bind (TenantRepo_Create sample_tenant) (\<lambda>e. bind (TenantRepo_GetByAPIKey (tn_APIKey sample_tenant))
       (\<lambda>r. Ret (e, r))))
     (\<lambda>(e, r) w'. e = None \<longrightarrow> r = Inr (stored_tenant sim_types sample_tenant)
       \<or> (\<exists>err. r = Inl err \<and> \<not> errors_is err ErrNotFound)) empty_world"
  by (rule tenant_create_get_by_key [OF sim_pg.pg_server_axioms])

end
