(* ===== verification/Tenant_Service.thy ===== *)
theory Tenant_Service
  imports Tenant_Repo Base64 Event_Service
begin

text \<open>
  \<^verbatim>\<open>internal/service/tenant.go\<close>: creation, lookup and change of tenants. The limits the
  service keeps are what the backoff of the dispatcher needs.
\<close>

definition generateAPIKey :: "(gerr + string) prog" where
  "generateAPIKey = RandRead 32 (\<lambda>r. case r of
     Inl err \<Rightarrow> Ret (Inl err)
   | Inr b \<Rightarrow> Ret (Inr (''whpk_live_'' @ b64_encode (map nat b))))"

definition or_default :: "int \<Rightarrow> int \<Rightarrow> int" where
  "or_default d x = (if x = 0 then d else x)"

definition new_tenant :: "CreateTenantInput \<Rightarrow> string \<Rightarrow> time \<Rightarrow> string \<Rightarrow> tenant" where
  "new_tenant input apiKey now uuid =
     \<lparr>tn_ID = uuid, tn_Name = ct_Name input, tn_APIKey = apiKey,
      tn_RateLimitPerMinute = or_default 1000 (ct_RateLimitPerMinute input),
      tn_MaxRetries = or_default 5 (ct_MaxRetries input),
      tn_RetryBaseMs = or_default 1000 (ct_RetryBaseMs input),
      tn_CreatedAt = now, tn_UpdatedAt = now\<rparr>"

definition tenantService_Create :: "CreateTenantInput \<Rightarrow> (gerr + tenant \<times> string) prog" where
  "tenantService_Create input =
     (let errs = CreateTenantInput_Validate input in
      if errs \<noteq> [] then Ret (Inl (validation_failure errs))
      else
        bind generateAPIKey (\<lambda>g. case g of
          Inl err \<Rightarrow> Ret (Inl (Wrapf ''generate api key: '' err ''''))
        | Inr apiKey \<Rightarrow>
            Now (\<lambda>now. NewUUID (\<lambda>uuid.
              let tn = new_tenant input apiKey now uuid in
              bind (TenantRepo_Create tn) (\<lambda>e. case e of
                Some err \<Rightarrow> Ret (Inl (Wrapf ''create tenant: '' err ''''))
              | None \<Rightarrow> Ret (Inr (tn, apiKey)))))))"

definition tenantService_GetByID :: "string \<Rightarrow> (gerr + tenant) prog" where
  "tenantService_GetByID tid =
     bind (TenantRepo_GetByID tid) (\<lambda>r. case r of
       Inl err \<Rightarrow> Ret (Inl (Wrapf ''get tenant by id: '' err ''''))
     | Inr tn \<Rightarrow> Ret (Inr tn))"

definition tenantService_GetByAPIKey :: "string \<Rightarrow> (gerr + tenant) prog" where
  "tenantService_GetByAPIKey apiKey =
     bind (TenantRepo_GetByAPIKey apiKey) (\<lambda>r. case r of
       Inl err \<Rightarrow> Ret (Inl (Wrapf ''get tenant by api key: '' err ''''))
     | Inr tn \<Rightarrow> Ret (Inr tn))"

definition invalid_tenant :: "string \<Rightarrow> gerr" where
  "invalid_tenant msg = Wrapf '''' ErrValidation ('': '' @ msg)"

text \<open>The four optional fields, in the order of the code; the first invalid one ends the call.\<close>

definition set_name :: "string option \<Rightarrow> tenant \<Rightarrow> gerr + tenant" where
  "set_name v tn = (case v of None \<Rightarrow> Inr tn
     | Some name \<Rightarrow> if name = '''' \<or> length name > 255 then Inl (invalid_tenant ''name must be 1-255 characters'')
         else Inr (tn\<lparr>tn_Name := name\<rparr>))"

definition set_rate_limit :: "int option \<Rightarrow> tenant \<Rightarrow> gerr + tenant" where
  "set_rate_limit v tn = (case v of None \<Rightarrow> Inr tn
     | Some n \<Rightarrow> if n < 0 then Inl (invalid_tenant ''rate_limit_per_minute must be non-negative'')
         else Inr (tn\<lparr>tn_RateLimitPerMinute := n\<rparr>))"

definition set_max_retries :: "int option \<Rightarrow> tenant \<Rightarrow> gerr + tenant" where
  "set_max_retries v tn = (case v of None \<Rightarrow> Inr tn
     | Some n \<Rightarrow> if n < 0 \<or> n > 10 then Inl (invalid_tenant ''max_retries must be between 0 and 10'')
         else Inr (tn\<lparr>tn_MaxRetries := n\<rparr>))"

definition set_retry_base :: "int option \<Rightarrow> tenant \<Rightarrow> gerr + tenant" where
  "set_retry_base v tn = (case v of None \<Rightarrow> Inr tn
     | Some n \<Rightarrow> if n < 100 then Inl (invalid_tenant ''retry_base_ms must be at least 100'')
         else Inr (tn\<lparr>tn_RetryBaseMs := n\<rparr>))"

definition then_do :: "gerr + 'a \<Rightarrow> ('a \<Rightarrow> gerr + 'b) \<Rightarrow> gerr + 'b" where
  "then_do r f = (case r of Inl e \<Rightarrow> Inl e | Inr a \<Rightarrow> f a)"

definition update_fields :: "UpdateTenantInput \<Rightarrow> tenant \<Rightarrow> gerr + tenant" where
  "update_fields input tn =
     then_do (set_name (ut_Name input) tn) (\<lambda>tn.
     then_do (set_rate_limit (ut_RateLimitPerMinute input) tn) (\<lambda>tn.
     then_do (set_max_retries (ut_MaxRetries input) tn) (\<lambda>tn.
     set_retry_base (ut_RetryBaseMs input) tn)))"

definition tenantService_Update :: "string \<Rightarrow> UpdateTenantInput \<Rightarrow> (gerr + tenant) prog" where
  "tenantService_Update tid input =
     bind (TenantRepo_GetByID tid) (\<lambda>r. case r of
       Inl err \<Rightarrow> Ret (Inl (Wrapf ''get tenant: '' err ''''))
     | Inr tn \<Rightarrow>
         (case update_fields input tn of
            Inl err \<Rightarrow> Ret (Inl err)
          | Inr tn1 \<Rightarrow>
              Now (\<lambda>now.
                let tn' = tn1\<lparr>tn_UpdatedAt := now\<rparr> in
                bind (TenantRepo_Update tn') (\<lambda>e. case e of
                  Some err \<Rightarrow> Ret (Inl (Wrapf ''update tenant: '' err ''''))
                | None \<Rightarrow> Ret (Inr tn')))))"

subsection \<open>The limits of a tenant\<close>

definition tenant_ok :: "tenant \<Rightarrow> bool" where
  "tenant_ok tn \<longleftrightarrow> tn_Name tn \<noteq> '''' \<and> length (tn_Name tn) \<le> 255 \<and> 0 \<le> tn_RateLimitPerMinute tn
     \<and> 0 \<le> tn_MaxRetries tn \<and> tn_MaxRetries tn \<le> 10 \<and> 100 \<le> tn_RetryBaseMs tn"

definition tenants_ok :: "database \<Rightarrow> bool" where
  "tenants_ok db \<longleftrightarrow> (\<forall>r \<in> set (db ''tenants''). tenant_row_ok r \<and> tenant_ok (row_tenant r)
     \<and> tn_RetryBaseMs (row_tenant r) < 2 ^ 31)"

lemma new_tenant_ok: "CreateTenantInput_Validate input = [] \<Longrightarrow> tenant_ok (new_tenant input k now u)"
  by (auto simp: tenant_input_accepted_iff valid_tenant_input_def tenant_ok_def new_tenant_def or_default_def)

lemma update_fields_ok:
  assumes "update_fields input tn = Inr tn'" "tenant_ok tn"
  shows "tenant_ok tn'" "tn_ID tn' = tn_ID tn" "tn_APIKey tn' = tn_APIKey tn" "tn_CreatedAt tn' = tn_CreatedAt tn"
  using assms
  by (auto simp: update_fields_def then_do_def set_name_def set_rate_limit_def set_max_retries_def
      set_retry_base_def tenant_ok_def split: option.splits sum.splits if_splits)

lemma tenants_ok_insert:
  assumes "tenants_ok db" "insert_row ty ''tenants'' tenantColumns (tenant_params tn) db = Inr r" "tenant_ok tn"
  shows "tenants_ok (db(''tenants'' := db ''tenants'' @ [r]))"
proof -
  have "tenant_ok (stored_tenant ty tn)" using assms(3) by (simp add: tenant_ok_def stored_tenant_def)
  then show ?thesis
    using assms(1) insert_tenant_row [OF assms(2)]
    by (auto simp: tenants_ok_def int4_ok_def stored_tenant_def)
qed

lemma row_tenant_put:
  "tenant_row_ok r \<Longrightarrow> tenant_row_ok (put_tenant tn r) \<and> row_tenant (put_tenant tn r) = (row_tenant r)
     \<lparr>tn_Name := tn_Name tn, tn_RateLimitPerMinute := tn_RateLimitPerMinute tn,
      tn_MaxRetries := tn_MaxRetries tn, tn_RetryBaseMs := tn_RetryBaseMs tn,
      tn_UpdatedAt := micros (tn_UpdatedAt tn)\<rparr>"
  by (auto simp: put_tenant_def tenant_row_ok_def row_tenant_def)

lemma tenants_ok_update:
  assumes "tenants_ok db" "tenant_refusal tn = None" "tenant_ok tn"
  shows "tenants_ok (set_rows ''tenants'' u (put_tenant tn) db)"
proof -
  have "tenant_ok (row_tenant (put_tenant tn r))" "tn_RetryBaseMs (row_tenant (put_tenant tn r)) < 2 ^ 31"
    "tenant_row_ok (put_tenant tn r)" if "tenant_row_ok r" for r
    using assms(2,3) row_tenant_put [OF that, of tn]
    by (auto simp: tenant_ok_def tenant_refusal_def int4_ok_def split: if_splits)
  then show ?thesis
    using assms(1) by (auto simp: tenants_ok_def set_rows_def update_rows_def)
qed

subsection \<open>Contracts\<close>

text \<open>An API key: the prefix and the text of 32 random bytes.\<close>

definition is_api_key :: "platform \<Rightarrow> string \<Rightarrow> bool" where
  "is_api_key P key \<longleftrightarrow> (\<exists>n bs. pl_rand P n 32 = Inr bs \<and> key = ''whpk_live_'' @ b64_encode (map nat bs))"

definition tenant_created :: "platform \<Rightarrow> pgtypes \<Rightarrow> CreateTenantInput \<Rightarrow> world \<Rightarrow> tenant \<Rightarrow> world \<Rightarrow> bool" where
  "tenant_created P ty input w tn w' \<longleftrightarrow> valid_tenant_input input
     \<and> (\<exists>key now uuid r. is_api_key P key \<and> tn = new_tenant input key now uuid
          \<and> insert_row ty ''tenants'' tenantColumns (tenant_params tn) (w_db w) = Inr r
          \<and> row_tenant r = stored_tenant ty tn
          \<and> w_db w' = (w_db w)(''tenants'' := w_db w ''tenants'' @ [r]))"

definition tenant_updated :: "pgtypes \<Rightarrow> string \<Rightarrow> UpdateTenantInput \<Rightarrow> world \<Rightarrow> tenant \<Rightarrow> world \<Rightarrow> bool" where
  "tenant_updated ty tid input w tn w' \<longleftrightarrow>
     (\<exists>u r tn1 now. uuid_in ty tid = Some u \<and> r \<in> set (rows_with (w_db w) ''tenants'' ''id'' u)
        \<and> update_fields input (row_tenant r) = Inr tn1 \<and> tn = tn1\<lparr>tn_UpdatedAt := now\<rparr>
        \<and> tenant_refusal tn = None \<and> w_db w' = set_rows ''tenants'' u (put_tenant tn) (w_db w))"

context pg_server
begin

lemma tenantService_Create_wp:
  "wp P (tenantService_Create input) (\<lambda>r w'. case r of
       Inr (tn, key) \<Rightarrow> key = tn_APIKey tn \<and> tenant_created P ty input w tn w'
     | Inl e \<Rightarrow> w_db w' = w_db w \<or> (\<exists>tn. tenant_created P ty input w tn w')) w"
    (is "wp P _ ?Q w")
proof (cases "CreateTenantInput_Validate input = []")
  case False
  then show ?thesis by (simp add: tenantService_Create_def Let_def)
next
  case True
  show ?thesis
  proof (cases "pl_rand P (w_tick w) 32")
    case (Inl e)
    with True show ?thesis by (simp add: tenantService_Create_def generateAPIKey_def)
  next
    case (Inr bs)
    define key where "key = ''whpk_live_'' @ b64_encode (map nat bs)"
    define tn where "tn = new_tenant input key (pl_now P (Suc (w_tick w))) (pl_uuid P (Suc (Suc (w_tick w))))"
    have created: "tenant_created P ty input w tn w'"
      if "insert_row ty ''tenants'' tenantColumns (tenant_params tn) (w_db w) = Inr r"
        "w_db w' = (w_db w)(''tenants'' := w_db w ''tenants'' @ [r])" for r w'
      using True that insert_tenant_row [OF that(1)] Inr
      unfolding tenant_created_def is_api_key_def key_def tn_def tenant_input_accepted_iff by blast
    have key: "key = tn_APIKey tn" by (simp add: tn_def new_tenant_def)
    have "wp P (bind (TenantRepo_Create tn) (\<lambda>e. case e of
          Some err \<Rightarrow> Ret (Inl (Wrapf ''create tenant: '' err ''''))
        | None \<Rightarrow> Ret (Inr (tn, key)))) ?Q (tick (tick (tick w)))"
      unfolding wp_bind
      by (rule TenantRepo_Create_wp) (auto simp: created key dest!: spec [of _ tn])
    then show ?thesis
      using True Inr by (simp add: tenantService_Create_def generateAPIKey_def Let_def flip: key_def tn_def
        del: append_Cons append_Nil)
  qed
qed

lemma tenantService_Update_wp:
  "wp P (tenantService_Update tid input) (\<lambda>r w'. case r of
       Inr tn \<Rightarrow> tenant_updated ty tid input w tn w'
     | Inl e \<Rightarrow> w_db w' = w_db w \<or> (\<exists>tn. tenant_updated ty tid input w tn w')) w"
    (is "wp P _ ?Q w")
  unfolding tenantService_Update_def wp_bind
proof (rule TenantRepo_GetByID_wp, goal_cases)
  case (1 u r)
  show ?case
  proof (cases "update_fields input (row_tenant r)")
    case (Inl e)
    then show ?thesis by simp
  next
    case (Inr tn1)
    define tn where "tn = tn1\<lparr>tn_UpdatedAt := pl_now P (Suc (w_tick w))\<rparr>"
    have "tn_ID tn = u"
      using Inr 1 by (auto simp: tn_def update_fields_def then_do_def set_name_def set_rate_limit_def
          set_max_retries_def set_retry_base_def rows_with_def row_tenant_def
          split: option.splits sum.splits if_splits)
    then have uuid: "uuid_in ty (tn_ID tn) = Some u" using uuid_canonical [OF 1(1)] by simp
    have updated: "tenant_updated ty tid input w tn w'"
      if "w_db w' = set_rows ''tenants'' u (put_tenant tn) (w_db w)" "tenant_refusal tn = None" for w'
      using that 1 Inr unfolding tenant_updated_def tn_def by blast
    have "wp P (TenantRepo_Update tn) (\<lambda>e. wp P (case e of
          Some err \<Rightarrow> Ret (Inl (Wrapf ''update tenant: '' err '''')) | None \<Rightarrow> Ret (Inr tn)) ?Q) (tick (tick w))"
      by (rule TenantRepo_Update_wp) (use uuid in \<open>auto simp: updated dest!: spec [of _ tn]\<close>)
    with Inr show ?thesis by (simp add: Let_def flip: tn_def)
  qed
qed (simp_all split: sum.split)

end

lemma tenant_created_ok: "tenant_created P ty input w tn w' \<Longrightarrow> tenants_ok (w_db w) \<Longrightarrow> tenants_ok (w_db w')"
  using tenants_ok_insert new_tenant_ok by (auto simp: tenant_created_def tenant_input_accepted_iff)

lemma tenant_updated_ok:
  assumes "tenant_updated ty tid input w tn w'" "tenants_ok (w_db w)"
  shows "tenants_ok (w_db w')"
proof -
  from assms(1) obtain u r tn1 now where *: "r \<in> set (rows_with (w_db w) ''tenants'' ''id'' u)"
    "update_fields input (row_tenant r) = Inr tn1" "tn = tn1\<lparr>tn_UpdatedAt := now\<rparr>" "tenant_refusal tn = None"
    "w_db w' = set_rows ''tenants'' u (put_tenant tn) (w_db w)"
    by (auto simp: tenant_updated_def)
  then have "tenant_ok (row_tenant r)" using assms(2) by (auto simp: tenants_ok_def rows_with_def)
  then have "tenant_ok tn" using update_fields_ok(1) [OF *(2)] *(3) by (simp add: tenant_ok_def)
  with tenants_ok_update [OF assms(2) *(4)] *(5) show ?thesis by simp
qed

subsection \<open>Properties\<close>

text \<open>
  The tenants keep their limits: whatever the inputs and whatever the database answers,
  neither creating nor changing a tenant can store one without a name of at most 255 bytes, with
  a negative rate, with retries outside 0 to 10, or with a base delay outside 100 ms to the
  range of the column.
\<close>

theorem tenant_limits_invariant:
  assumes "pg_server P ty pgnow" "tenants_ok (w_db w)"
  shows "wp P (tenantService_Create create) (\<lambda>r w'. tenants_ok (w_db w')) w
    \<and> wp P (tenantService_Update tid update) (\<lambda>r w'. tenants_ok (w_db w')) w"
  by (intro conjI)
    (rule wp_mono [OF pg_server.tenantService_Create_wp [OF assms(1)]],
     use assms(2) tenant_created_ok in \<open>fastforce split: sum.splits prod.splits\<close>,
     rule wp_mono [OF pg_server.tenantService_Update_wp [OF assms(1)]],
     use assms(2) tenant_updated_ok in \<open>fastforce split: sum.splits\<close>)

definition acme_input :: CreateTenantInput where
  "acme_input = \<lparr>ct_Name = ''acme'', ct_RateLimitPerMinute = 0, ct_MaxRetries = 0, ct_RetryBaseMs = 0\<rparr>"

theorem tenant_limits_invariant_witness:
  "wp (sim quiet) (tenantService_Create acme_input) (\<lambda>r w'. tenants_ok (w_db w')) empty_world"
proof -
  have "wp (sim quiet) (tenantService_Create acme_input) (\<lambda>r w'. tenants_ok (w_db w')) empty_world
    \<and> wp (sim quiet) (tenantService_Update ''t'' \<lparr>ut_Name = None, ut_RateLimitPerMinute = None,
        ut_MaxRetries = None, ut_RetryBaseMs = Some 50\<rparr>) (\<lambda>r w'. tenants_ok (w_db w')) empty_world"
    by (rule tenant_limits_invariant [OF sim_pg.pg_server_axioms]) (simp add: tenants_ok_def empty_world_def)
  then show ?thesis ..
qed

text \<open>
  Creating a tenant succeeds only for a valid input; zero values are replaced by the
  defaults (a rate of 1000, 5 retries, a base of 1000 ms), the key returned is the one stored,
  and a change applies exactly the fields given to the row of that identifier.
\<close>

theorem tenant_service_outcomes:
  assumes "pg_server P ty pgnow"
  shows "wp P (tenantService_Create create) (\<lambda>r w'. case r of
       Inr (tn, key) \<Rightarrow> key = tn_APIKey tn \<and> tenant_created P ty create w tn w'
     | Inl e \<Rightarrow> w_db w' = w_db w \<or> (\<exists>tn. tenant_created P ty create w tn w')) w
   \<and> wp P (tenantService_Update tid update) (\<lambda>r w'. case r of
       Inr tn \<Rightarrow> tenant_updated ty tid update w tn w'
     | Inl e \<Rightarrow> w_db w' = w_db w \<or> (\<exists>tn. tenant_updated ty tid update w tn w')) w"
  using pg_server.tenantService_Create_wp [OF assms] pg_server.tenantService_Update_wp [OF assms] by blast

theorem tenant_service_outcomes_witness:
  "wp (sim quiet) (tenantService_Create acme_input) (\<lambda>r w'. case r of
       Inr (tn, key) \<Rightarrow> key = tn_APIKey tn \<and> tn_RateLimitPerMinute tn = 1000 \<and> tn_RetryBaseMs tn = 1000
     | Inl e \<Rightarrow> True) empty_world"
  by (rule wp_mono [OF conjunct1 [OF tenant_service_outcomes [OF sim_pg.pg_server_axioms]]])
    (auto simp: tenant_created_def new_tenant_def or_default_def acme_input_def split: sum.splits)

text \<open>
  C37: a generated API key carries all 32 random bytes: it has 53 characters, is safe in a URL
  after its prefix, and decoding gives back the bytes drawn, so different draws give different
  keys.
\<close>

theorem api_key_roundtrip:
  assumes "go_runtime P"
  shows "wp P generateAPIKey (\<lambda>r w'. \<forall>key. r = Inr key \<longrightarrow> (\<exists>bs. pl_rand P (w_tick w) 32 = Inr bs
     \<and> length key = 53 \<and> take 10 key = ''whpk_live_'' \<and> list_all url_safe (drop 10 key)
     \<and> b64_decode (drop 10 key) = map nat bs)) w"
proof (cases "pl_rand P (w_tick w) 32")
  case (Inl e)
  then show ?thesis by (simp add: generateAPIKey_def)
next
  case (Inr bs)
  have bs: "length bs = 32" "list_all (\<lambda>b. 0 \<le> b \<and> b < 256) bs"
    using go_runtime.rand_length [OF assms Inr] by auto
  then have "list_all (\<lambda>b. b < 256) (map nat bs)" by (auto simp: list_all_iff)
  note b64_roundtrip [OF this] b64_encode_url_safe [OF this]
  with Inr bs(1) show ?thesis by (simp add: generateAPIKey_def length_b64_encode)
qed

theorem api_key_roundtrip_witness:
  "wp (sim quiet) generateAPIKey (\<lambda>r w'. \<forall>key. r = Inr key \<longrightarrow> b64_decode (drop 10 key) = replicate 32 0) empty_world"
  by (rule wp_mono [OF api_key_roundtrip [OF sim_go.go_runtime_axioms]])
    (auto simp: sim_def quiet_def empty_world_def map_replicate)

end
