(* ===== verification/Api_Handlers.thy ===== *)
theory Api_Handlers
  imports Api_Response Endpoint_Service Tenant_Service
begin

text \<open>
  \<^verbatim>\<open>internal/api/handler\<close>: the handlers of endpoints, events and tenants, and the health
  probes. A handler gets the tenant that the middleware stored in the request's context, if
  any, and the request; where the route has one, the parameter \<^verbatim>\<open>id\<close> of the path.
\<close>

type_synonym api_handler = "tenant option \<Rightarrow> api_request \<Rightarrow> api_response prog"

subsection \<open>Endpoints\<close>

definition endpoint_input :: "createEndpointRequest \<Rightarrow> CreateEndpointInput" where
  "endpoint_input req = \<lparr>ce_URL = cer_URL req, ce_Description = cer_Description req,
     ce_EventTypes = cer_EventTypes req, ce_Active = cer_Active req\<rparr>"

definition endpoint_update :: "updateEndpointRequest \<Rightarrow> UpdateEndpointInput" where
  "endpoint_update req = \<lparr>ue_URL = uer_URL req, ue_Description = uer_Description req,
     ue_EventTypes = uer_EventTypes req, ue_Active = uer_Active req\<rparr>"

definition created_endpoint :: "apilib \<Rightarrow> endpoint \<Rightarrow> string \<Rightarrow> createEndpointResponse" where
  "created_endpoint al ep secret = \<lparr>ces_ID = ep_ID ep, ces_URL = ep_URL ep, ces_Description = ep_Description ep,
     ces_EventTypes = elems (ep_EventTypes ep), ces_Secret = secret, ces_Active = ep_Active ep,
     ces_CreatedAt = al_Format al (ep_CreatedAt ep)\<rparr>"

definition endpoint_view :: "apilib \<Rightarrow> endpoint \<Rightarrow> endpointResponse" where
  "endpoint_view al ep = \<lparr>eps_ID = ep_ID ep, eps_URL = ep_URL ep, eps_Description = ep_Description ep,
     eps_EventTypes = elems (ep_EventTypes ep), eps_Active = ep_Active ep,
     eps_CreatedAt = al_Format al (ep_CreatedAt ep), eps_UpdatedAt = al_Format al (ep_UpdatedAt ep)\<rparr>"

definition EndpointHandler_Create :: "apilib \<Rightarrow> api_handler" where
  "EndpointHandler_Create al ctx rq = (case ctx of
     None \<Rightarrow> Ret (response_Error 401 ''tenant not found in context'')
   | Some tn \<Rightarrow> (case al_CreateEndpoint al (ar_Body rq) of
       Inl err \<Rightarrow> Ret (response_Error 400 ''invalid request body'')
     | Inr req \<Rightarrow>
         bind (endpointService_Create (al_lib al) (tn_ID tn) (endpoint_input req)) (\<lambda>r. Ret (case r of
           Inl err \<Rightarrow> response_HandleError err
         | Inr (ep, secret) \<Rightarrow> response_JSON 201 (EndpointCreated (created_endpoint al ep secret))))))"

definition EndpointHandler_List :: "apilib \<Rightarrow> api_handler" where
  "EndpointHandler_List al ctx rq = (case ctx of
     None \<Rightarrow> Ret (response_Error 401 ''tenant not found in context'')
   | Some tn \<Rightarrow>
       (let limit = Atoi_ignoring_error (ar_Query rq ''limit'');
            offset = Atoi_ignoring_error (ar_Query rq ''offset'')
        in bind (endpointService_ListByTenantID (tn_ID tn) limit offset) (\<lambda>r. Ret (case r of
             Inl err \<Rightarrow> response_HandleError err
           | Inr (eps, cnt) \<Rightarrow> response_JSON 200 (EndpointList
               \<lparr>epl_Data = map (endpoint_view al) eps, epl_Total = cnt,
                epl_Limit = limit, epl_Offset = offset\<rparr>)))))"

definition EndpointHandler_Get :: "apilib \<Rightarrow> string \<Rightarrow> api_handler" where
  "EndpointHandler_Get al eid ctx rq =
     bind (endpointService_GetByID eid) (\<lambda>r. Ret (case r of
       Inl err \<Rightarrow> response_HandleError err
     | Inr ep \<Rightarrow> (case ctx of
         None \<Rightarrow> response_Error 404 ''endpoint not found''
       | Some tn \<Rightarrow>
           if ep_TenantID ep \<noteq> tn_ID tn then response_Error 404 ''endpoint not found''
           else response_JSON 200 (EndpointBody (endpoint_view al ep)))))"

definition EndpointHandler_Update :: "apilib \<Rightarrow> string \<Rightarrow> api_handler" where
  "EndpointHandler_Update al eid ctx rq = (case ctx of
     None \<Rightarrow> Ret (response_Error 401 ''tenant not found in context'')
   | Some tn \<Rightarrow> (case al_UpdateEndpoint al (ar_Body rq) of
       Inl err \<Rightarrow> Ret (response_Error 400 ''invalid request body'')
     | Inr req \<Rightarrow>
         bind (endpointService_Update (al_lib al) eid (tn_ID tn) (endpoint_update req)) (\<lambda>r. Ret (case r of
           Inl err \<Rightarrow> response_HandleError err
         | Inr ep \<Rightarrow> response_JSON 200 (EndpointBody (endpoint_view al ep))))))"

definition EndpointHandler_Delete :: "string \<Rightarrow> api_handler" where
  "EndpointHandler_Delete eid ctx rq = (case ctx of
     None \<Rightarrow> Ret (response_Error 401 ''tenant not found in context'')
   | Some tn \<Rightarrow>
       bind (endpointService_Delete eid (tn_ID tn)) (\<lambda>r. Ret (case r of
         Some err \<Rightarrow> response_HandleError err
       | None \<Rightarrow> \<lparr>as_Status = 204, as_Headers = [], as_Body = NoBody\<rparr>)))"

subsection \<open>Events\<close>

definition event_input :: "createEventRequest \<Rightarrow> CreateEventInput" where
  "event_input req = \<lparr>ci_EndpointID = cvr_EndpointID req, ci_EventType = cvr_EventType req,
     ci_Payload = cvr_Payload req\<rparr>"

definition created_event :: "apilib \<Rightarrow> event \<Rightarrow> createEventResponse" where
  "created_event al ev = \<lparr>cvs_ID = ev_ID ev, cvs_Status = ev_Status ev, cvs_EventType = ev_EventType ev,
     cvs_CreatedAt = al_Format al (ev_CreatedAt ev)\<rparr>"

definition event_view :: "apilib \<Rightarrow> event \<Rightarrow> eventResponse" where
  "event_view al ev = \<lparr>evs_ID = ev_ID ev, evs_EndpointID = ev_EndpointID ev, evs_EventType = ev_EventType ev,
     evs_Payload = ev_Payload ev, evs_Status = ev_Status ev, evs_AttemptCount = ev_AttemptCount ev,
     evs_MaxAttempts = ev_MaxAttempts ev, evs_CreatedAt = al_Format al (ev_CreatedAt ev),
     evs_UpdatedAt = al_Format al (ev_UpdatedAt ev)\<rparr>"

definition EventHandler_Create :: "apilib \<Rightarrow> Producer \<Rightarrow> api_handler" where
  "EventHandler_Create al p ctx rq = (case ctx of
     None \<Rightarrow> Ret (RespondError 401 ''tenant not found in context'')
   | Some tn \<Rightarrow> (case al_CreateEvent al (ar_Body rq) of
       Inl err \<Rightarrow> Ret (RespondError 400 ''invalid request body'')
     | Inr req \<Rightarrow>
         bind (eventService_Create (al_lib al) p (tn_ID tn) (event_input req)) (\<lambda>r. Ret (case r of
           Inl err \<Rightarrow> HandleError err
         | Inr ev \<Rightarrow> RespondJSON 202 (EventCreated (created_event al ev))))))"

definition EventHandler_Get :: "apilib \<Rightarrow> string \<Rightarrow> api_handler" where
  "EventHandler_Get al eid ctx rq =
     bind (eventService_GetByID eid) (\<lambda>r. Ret (case r of
       Inl err \<Rightarrow> HandleError err
     | Inr ev \<Rightarrow> (case ctx of
         None \<Rightarrow> RespondError 404 ''event not found''
       | Some tn \<Rightarrow>
           if ev_TenantID ev \<noteq> tn_ID tn then RespondError 404 ''event not found''
           else RespondJSON 200 (EventBody (event_view al ev)))))"

definition EventHandler_List :: "apilib \<Rightarrow> api_handler" where
  "EventHandler_List al ctx rq = (case ctx of
     None \<Rightarrow> Ret (RespondError 401 ''tenant not found in context'')
   | Some tn \<Rightarrow>
       (let limit = Atoi_ignoring_error (ar_Query rq ''limit'');
            offset = Atoi_ignoring_error (ar_Query rq ''offset'')
        in bind (eventService_ListByTenantID (tn_ID tn) limit offset) (\<lambda>r. Ret (case r of
             Inl err \<Rightarrow> HandleError err
           | Inr (evs, cnt) \<Rightarrow> RespondJSON 200 (EventList
               \<lparr>evl_Data = map (event_view al) evs, evl_Total = cnt,
                evl_Limit = limit, evl_Offset = offset\<rparr>)))))"

subsection \<open>Tenants\<close>

definition tenant_input :: "createTenantRequest \<Rightarrow> CreateTenantInput" where
  "tenant_input req = \<lparr>ct_Name = ctr_Name req, ct_RateLimitPerMinute = ctr_RateLimitPerMinute req,
     ct_MaxRetries = ctr_MaxRetries req, ct_RetryBaseMs = ctr_RetryBaseMs req\<rparr>"

definition tenant_update :: "updateTenantRequest \<Rightarrow> UpdateTenantInput" where
  "tenant_update req = \<lparr>ut_Name = utr_Name req, ut_RateLimitPerMinute = utr_RateLimitPerMinute req,
     ut_MaxRetries = utr_MaxRetries req, ut_RetryBaseMs = utr_RetryBaseMs req\<rparr>"

definition created_tenant :: "apilib \<Rightarrow> tenant \<Rightarrow> string \<Rightarrow> createTenantResponse" where
  "created_tenant al tn key = \<lparr>cts_ID = tn_ID tn, cts_Name = tn_Name tn, cts_APIKey = key,
     cts_RateLimitPerMinute = tn_RateLimitPerMinute tn, cts_MaxRetries = tn_MaxRetries tn,
     cts_RetryBaseMs = tn_RetryBaseMs tn, cts_CreatedAt = al_Format al (tn_CreatedAt tn)\<rparr>"

definition tenant_view :: "apilib \<Rightarrow> tenant \<Rightarrow> tenantResponse" where
  "tenant_view al tn = \<lparr>tns_ID = tn_ID tn, tns_Name = tn_Name tn,
     tns_RateLimitPerMinute = tn_RateLimitPerMinute tn, tns_MaxRetries = tn_MaxRetries tn,
     tns_RetryBaseMs = tn_RetryBaseMs tn, tns_CreatedAt = al_Format al (tn_CreatedAt tn),
     tns_UpdatedAt = al_Format al (tn_UpdatedAt tn)\<rparr>"

definition TenantHandler_Create :: "apilib \<Rightarrow> api_handler" where
  "TenantHandler_Create al ctx rq = (case al_CreateTenant al (ar_Body rq) of
     Inl err \<Rightarrow> Ret (RespondError 400 ''invalid request body'')
   | Inr req \<Rightarrow>
       bind (tenantService_Create (tenant_input req)) (\<lambda>r. Ret (case r of
         Inl err \<Rightarrow> HandleError err
       | Inr (tn, key) \<Rightarrow> RespondJSON 201 (TenantCreated (created_tenant al tn key)))))"

definition TenantHandler_GetMe :: "apilib \<Rightarrow> api_handler" where
  "TenantHandler_GetMe al ctx rq = (case ctx of
     None \<Rightarrow> Ret (RespondError 401 ''tenant not found in context'')
   | Some tn \<Rightarrow> Ret (RespondJSON 200 (TenantBody (tenant_view al tn))))"

definition TenantHandler_UpdateMe :: "apilib \<Rightarrow> api_handler" where
  "TenantHandler_UpdateMe al ctx rq = (case ctx of
     None \<Rightarrow> Ret (RespondError 401 ''tenant not found in context'')
   | Some tn \<Rightarrow> (case al_UpdateTenant al (ar_Body rq) of
       Inl err \<Rightarrow> Ret (RespondError 400 ''invalid request body'')
     | Inr req \<Rightarrow>
         bind (tenantService_Update (tn_ID tn) (tenant_update req)) (\<lambda>r. Ret (case r of
           Inl err \<Rightarrow> HandleError err
         | Inr updated \<Rightarrow> RespondJSON 200 (TenantBody (tenant_view al updated))))))"

subsection \<open>Health\<close>

text \<open>The pings of the two clients are calls of their libraries.\<close>

definition HealthHandler_Live :: api_handler where
  "HealthHandler_Live ctx rq = Ret (response_JSON 200 (MapBody [(''status'', ''alive'')]))"

definition HealthHandler_Ready :: "gerr option prog \<Rightarrow> gerr option prog \<Rightarrow> api_handler" where
  "HealthHandler_Ready pool_Ping redis_Ping ctx rq =
     bind pool_Ping (\<lambda>e. case e of
       Some err \<Rightarrow> Ret (response_Error 503 ''database unavailable'')
     | None \<Rightarrow> bind redis_Ping (\<lambda>e. Ret (case e of
         Some err \<Rightarrow> response_Error 503 ''redis unavailable''
       | None \<Rightarrow> response_JSON 200 (MapBody [(''status'', ''ready'')]))))"

end
