(* ===== verification/Redis_Client.thy ===== *)
theory Redis_Client
  imports Platform
begin

text \<open>
  The calls of \<^verbatim>\<open>go-redis\<close> that the repositories make, as requests to the server and the
  client library's reading of the reply (\<^verbatim>\<open>redis.Nil\<close> for a missing key), with their
  contracts: what each call may do on a server that may fail (locale \<open>redis_server\<close>), and
  what it does on one that does not (locale \<open>reliable_redis\<close>).
\<close>

definition unexpected_reply :: gerr where
  "unexpected_reply = PlainErr ''redis: unexpected type''"

definition redis_Get :: "string \<Rightarrow> (gerr + string) prog" where
  "redis_Get key = RedisDo (GET key) (\<lambda>r. Ret (case r of
     Inl err \<Rightarrow> Inl err
   | Inr RNil \<Rightarrow> Inl RedisNil
   | Inr (RBulk s) \<Rightarrow> Inr s
   | Inr (RInt n) \<Rightarrow> Inl unexpected_reply
   | Inr (RStatus s) \<Rightarrow> Inl unexpected_reply))"

definition redis_GetInt64 :: "string \<Rightarrow> (gerr + int) prog" where
  "redis_GetInt64 key = bind (redis_Get key) (\<lambda>r. Ret (case r of
     Inl err \<Rightarrow> Inl err | Inr s \<Rightarrow> ParseInt s))"

text \<open>
  An expiration is a \<^verbatim>\<open>time.Duration\<close>. The client sends whole seconds as such, anything
  else in milliseconds, at least one; either way the server gets this many milliseconds.
\<close>

definition expiry_ms :: "int \<Rightarrow> int" where
  "expiry_ms d = (if 0 < d \<and> d < 1000000 then 1 else d div 1000000)"

definition redis_Set :: "string \<Rightarrow> string \<Rightarrow> int \<Rightarrow> gerr option prog" where
  "redis_Set key val ttl = RedisDo (SET key val ttl) (\<lambda>r. Ret (case r of
     Inl err \<Rightarrow> Some err | Inr x \<Rightarrow> None))"

definition redis_SetNX :: "string \<Rightarrow> string \<Rightarrow> int \<Rightarrow> (gerr + bool) prog" where
  "redis_SetNX key val ttl = RedisDo (SETNX key val ttl) (\<lambda>r. Ret (case r of
     Inl err \<Rightarrow> Inl err
   | Inr (RInt n) \<Rightarrow> Inr (n = 1)
   | Inr RNil \<Rightarrow> Inl unexpected_reply
   | Inr (RBulk s) \<Rightarrow> Inl unexpected_reply
   | Inr (RStatus s) \<Rightarrow> Inl unexpected_reply))"

definition redis_Del :: "string \<Rightarrow> gerr option prog" where
  "redis_Del key = RedisDo (DEL key) (\<lambda>r. Ret (case r of
     Inl err \<Rightarrow> Some err | Inr x \<Rightarrow> None))"

definition redis_Incr :: "string \<Rightarrow> (gerr + int) prog" where
  "redis_Incr key = RedisDo (INCR key) (\<lambda>r. Ret (case r of
     Inl err \<Rightarrow> Inl err
   | Inr (RInt n) \<Rightarrow> Inr n
   | Inr RNil \<Rightarrow> Inl unexpected_reply
   | Inr (RBulk s) \<Rightarrow> Inl unexpected_reply
   | Inr (RStatus s) \<Rightarrow> Inl unexpected_reply))"

text \<open>\<^verbatim>\<open>pipe.Exec\<close> where only the error is used, and the value of a \<^verbatim>\<open>ZCard\<close> in a pipeline.\<close>

definition pipe_Exec :: "rcmd list \<Rightarrow> gerr option prog" where
  "pipe_Exec cs = RedisPipe cs (\<lambda>r. Ret (case r of Inl err \<Rightarrow> Some err | Inr xs \<Rightarrow> None))"

fun int_reply :: "reply \<Rightarrow> int" where
  "int_reply (RInt n) = n"
| "int_reply r = 0"

subsection \<open>What a call leaves alone\<close>

text \<open>
  Between two worlds only Redis keys of a set changed, and time passed: the frame of
  everything the Redis repositories do.
\<close>

definition keys_changed :: "string set \<Rightarrow> world \<Rightarrow> world \<Rightarrow> bool" where
  "keys_changed S w w' \<longleftrightarrow>
     w_db w' = w_db w \<and> w_log w' = w_log w \<and> w_committed w' = w_committed w
     \<and> w_sent w' = w_sent w \<and> w_tick w \<le> w_tick w'
     \<and> (\<forall>k. k \<notin> S \<longrightarrow> w_keys w' k = w_keys w k)"

lemma keys_changed_refl [simp]: "keys_changed S w w"
  by (simp add: keys_changed_def)

lemma keys_changed_trans: "keys_changed S w u \<Longrightarrow> keys_changed S u v \<Longrightarrow> keys_changed S w v"
  by (auto simp: keys_changed_def)

lemma keys_changed_mono: "keys_changed S w u \<Longrightarrow> S \<subseteq> T \<Longrightarrow> keys_changed T w u"
  by (auto simp: keys_changed_def)

lemma keys_changed_tickI: "keys_changed S w u \<Longrightarrow> keys_changed S w (tick u)"
  by (auto simp: keys_changed_def)

lemma keys_changed_keys:
  "keys_changed S w u \<Longrightarrow> (\<And>k. k \<notin> S \<Longrightarrow> ks k = w_keys u k) \<Longrightarrow>
   keys_changed S w (tick (u\<lparr>w_keys := ks\<rparr>))"
  by (auto simp: keys_changed_def)

context redis_server
begin

lemma redis_do_frame:
  assumes "keys_changed S v w"
    and "\<And>k. rcmd_key c = Some k \<Longrightarrow> k \<in> S"
    and "\<And>r w'. keys_changed S v w' \<Longrightarrow> wp P (k r) Q w'"
  shows "wp P (RedisDo c k) Q w"
proof (rule redis_do)
  fix r ks
  assume "redis_obeys (rt (w_tick w)) c (w_keys w) (r, ks)"
  then have "ks = w_keys w \<or> ks = snd (redis_apply (rt (w_tick w)) c (w_keys w))"
    by (auto simp: redis_obeys_def dest: arg_cong [where f = snd])
  then have "k \<notin> S \<Longrightarrow> ks k = w_keys w k" for k
    using assms(2) redis_apply_other [of "rt (w_tick w)" c "w_keys w" _ _ k]
    by (metis prod.collapse)
  with assms(1) have "keys_changed S v (tick (w\<lparr>w_keys := ks\<rparr>))"
    by (intro keys_changed_keys) auto
  then show "wp P (k r) Q (tick (w\<lparr>w_keys := ks\<rparr>))" by (rule assms(3))
qed

lemma redis_pipe_frame:
  assumes "keys_changed S v w"
    and "\<And>c k. c \<in> set cs \<Longrightarrow> rcmd_key c = Some k \<Longrightarrow> k \<in> S"
    and "\<And>r w'. keys_changed S v w' \<Longrightarrow> wp P (k r) Q w'"
  shows "wp P (RedisPipe cs k) Q w"
proof (rule redis_pipe)
  fix r ks
  assume "pipe_obeys (rt (w_tick w)) cs (w_keys w) (r, ks)"
  then obtain n where "ks = snd (redis_applys (rt (w_tick w)) (take n cs) (w_keys w))"
    by (auto simp: pipe_obeys_def) (metis order_refl take_all)
  then have "k \<notin> S \<Longrightarrow> ks k = w_keys w k" for k
    using assms(2) redis_applys_other [of "rt (w_tick w)" "take n cs" "w_keys w" _ _ k]
    by (metis in_set_takeD prod.collapse)
  with assms(1) have "keys_changed S v (tick (w\<lparr>w_keys := ks\<rparr>))"
    by (intro keys_changed_keys) auto
  then show "wp P (k r) Q (tick (w\<lparr>w_keys := ks\<rparr>))" by (rule assms(3))
qed

lemma redis_Get_wp:
  assumes "\<And>v. live (rt (w_tick w)) (w_keys w) key = Some (RStr v) \<Longrightarrow> Q (Inr v) (tick w)"
    and "live (rt (w_tick w)) (w_keys w) key = None \<Longrightarrow> Q (Inl RedisNil) (tick w)"
    and "\<And>e. e \<noteq> RedisNil \<Longrightarrow> Q (Inl e) (tick w)"
  shows "wp P (redis_Get key) Q w"
  unfolding redis_Get_def
  by (rule redis_do)
    (use assms in \<open>auto simp: redis_obeys_def wrongtype_def infra_not_sentinel
       split: option.splits rval.splits\<close>)

lemma redis_SetNX_wp:
  assumes "live (rt (w_tick w)) (w_keys w) key = None \<Longrightarrow>
      Q (Inr True) (tick (w\<lparr>w_keys := (w_keys w)(key \<mapsto> (RStr val, deadline (rt (w_tick w)) ttl))\<rparr>))"
    and "live (rt (w_tick w)) (w_keys w) key \<noteq> None \<Longrightarrow> Q (Inr False) (tick w)"
    and "\<And>e. Q (Inl e) (tick w)"
    and "\<And>e. live (rt (w_tick w)) (w_keys w) key = None \<Longrightarrow>
      Q (Inl e) (tick (w\<lparr>w_keys := (w_keys w)(key \<mapsto> (RStr val, deadline (rt (w_tick w)) ttl))\<rparr>))"
  shows "wp P (redis_SetNX key val ttl) Q w"
  unfolding redis_SetNX_def
  by (rule redis_do) (use assms in \<open>auto simp: redis_obeys_def split: option.splits\<close>)

lemma redis_Del_wp:
  assumes "\<And>r. Q r (tick (w\<lparr>w_keys := (w_keys w)(key := None)\<rparr>))"
    and "\<And>e. Q (Some e) (tick w)"
  shows "wp P (redis_Del key) Q w"
  unfolding redis_Del_def
  by (rule redis_do) (auto simp: redis_obeys_def intro: assms)

end

subsection \<open>A server that does not fail\<close>

locale reliable_redis = redis_server +
  assumes no_fault: "pl_redis P n c ks = redis_apply (rt n) c ks"
    and no_fault_pipe: "pl_pipe P n cs ks =
      (pipe_result (fst (redis_applys (rt n) cs ks)), snd (redis_applys (rt n) cs ks))"
begin

lemma wp_do [run_simps]:
  "wp P (RedisDo c k) Q w =
     (case redis_apply (rt (w_tick w)) c (w_keys w) of
        (r, ks) \<Rightarrow> wp P (k r) Q (tick (w\<lparr>w_keys := ks\<rparr>)))"
  by (simp add: wp_RedisDo no_fault)

lemma wp_pipe [run_simps]:
  "wp P (RedisPipe cs k) Q w =
     (case redis_applys (rt (w_tick w)) cs (w_keys w) of
        (rs, ks) \<Rightarrow> wp P (k (pipe_result rs)) Q (tick (w\<lparr>w_keys := ks\<rparr>)))"
  by (simp add: wp_RedisPipe no_fault_pipe case_prod_beta)

end

definition calm :: "script \<Rightarrow> script" where
  "calm s = s\<lparr>sc_start := max 0 (sc_start s), sc_fault := \<lambda>n. NoFault, sc_uuid := \<lambda>n. n\<rparr>"

lemma calm_quiet [simp]: "calm quiet = quiet"
  by (simp add: calm_def quiet_def)

interpretation calm_redis: reliable_redis "sim (calm s)" "sim_ms (calm s)" for s
  by unfold_locales (simp_all add: sim_def calm_def)

end
