(* ===== verification/Interleaving.thy ===== *)
theory Interleaving
  imports Redis_Client
begin

text \<open>
  Several programs run concurrently: processes, goroutines of one process, or the same
  consumer on several machines. A schedule picks the program that issues the next request;
  every program works on the one shared \<open>world\<close>.

  \<open>holder_after\<close> is a history variable: the token of the lock a program has been granted
  by the server and has not yet asked to delete. \<open>disciplined\<close> says of a program that it
  touches the lock only as its protocol allows and works on the protected event only as the
  holder; the locale \<open>lock_clients\<close> derives mutual exclusion from it.
\<close>

record 'a worker =
  wk_prog :: "'a prog"
  wk_held :: "string option"

fun holder_after :: "string \<Rightarrow> platform \<Rightarrow> world \<Rightarrow> 'a prog \<Rightarrow> string option \<Rightarrow> string option" where
  "holder_after key P w (RedisDo (SETNX k v ttl) f) h =
     (if k = key \<and> fst (ans_redis P (SETNX k v ttl) w) = Inr (RInt 1) then Some v else h)"
| "holder_after key P w (RedisDo (DEL k) f) h = (if k = key then None else h)"
| "holder_after key P w m h = h"

definition worker_step :: "string \<Rightarrow> platform \<Rightarrow> 'a worker \<Rightarrow> world \<Rightarrow> 'a worker \<times> world" where
  "worker_step key P p w =
     (case step P (wk_prog p) w of (m, w') \<Rightarrow>
        (\<lparr>wk_prog = m, wk_held = holder_after key P w (wk_prog p) (wk_held p)\<rparr>, w'))"

inductive reachable :: "string \<Rightarrow> platform \<Rightarrow> 'a worker list \<times> world \<Rightarrow> 'a worker list \<times> world \<Rightarrow> bool"
  for key P c0 where
  reach_start: "reachable key P c0 c0"
| reach_step: "reachable key P c0 (ps, w) \<Longrightarrow> i < length ps \<Longrightarrow> worker_step key P (ps ! i) w = (p, w') \<Longrightarrow>
     reachable key P c0 (ps[i := p], w')"

text \<open>A schedule as a list of program numbers: the executable form.\<close>

fun run_schedule :: "string \<Rightarrow> platform \<Rightarrow> nat list \<Rightarrow> 'a worker list \<times> world \<Rightarrow> 'a worker list \<times> world" where
  "run_schedule key P [] c = c"
| "run_schedule key P (i # is) (ps, w) =
     (if i < length ps then
        (case worker_step key P (ps ! i) w of (p, w') \<Rightarrow> run_schedule key P is (ps[i := p], w'))
      else run_schedule key P is (ps, w))"

lemma run_schedule_reachable:
  "reachable key P c0 c \<Longrightarrow> reachable key P c0 (run_schedule key P is c)"
proof (induction "is" arbitrary: c)
  case Nil
  then show ?case by simp
next
  case (Cons i "is")
  obtain ps w where c: "c = (ps, w)" by force
  show ?case
    using Cons c by (cases "worker_step key P (ps ! i) w") (auto intro: reach_step)
qed

text \<open>A program that is left alone runs to its end.\<close>

lemma reachable_steps:
  "reachable key P c0 (ps, w) \<Longrightarrow> i < length ps \<Longrightarrow> steps P n (wk_prog (ps ! i)) w = (m, w') \<Longrightarrow>
   \<exists>h. reachable key P c0 (ps[i := \<lparr>wk_prog = m, wk_held = h\<rparr>], w')"
proof (induction n arbitrary: ps w)
  case 0
  then have "\<lparr>wk_prog = m, wk_held = wk_held (ps ! i)\<rparr> = ps ! i" by (cases "ps ! i") simp
  then have "ps[i := \<lparr>wk_prog = m, wk_held = wk_held (ps ! i)\<rparr>] = ps" by (simp only: list_update_id)
  with 0 show ?case by (metis steps.simps(1) prod.inject)
next
  case (Suc n)
  obtain m1 w1 where st: "step P (wk_prog (ps ! i)) w = (m1, w1)" by force
  let ?p = "\<lparr>wk_prog = m1, wk_held = holder_after key P w (wk_prog (ps ! i)) (wk_held (ps ! i))\<rparr>"
  have "worker_step key P (ps ! i) w = (?p, w1)" by (simp add: worker_step_def st)
  with Suc.prems have "reachable key P c0 (ps[i := ?p], w1)" by (auto intro: reach_step)
  from Suc.IH [OF this] Suc.prems st show ?case by simp
qed

lemma reachable_run:
  assumes "reachable key P c0 (ps, w)" "i < length ps" "run P (wk_prog (ps ! i)) w = (Returns a, w')"
  shows "\<exists>h. reachable key P c0 (ps[i := \<lparr>wk_prog = Ret a, wk_held = h\<rparr>], w')"
proof -
  obtain n where "steps P n (wk_prog (ps ! i)) w = (Ret a, w')"
    using run_steps [of P "wk_prog (ps ! i)" w] assms(3) by auto
  from reachable_steps [OF assms(1,2) this] show ?thesis .
qed

lemma reachable_step:
  assumes "reachable key P c0 (ps, w)" "i < length ps" "step P (wk_prog (ps ! i)) w = (m, w')"
  shows "\<exists>h. reachable key P c0 (ps[i := \<lparr>wk_prog = m, wk_held = h\<rparr>], w')"
  using reachable_steps [OF assms(1,2), of 1] assms(3) by simp

subsection \<open>The discipline\<close>

text \<open>
  The parameters: the lock's key, its time to live in milliseconds, and the requests that
  only the holder may send.
\<close>

primrec disciplined :: "string \<Rightarrow> int \<Rightarrow> (http_request \<Rightarrow> bool) \<Rightarrow> 'a prog \<Rightarrow> string option \<Rightarrow> bool" where
  "disciplined key ttl guarded (Ret a) = (\<lambda>h. True)"
| "disciplined key ttl guarded (Panic s) = (\<lambda>h. True)"
| "disciplined key ttl guarded (Now k) = (\<lambda>h. \<forall>x. disciplined key ttl guarded (k x) h)"
| "disciplined key ttl guarded (NewUUID k) = (\<lambda>h. \<forall>x. disciplined key ttl guarded (k x) h)"
| "disciplined key ttl guarded (RandRead n k) = (\<lambda>h. \<forall>x. disciplined key ttl guarded (k x) h)"
| "disciplined key ttl guarded (Int63n n k) = (\<lambda>h. \<forall>x. disciplined key ttl guarded (k x) h)"
| "disciplined key ttl guarded (RedisDo c k) = (\<lambda>h.
     if rcmd_key c \<noteq> Some key then \<forall>x. disciplined key ttl guarded (k x) h
     else (case c of
         GET key' \<Rightarrow> \<forall>x. disciplined key ttl guarded (k x) h
       | SETNX key' v t \<Rightarrow> h = None \<and> t = ttl
           \<and> (\<forall>x. disciplined key ttl guarded (k x) (if x = Inr (RInt 1) then Some v else None))
       | DEL key' \<Rightarrow> h \<noteq> None \<and> (\<forall>x. disciplined key ttl guarded (k x) None)
       | _ \<Rightarrow> False))"
| "disciplined key ttl guarded (RedisPipe cs k) = (\<lambda>h.
     (\<forall>c \<in> set cs. rcmd_key c \<noteq> Some key) \<and> (\<forall>x. disciplined key ttl guarded (k x) h))"
| "disciplined key ttl guarded (PgExec s k) = (\<lambda>h. \<forall>x. disciplined key ttl guarded (k x) h)"
| "disciplined key ttl guarded (PgQuery q k) = (\<lambda>h. \<forall>x. disciplined key ttl guarded (k x) h)"
| "disciplined key ttl guarded (KafkaWrite m k) = (\<lambda>h. \<forall>x. disciplined key ttl guarded (k x) h)"
| "disciplined key ttl guarded (KafkaFetch k) = (\<lambda>h. \<forall>x. disciplined key ttl guarded (k x) h)"
| "disciplined key ttl guarded (KafkaCommit m k) = (\<lambda>h. \<forall>x. disciplined key ttl guarded (k x) h)"
| "disciplined key ttl guarded (Cancelled k) = (\<lambda>h. \<forall>x. disciplined key ttl guarded (k x) h)"
| "disciplined key ttl guarded (HttpDo r k) = (\<lambda>h.
     (guarded r \<longrightarrow> h \<noteq> None) \<and> (\<forall>x. disciplined key ttl guarded (k x) h))"

text \<open>A program that leaves the lock alone and sends no guarded request, before any continuation.\<close>

primrec neutral :: "string \<Rightarrow> (http_request \<Rightarrow> bool) \<Rightarrow> 'a prog \<Rightarrow> bool" where
  "neutral key guarded (Ret a) = True"
| "neutral key guarded (Panic s) = True"
| "neutral key guarded (Now k) = (\<forall>x. neutral key guarded (k x))"
| "neutral key guarded (NewUUID k) = (\<forall>x. neutral key guarded (k x))"
| "neutral key guarded (RandRead n k) = (\<forall>x. neutral key guarded (k x))"
| "neutral key guarded (Int63n n k) = (\<forall>x. neutral key guarded (k x))"
| "neutral key guarded (RedisDo c k) = (rcmd_key c \<noteq> Some key \<and> (\<forall>x. neutral key guarded (k x)))"
| "neutral key guarded (RedisPipe cs k) =
     ((\<forall>c \<in> set cs. rcmd_key c \<noteq> Some key) \<and> (\<forall>x. neutral key guarded (k x)))"
| "neutral key guarded (PgExec s k) = (\<forall>x. neutral key guarded (k x))"
| "neutral key guarded (PgQuery q k) = (\<forall>x. neutral key guarded (k x))"
| "neutral key guarded (KafkaWrite m k) = (\<forall>x. neutral key guarded (k x))"
| "neutral key guarded (KafkaFetch k) = (\<forall>x. neutral key guarded (k x))"
| "neutral key guarded (KafkaCommit m k) = (\<forall>x. neutral key guarded (k x))"
| "neutral key guarded (Cancelled k) = (\<forall>x. neutral key guarded (k x))"
| "neutral key guarded (HttpDo r k) = (\<not> guarded r \<and> (\<forall>x. neutral key guarded (k x)))"

lemma neutral_bind:
  "neutral key guarded m \<Longrightarrow> (\<And>a. neutral key guarded (f a)) \<Longrightarrow> neutral key guarded (bind m f)"
  by (induction m) auto

lemma neutral_disciplined:
  "neutral key guarded m \<Longrightarrow> (\<And>a. disciplined key ttl guarded (f a) h) \<Longrightarrow>
   disciplined key ttl guarded (bind m f) h"
  by (induction m) auto

lemma holder_disciplined:
  "neutral key (\<lambda>r. False) m \<Longrightarrow> h \<noteq> None \<Longrightarrow> (\<And>a. disciplined key ttl guarded (f a) h) \<Longrightarrow>
   disciplined key ttl guarded (bind m f) h"
  by (induction m) auto

lemma neutral_for_each:
  "(\<And>x. x \<in> set xs \<Longrightarrow> neutral key guarded (f x)) \<Longrightarrow> neutral key guarded (for_each xs f)"
  by (induction xs) (auto intro: neutral_bind)

lemma neutral_weaken: "neutral key guarded m \<Longrightarrow> neutral key (\<lambda>r. False) m"
  by (induction m) auto

subsection \<open>Mutual exclusion\<close>

definition holding :: "'a worker \<Rightarrow> bool" where
  "holding p \<longleftrightarrow> wk_held p \<noteq> None"

definition exclusive :: "'a worker list \<Rightarrow> bool" where
  "exclusive ps \<longleftrightarrow>
     (\<forall>i j. i < length ps \<longrightarrow> j < length ps \<longrightarrow> holding (ps ! i) \<longrightarrow> holding (ps ! j) \<longrightarrow> i = j)"

text \<open>The lock is held on the server, at least until the time given.\<close>

definition locked_until :: "string \<Rightarrow> int \<Rightarrow> keyspace \<Rightarrow> bool" where
  "locked_until key t ks = (\<exists>v d. ks key = Some (v, Some d) \<and> t \<le> d)"

locale lock_clients = redis_server +
  fixes key :: string and ttl :: int and guarded :: "http_request \<Rightarrow> bool"
  assumes ttl_pos: "0 < ttl"
begin

definition lock_inv :: "int \<Rightarrow> 'a worker list \<times> world \<Rightarrow> bool" where
  "lock_inv t0 c = (case c of (ps, w) \<Rightarrow>
     t0 \<le> rt (w_tick w)
     \<and> (\<forall>p \<in> set ps. disciplined key ttl guarded (wk_prog p) (wk_held p))
     \<and> exclusive ps
     \<and> ((\<exists>p \<in> set ps. holding p) \<longrightarrow> locked_until key (t0 + ttl) (w_keys w)))"

text \<open>What one request of a disciplined program can do to the lock.\<close>

definition lock_move :: "'a worker \<Rightarrow> world \<Rightarrow> 'a worker \<Rightarrow> world \<Rightarrow> bool" where
  "lock_move p w p' w' \<longleftrightarrow>
     wk_held p' = wk_held p \<and> w_keys w' key = w_keys w key
     \<or> wk_held p = None \<and> wk_held p' = None \<and> live (rt (w_tick w)) (w_keys w) key = None
     \<or> wk_held p = None \<and> live (rt (w_tick w)) (w_keys w) key = None
         \<and> locked_until key (rt (w_tick w) + ttl) (w_keys w')
     \<or> wk_held p \<noteq> None \<and> wk_held p' = None"

lemma lock_move_same:
  "wk_held p' = wk_held p \<Longrightarrow> w_keys w' key = w_keys w key \<Longrightarrow> lock_move p w p' w'"
  by (simp add: lock_move_def)

lemma ans_redis_key:
  assumes "ans_redis P c w = (r, w')" "rcmd_key c \<noteq> Some key"
  shows "w_keys w' key = w_keys w key"
proof -
  obtain ks where ks: "pl_redis P (w_tick w) c (w_keys w) = (r, ks)" "w_keys w' = ks"
    using assms(1) by (auto simp: ans_redis_def split: prod.splits)
  obtain r0 ks0 where a: "redis_apply (rt (w_tick w)) c (w_keys w) = (r0, ks0)" by force
  show ?thesis
    using redis_law [of "w_tick w" c "w_keys w"] redis_apply_other [OF a assms(2)]
    by (auto simp: redis_obeys_def ks a)
qed

lemma ans_pipe_key:
  assumes "ans_pipe P cs w = (r, w')" "\<forall>c \<in> set cs. rcmd_key c \<noteq> Some key"
  shows "w_keys w' key = w_keys w key"
proof -
  obtain ks where ks: "pl_pipe P (w_tick w) cs (w_keys w) = (r, ks)" "w_keys w' = ks"
    using assms(1) by (auto simp: ans_pipe_def split: prod.splits)
  obtain n where "ks = snd (redis_applys (rt (w_tick w)) (take n cs) (w_keys w))"
    using pipe_law [of "w_tick w" cs "w_keys w"] ks
    by (auto simp: pipe_obeys_def) (metis order_refl take_all)
  then show ?thesis
    using redis_applys_other [of "rt (w_tick w)" "take n cs" "w_keys w" _ ks key] assms(2) ks
    by (metis in_set_takeD prod.collapse)
qed

lemma ans_setnx:
  assumes "ans_redis P (SETNX key v ttl) w = (r, w')"
  shows "w_keys w' = w_keys w \<and> r \<noteq> Inr (RInt 1)
    \<or> live (rt (w_tick w)) (w_keys w) key = None
       \<and> (r \<noteq> Inr (RInt 1) \<or> locked_until key (rt (w_tick w) + ttl) (w_keys w'))"
proof -
  obtain ks where ks: "pl_redis P (w_tick w) (SETNX key v ttl) (w_keys w) = (r, ks)" "w_keys w' = ks"
    using assms(1) by (auto simp: ans_redis_def split: prod.splits)
  show ?thesis
    using redis_law [of "w_tick w" "SETNX key v ttl" "w_keys w"] ttl_pos
    by (auto simp: redis_obeys_def ks deadline_def locked_until_def split: option.splits)
qed

lemma ans_get:
  assumes "ans_redis P (GET k) w = (r, w')"
  shows "w_keys w' = w_keys w"
  using assms redis_law [of "w_tick w" "GET k" "w_keys w"]
  by (auto simp: ans_redis_def redis_obeys_def split: prod.splits option.splits rval.splits)

lemma worker_step_move:
  assumes "worker_step key P p w = (p', w')" "disciplined key ttl guarded (wk_prog p) (wk_held p)"
  shows "w_tick w \<le> w_tick w' \<and> disciplined key ttl guarded (wk_prog p') (wk_held p') \<and> lock_move p w p' w'"
proof (cases "wk_prog p")
  case (RedisDo c k)
  obtain r where r: "ans_redis P c w = (r, w')"
    and p': "p' = \<lparr>wk_prog = k r, wk_held = holder_after key P w (RedisDo c k) (wk_held p)\<rparr>"
    using assms(1) RedisDo by (auto simp: worker_step_def split: prod.splits)
  have t: "w_tick w \<le> w_tick w'" using r by (auto simp: ans_redis_def split: prod.splits)
  show ?thesis
  proof (cases "rcmd_key c = Some key")
    case False
    then have "holder_after key P w (RedisDo c k) (wk_held p) = wk_held p"
      by (cases c) (auto simp: rcmd_key_def)
    with False t r p' assms(2) RedisDo ans_redis_key [OF r] show ?thesis
      by (auto intro!: lock_move_same)
  next
    case True
    then consider "c = GET key" | v where "c = SETNX key v ttl" | "c = DEL key"
      using assms(2) RedisDo by (cases c) (auto simp: rcmd_key_def)
    then show ?thesis
    proof cases
      case 1
      with t r p' assms(2) RedisDo True ans_get [of key w r w'] show ?thesis
        by (auto intro!: lock_move_same)
    next
      case (2 v)
      have h: "wk_held p = None"
        and d: "r = Inr (RInt 1) \<Longrightarrow> disciplined key ttl guarded (k r) (Some v)"
          "r \<noteq> Inr (RInt 1) \<Longrightarrow> disciplined key ttl guarded (k r) None"
        using 2 True assms(2) RedisDo by (auto dest: spec [of _ r])
      show ?thesis
        using ans_setnx [of v w r w'] r 2 t h d by (auto simp: lock_move_def p')
    next
      case 3
      with t r p' assms(2) RedisDo True show ?thesis by (auto simp: lock_move_def)
    qed
  qed
next
  case (RedisPipe cs k)
  with assms ans_pipe_key [of cs w _ w'] show ?thesis
    by (auto simp: worker_step_def ans_pipe_def split: prod.splits intro!: lock_move_same)
qed (use assms in \<open>auto simp: worker_step_def ans_exec_def ans_write_def ans_commit_def ans_http_def
       split: prod.splits option.splits intro!: lock_move_same\<close>)

lemma exclusive_update:
  assumes "exclusive ps" "i < length ps"
    and "holding p' \<Longrightarrow> holding (ps ! i) \<or> (\<forall>p \<in> set ps. \<not> holding p)"
  shows "exclusive (ps[i := p'])"
  using assms unfolding exclusive_def by (auto simp: nth_list_update)

lemma lock_inv_step:
  assumes inv: "lock_inv t0 (ps, w)" and i: "i < length ps"
    and step: "worker_step key P (ps ! i) w = (p', w')" and soon: "rt (w_tick w) < t0 + ttl"
  shows "lock_inv t0 (ps[i := p'], w')"
proof -
  have mem: "ps ! i \<in> set ps" using i by simp
  from inv have t0: "t0 \<le> rt (w_tick w)" and ex: "exclusive ps"
    and disc: "\<And>p. p \<in> set ps \<Longrightarrow> disciplined key ttl guarded (wk_prog p) (wk_held p)"
    and lk: "\<And>p. p \<in> set ps \<Longrightarrow> holding p \<Longrightarrow> locked_until key (t0 + ttl) (w_keys w)"
    by (auto simp: lock_inv_def)
  note mv = worker_step_move [OF step disc [OF mem]]
  have busy: "live (rt (w_tick w)) (w_keys w) key \<noteq> None" if "p \<in> set ps" "holding p" for p
    using lk [OF that] soon by (auto simp: locked_until_def live_def)
  have alone: "j = i" if "holding (ps ! i)" "j < length ps" "holding (ps ! j)" for j
    using ex i that by (auto simp: exclusive_def)
  have "exclusive (ps[i := p'])"
  proof (rule exclusive_update [OF ex i])
    assume "holding p'"
    with mv have "holding (ps ! i) \<or> live (rt (w_tick w)) (w_keys w) key = None"
      by (auto simp: lock_move_def holding_def)
    with busy show "holding (ps ! i) \<or> (\<forall>p \<in> set ps. \<not> holding p)" by auto
  qed
  moreover have "t0 \<le> rt (w_tick w')"
    using t0 rt_mono [of "w_tick w" "w_tick w'"] mv by linarith
  moreover have "locked_until key (t0 + ttl) (w_keys w')"
    if q: "q \<in> set (ps[i := p'])" "holding q" for q
  proof -
    from q(1) obtain j where j: "j < length ps" "q = (ps[i := p']) ! j"
      by (auto simp: in_set_conv_nth)
    have other: "p \<in> set ps \<and> holding p" if "j \<noteq> i" "p = ps ! j" for p
      using that j q by simp
    consider "w_keys w' key = w_keys w key" "wk_held p' = wk_held (ps ! i)"
      | "live (rt (w_tick w)) (w_keys w) key = None" "locked_until key (rt (w_tick w) + ttl) (w_keys w')"
      | "live (rt (w_tick w)) (w_keys w) key = None" "\<not> holding p'"
      | "holding (ps ! i)" "\<not> holding p'"
      using mv by (auto simp: lock_move_def holding_def)
    then show ?thesis
    proof cases
      case 1
      then have "locked_until key (t0 + ttl) (w_keys w)"
        using lk [of "ps ! j"] j q mem by (cases "j = i") (auto simp: holding_def)
      with 1 show ?thesis by (simp add: locked_until_def)
    next
      case 2
      then show ?thesis using t0 by (auto simp: locked_until_def)
    next
      case 3
      then show ?thesis using busy [of "ps ! j"] other [of "ps ! j"] j q by (cases "j = i") auto
    next
      case 4
      then show ?thesis using alone [of j] other [of "ps ! j"] j q by (cases "j = i") auto
    qed
  qed
  moreover have "disciplined key ttl guarded (wk_prog q) (wk_held q)" if "q \<in> set (ps[i := p'])" for q
    using that mv disc set_update_subset_insert [of ps i p'] by auto
  ultimately show ?thesis by (auto simp: lock_inv_def)
qed

theorem mutual_exclusion:
  assumes "reachable key P (ps, w) (qs, u)"
    and "\<And>p. p \<in> set ps \<Longrightarrow> wk_held p = None \<and> disciplined key ttl guarded (wk_prog p) None"
    and "rt (w_tick u) < rt (w_tick w) + ttl"
  shows "exclusive qs \<and> (\<forall>q \<in> set qs. disciplined key ttl guarded (wk_prog q) (wk_held q))"
proof -
  have start: "lock_inv (rt (w_tick w)) (ps, w)"
    using assms(2) by (auto simp: lock_inv_def exclusive_def holding_def)
  have "rt (w_tick (snd c)) < rt (w_tick w) + ttl \<longrightarrow> lock_inv (rt (w_tick w)) c"
    if "reachable key P (ps, w) c" for c
    using that
  proof induction
    case reach_start
    then show ?case using start by simp
  next
    case (reach_step ps1 w1 i p w2)
    show ?case
    proof
      assume "rt (w_tick (snd (ps1[i := p], w2))) < rt (w_tick w) + ttl"
      moreover have "w_tick w1 \<le> w_tick w2"
        using reach_step.hyps(3)
        by (cases "wk_prog (ps1 ! i)")
          (auto simp: worker_step_def ans_redis_def ans_pipe_def ans_exec_def ans_write_def
            ans_commit_def ans_http_def split: prod.splits option.splits)
      ultimately have "rt (w_tick w1) < rt (w_tick w) + ttl"
        using rt_mono [of "w_tick w1" "w_tick w2"] by simp
      with reach_step show "lock_inv (rt (w_tick w)) (ps1[i := p], w2)"
        by (auto intro: lock_inv_step)
    qed
  qed
  from this [OF assms(1)] assms(3) show ?thesis by (auto simp: lock_inv_def)
qed

end

end
