(* ===== verification/Rate_Limiter.thy ===== *)
theory Rate_Limiter
  imports Interleaving
begin

text \<open>
  \<^verbatim>\<open>internal/repository/redis/rate_limiter.go\<close>: a sliding window of the requests of a tenant,
  kept as a sorted set of their times in milliseconds. One caller at a time, a request is
  granted exactly when fewer than the limit were granted in the minute before it, and so at
  most \<open>limit\<close> are granted in any minute. Two callers at a time can exceed the limit.
\<close>

record RateLimiterRepo =
  rl_window :: int    \<comment> \<open>nanoseconds\<close>

definition NewRateLimiterRepo :: RateLimiterRepo where
  "NewRateLimiterRepo = \<lparr>rl_window = 60000000000\<rparr>"

definition rl_key :: "string \<Rightarrow> string" where
  "rl_key tenantID = ''rl:'' @ tenantID"

definition UnixMilli :: "time \<Rightarrow> int" where
  "UnixMilli t = t div 1000000"

definition RateLimiter_Allow :: "RateLimiterRepo \<Rightarrow> string \<Rightarrow> int \<Rightarrow> (gerr + bool) prog" where
  "RateLimiter_Allow r tenantID limit =
     Now (\<lambda>now.
       RedisPipe [ZREMRANGEBYSCORE (rl_key tenantID) 0 (UnixMilli (now - rl_window r)),
                  ZCARD (rl_key tenantID)] (\<lambda>res. case res of
         Inl err \<Rightarrow> Ret (Inl (Wrapf ''rate limit pipeline: '' err ''''))
       | Inr replies \<Rightarrow>
           if int_reply (replies ! 1) \<ge> limit then Ret (Inr False)
           else
             NewUUID (\<lambda>member.
               bind (pipe_Exec [ZADD (rl_key tenantID) (UnixMilli now) member,
                                EXPIRE (rl_key tenantID) (expiry_ms (rl_window r + 10000000000))])
                 (\<lambda>e. case e of
                    Some err \<Rightarrow> Ret (Inl (Wrapf ''rate limit add: '' err ''''))
                  | None \<Rightarrow> Ret (Inr True)))))"

subsection \<open>Windows of grants\<close>

definition window_ms :: int where "window_ms = 60000"

text \<open>A history lists the answers of Allow with the times the calls read from the clock.\<close>

type_synonym history = "(bool \<times> int) list"

definition grants :: "history \<Rightarrow> int list" where
  "grants h = map snd (filter fst h)"

definition recent :: "int \<Rightarrow> int list \<Rightarrow> int list" where
  "recent now ts = filter (\<lambda>t. now - window_ms < t) ts"

definition in_window :: "int \<Rightarrow> int list \<Rightarrow> int list" where
  "in_window x ts = filter (\<lambda>t. x - window_ms < t \<and> t \<le> x) ts"

definition exact :: "int \<Rightarrow> history \<Rightarrow> bool" where
  "exact limit h \<longleftrightarrow>
     (\<forall>i < length h. fst (h ! i) \<longleftrightarrow> int (length (recent (snd (h ! i)) (grants (take i h)))) < limit)"

lemma grants_simps [simp]:
  "grants [] = []" "grants (h @ [(ok, t)]) = grants h @ (if ok then [t] else [])"
  by (simp_all add: grants_def)

lemma exact_snoc:
  "exact limit (h @ [(ok, t)]) \<longleftrightarrow>
     exact limit h \<and> (ok \<longleftrightarrow> int (length (recent t (grants h))) < limit)"
  by (auto simp: exact_def nth_append less_Suc_eq)

lemma exact_Nil [simp]: "exact limit []"
  by (simp add: exact_def)

text \<open>The sliding-window bound follows from exact decisions at times that do not go back.\<close>

lemma exact_window:
  assumes "exact limit h" "sorted (map snd h)" "0 \<le> limit"
  shows "int (length (in_window x (grants h))) \<le> limit"
  using assms(1,2)
proof (induction h rule: rev_induct)
  case Nil
  then show ?case using assms(3) by (simp add: in_window_def)
next
  case (snoc p h)
  obtain ok t where p: "p = (ok, t)" by force
  have IH: "int (length (in_window x (grants h))) \<le> limit"
    using snoc by (simp add: p exact_snoc sorted_append)
  show ?case
  proof (cases "ok \<and> t \<le> x \<and> x - window_ms < t")
    case True
    have "in_window x (grants h) = filter (\<lambda>s. s \<le> x \<and> x - window_ms < s) (recent t (grants h))"
      using True by (auto simp: in_window_def recent_def intro!: filter_cong)
    then have "length (in_window x (grants h)) \<le> length (recent t (grants h))" by simp
    moreover have "int (length (recent t (grants h))) < limit"
      using snoc.prems(1) True by (simp add: p exact_snoc)
    ultimately show ?thesis using True by (simp add: p in_window_def)
  next
    case False
    then have "in_window x (grants (h @ [p])) = in_window x (grants h)"
      by (auto simp: p in_window_def)
    then show ?thesis using IH by simp
  qed
qed

subsection \<open>The sorted set holds the recent grants\<close>

definition rl_repr :: "platform \<Rightarrow> (nat \<Rightarrow> int) \<Rightarrow> nat \<Rightarrow> (rval \<times> int option) option \<Rightarrow> int list \<Rightarrow> bool" where
  "rl_repr P rt n entry ts \<longleftrightarrow>
     (case entry of
        None \<Rightarrow> recent (rt n) ts = []
      | Some (v, d) \<Rightarrow>
          (\<exists>zs e. v = RZset zs \<and> d = Some e \<and> distinct (map z_member zs)
             \<and> z_member ` set zs \<subseteq> pl_uuid P ` {..<n} \<and> (\<forall>z \<in> set zs. 0 \<le> z_score z)
             \<and> mset (recent (rt n) (map z_score zs)) = mset (recent (rt n) ts)
             \<and> (\<forall>t \<in> set ts. t + window_ms + 10000 \<le> e)))"

lemma recent_recent: "t \<le> t' \<Longrightarrow> recent t' (recent t ts) = recent t' ts"
  by (auto simp: recent_def intro!: filter_cong)

lemma recent_mset_later:
  assumes "mset (recent t as) = mset (recent t bs)" "t \<le> t'"
  shows "mset (recent t' as) = mset (recent t' bs)"
proof -
  have "mset (recent t' cs) = filter_mset (\<lambda>s. t' - window_ms < s) (mset (recent t cs))" for cs
  proof -
    have "recent t' cs = filter (\<lambda>s. t' - window_ms < s) (recent t cs)"
      using recent_recent [OF assms(2), of cs] by (simp only: recent_def [of t' "recent t cs"])
    then show ?thesis by (simp only: mset_filter)
  qed
  with assms(1) show ?thesis by simp
qed

lemma recent_append [simp]: "recent t (as @ bs) = recent t as @ recent t bs"
  by (simp add: recent_def)

lemma rl_repr_later:
  assumes "rl_repr P rt n entry ts" "n \<le> m" "rt n \<le> rt m"
  shows "rl_repr P rt m entry ts"
proof (cases entry)
  case None
  then have "recent (rt n) ts = []" using assms(1) by (simp add: rl_repr_def)
  then have "recent (rt m) ts = []"
    using recent_recent [OF assms(3), of ts] by (simp add: recent_def)
  then show ?thesis using None by (simp add: rl_repr_def)
next
  case (Some vd)
  with assms(1) obtain zs e where vd: "vd = (RZset zs, Some e)"
    and zs: "distinct (map z_member zs)" "z_member ` set zs \<subseteq> pl_uuid P ` {..<n}" "\<forall>z \<in> set zs. 0 \<le> z_score z"
    and m: "mset (recent (rt n) (map z_score zs)) = mset (recent (rt n) ts)"
    and e: "\<forall>t \<in> set ts. t + window_ms + 10000 \<le> e"
    by (cases vd) (auto simp: rl_repr_def)
  have "pl_uuid P ` {..<n} \<subseteq> pl_uuid P ` {..<m}" using assms(2) by auto
  with zs e recent_mset_later [OF m assms(3)] show ?thesis
    by (simp add: rl_repr_def Some vd subset_trans)
qed

subsection \<open>One call\<close>

text \<open>
  Redis and the caller share one clock, and the tokens are fresh. A call is prompt when the
  first pipeline runs within ten seconds of reading the clock, the margin of the key's
  expiration.
\<close>

locale rate_clock = reliable_redis +
  assumes clock: "rt n = UnixMilli (pl_now P n)"
    and after_epoch: "0 \<le> rt n"
    and fresh: "pl_uuid P m = pl_uuid P n \<longleftrightarrow> m = n"

interpretation calm_rate: rate_clock "sim (calm s)" "sim_ms (calm s)" for s
proof (unfold_locales, goal_cases)
  case (1 n)
  show ?case by (simp add: sim_ms_def sim_def UnixMilli_def)
next
  case (2 n)
  have "0 \<le> sim_time (calm s) n"
    using sim_time_mono [of 0 n "calm s"] by (simp add: calm_def)
  then show ?case by (simp add: sim_ms_def)
next
  case (3 m n)
  have "show_nat m = show_nat n \<longleftrightarrow> m = n"
    by (metis digits_value_show_nat)
  then show ?case by (simp add: sim_def calm_def)
qed

lemma rl_repr_zset:
  assumes "rl_repr P rt n (ks k) ts" "rt n \<le> t"
  shows "\<exists>zs. zset_of (live t ks k) = Some zs \<and> distinct (map z_member zs)
    \<and> z_member ` set zs \<subseteq> pl_uuid P ` {..<n} \<and> (\<forall>z \<in> set zs. 0 \<le> z_score z)
    \<and> (t \<le> rt n + 10000 \<longrightarrow> mset (recent (rt n) (map z_score zs)) = mset (recent (rt n) ts))"
proof (cases "live t ks k")
  case None
  have "recent (rt n) ts = []" if "t \<le> rt n + 10000"
  proof (cases "ks k")
    case None
    then show ?thesis using assms(1) by (simp add: rl_repr_def)
  next
    case (Some vd)
    then have "\<forall>s \<in> set ts. s + window_ms + 10000 \<le> t"
      using assms(1) None by (auto simp: rl_repr_def live_def split: if_splits)
    then show ?thesis using that by (force simp: recent_def filter_empty_conv)
  qed
  then show ?thesis using None by (auto simp: zset_of_def recent_def)
next
  case (Some v)
  with assms(1) show ?thesis
    by (auto simp: rl_repr_def live_def zset_of_def split: option.splits if_splits)
qed

lemma zset_of_live_put:
  assumes "zset_of (live t ks k) = Some zs" "zs' = [] \<or> zs \<noteq> [] \<or> kept_deadline t ks k = None"
  shows "zset_of (live t (put_zset ks k (kept_deadline t ks k) zs') k) = Some zs'"
  using assms
  by (auto simp: zset_of_def put_zset_def live_def kept_deadline_def split: option.splits if_splits)

lemma kept_deadline_cases:
  "kept_deadline t ks k = None \<or> (\<exists>d. kept_deadline t ks k = Some d \<and> t < d \<and> (\<exists>v. ks k = Some (v, Some d)))"
  by (auto simp: kept_deadline_def split: option.splits)

lemma repr_trim:
  assumes repr: "rl_repr P rt n (ks k) ts" and t: "rt n \<le> t" "t \<le> rt n + 10000"
    and "zset_of (live t ks k) = Some zs"
  defines "keep \<equiv> filter (\<lambda>z. \<not> (0 \<le> z_score z \<and> z_score z \<le> rt n - window_ms)) zs"
  shows "length keep = length (recent (rt n) ts)"
    and "rl_repr P rt n (put_zset ks k (kept_deadline t ks k) keep k) ts"
proof -
  from rl_repr_zset [where ks = ks and k = k, OF repr t(1)] assms(4) t(2)
  have zs: "distinct (map z_member zs)" "z_member ` set zs \<subseteq> pl_uuid P ` {..<n}"
    "\<forall>z \<in> set zs. 0 \<le> z_score z"
    and m: "mset (recent (rt n) (map z_score zs)) = mset (recent (rt n) ts)"
    by auto
  have keep: "keep = filter (\<lambda>z. rt n - window_ms < z_score z) zs"
    using zs(3) by (auto simp: keep_def intro!: filter_cong)
  then have rk: "recent (rt n) (map z_score zs) = map z_score keep"
    by (simp add: recent_def filter_map o_def)
  from rk m show len: "length keep = length (recent (rt n) ts)"
    by (metis length_map mset_eq_length)
  show "rl_repr P rt n (put_zset ks k (kept_deadline t ks k) keep k) ts"
  proof (cases "keep = []")
    case True
    then show ?thesis using len by (simp add: rl_repr_def put_zset_def)
  next
    case False
    then have "zs \<noteq> []" by (auto simp: keep_def)
    then obtain e where e: "ks k = Some (RZset zs, e)" "live t ks k = Some (RZset zs)"
      using assms(4) by (auto simp: zset_of_def live_def split: option.splits rval.splits if_splits)
    then obtain d where d: "e = Some d" "t < d" "\<forall>s \<in> set ts. s + window_ms + 10000 \<le> d"
      using repr by (auto simp: rl_repr_def live_def split: if_splits)
    have "recent (rt n) (map z_score keep) = map z_score keep"
      using rk recent_recent [of "rt n" "rt n" "map z_score zs"] by simp
    moreover have "distinct (map z_member keep)"
      using zs(1) by (simp add: keep_def distinct_map_filter)
    ultimately show ?thesis
      using False zs(2,3) m rk d e
      by (auto simp: rl_repr_def put_zset_def kept_deadline_def keep_def)
  qed
qed

lemma applys_trim_card:
  assumes "zset_of (live t ks k) = Some zs"
    and "keep = filter (\<lambda>z. \<not> (lo \<le> z_score z \<and> z_score z \<le> hi)) zs"
  shows "\<exists>x. redis_applys t [ZREMRANGEBYSCORE k lo hi, ZCARD k] ks =
    ([Inr x, Inr (RInt (int (length keep)))], put_zset ks k (kept_deadline t ks k) keep)"
proof -
  have "zset_of (live t (put_zset ks k (kept_deadline t ks k) keep) k) = Some keep"
    by (rule zset_of_live_put [OF assms(1)]) (auto simp: assms(2))
  then show ?thesis using assms(1) by (simp add: Let_def flip: assms(2) del: de_Morgan_conj)
qed

lemma applys_add_expire:
  assumes "zset_of (live t ks k) = Some zs" "0 < ttl"
  shows "\<exists>x y. redis_applys t [ZADD k T u, EXPIRE k ttl] ks = ([Inr x, Inr y],
    ks(k \<mapsto> (RZset (insort (ZEntry T u) (filter (\<lambda>z. z_member z \<noteq> u) zs)), Some (t + ttl))))"
  using assms kept_deadline_cases [of t ks k]
  by (auto simp: put_zset_def live_def insort_not_Nil split: option.splits)

text \<open>
  A tenant is served one call at a time: \<open>served\<close> is the history of the calls between the
  first world and the last; in between, time passes and other keys and tables change.
\<close>

inductive served :: "platform \<Rightarrow> (nat \<Rightarrow> int) \<Rightarrow> string \<Rightarrow> int \<Rightarrow> world \<Rightarrow> history \<Rightarrow> world \<Rightarrow> bool"
  for P rt tid limit w0 where
  served_none: "served P rt tid limit w0 [] w0"
| served_idle: "served P rt tid limit w0 h w \<Longrightarrow> w_tick w \<le> w_tick u \<Longrightarrow>
     w_keys u (rl_key tid) = w_keys w (rl_key tid) \<Longrightarrow> served P rt tid limit w0 h u"
| served_call: "served P rt tid limit w0 h w \<Longrightarrow> rt (Suc (w_tick w)) \<le> rt (w_tick w) + 10000 \<Longrightarrow>
     run P (RateLimiter_Allow NewRateLimiterRepo tid limit) w = (Returns (Inr ok), w') \<Longrightarrow>
     served P rt tid limit w0 (h @ [(ok, UnixMilli (pl_now P (w_tick w)))]) w'"

context rate_clock
begin

lemma repr_add:
  assumes repr: "rl_repr P rt n (ks k) ts" and m: "n \<le> m" and t: "t = rt m" and T: "T \<le> t" "0 \<le> T"
    and ts: "\<forall>s \<in> set ts. s \<le> T" and u: "u = pl_uuid P n"
    and zs: "zset_of (live t ks k) = Some zs"
  shows "rl_repr P rt (Suc m)
    (Some (RZset (insort (ZEntry T u) (filter (\<lambda>z. z_member z \<noteq> u) zs)), Some (t + 70000))) (ts @ [T])"
proof -
  have r: "rt n \<le> rt m" "rt m \<le> rt (Suc m)" using m by (auto intro: rt_mono)
  from rl_repr_zset [where ks = ks and k = k and t = t, OF repr] zs r t
  have z: "distinct (map z_member zs)" "z_member ` set zs \<subseteq> pl_uuid P ` {..<n}"
    "\<forall>z \<in> set zs. 0 \<le> z_score z" by auto
  from rl_repr_zset [where ks = ks and k = k and t = t, OF rl_repr_later [OF repr m r(1)]] zs t
  have ms: "mset (recent (rt m) (map z_score zs)) = mset (recent (rt m) ts)" by simp
  have nu: "u \<notin> z_member ` set zs" using z(2) fresh by (auto simp: u)
  then have f: "filter (\<lambda>z. z_member z \<noteq> u) zs = zs" by (auto simp: filter_id_conv)
  let ?zs = "insort (ZEntry T u) zs"
  have mi: "mset (map f ?zs) = add_mset (f (ZEntry T u)) (mset (map f zs))" for f :: "zentry \<Rightarrow> 'x"
    by simp
  have "distinct (map z_member ?zs)"
    using z(1) nu mi [of z_member] by (metis distinct.simps(2) list.set_map list.simps(9) mset.simps(2) mset_eq_imp_distinct_iff zentry.sel(2))
  moreover have "mset (recent (rt (Suc m)) (map z_score ?zs)) = mset (recent (rt (Suc m)) (ts @ [T]))"
    using recent_mset_later [OF ms r(2)] by (simp add: recent_def)
  moreover have "z_member ` set ?zs \<subseteq> pl_uuid P ` {..<Suc m}"
    using z(2) m by (force simp: u set_insort_key)
  moreover have "\<forall>s \<in> set (ts @ [T]). s + window_ms + 10000 \<le> t + 70000"
    using ts T by (auto simp: window_ms_def)
  ultimately show ?thesis
    using z(3) T by (simp add: rl_repr_def f set_insort_key)
qed

lemma RateLimiter_Allow_wp:
  fixes w :: world
  defines "n \<equiv> w_tick w"
  assumes repr: "rl_repr P rt n (w_keys w (rl_key tid)) ts" and ts: "\<forall>s \<in> set ts. s \<le> rt n"
    and prompt: "rt (Suc n) \<le> rt n + 10000"
  shows "wp P (RateLimiter_Allow NewRateLimiterRepo tid limit)
    (\<lambda>res w'. \<exists>ok. res = Inr ok \<and> (ok \<longleftrightarrow> int (length (recent (rt n) ts)) < limit)
       \<and> rl_repr P rt (w_tick w') (w_keys w' (rl_key tid)) (ts @ (if ok then [rt n] else []))) w"
proof -
  let ?k = "rl_key tid" and ?t1 = "rt (Suc n)" and ?t3 = "rt (Suc (Suc (Suc n)))"
  have mono: "rt n \<le> ?t1" "rt n \<le> rt (Suc (Suc n))" "rt (Suc (Suc n)) \<le> ?t3" "rt n \<le> ?t3"
    by (auto intro: rt_mono)
  from rl_repr_zset [where ks = "w_keys w" and k = ?k, OF repr mono(1)]
  obtain zs where zs: "zset_of (live ?t1 (w_keys w) ?k) = Some zs" by auto
  define keep where "keep = filter (\<lambda>z. \<not> (0 \<le> z_score z \<and> z_score z \<le> rt n - window_ms)) zs"
  define ks1 where "ks1 = put_zset (w_keys w) ?k (kept_deadline ?t1 (w_keys w) ?k) keep"
  note trim = repr_trim [where ks = "w_keys w" and k = ?k, OF repr mono(1) prompt zs, folded keep_def ks1_def]
  obtain x where p1: "redis_applys ?t1 [ZREMRANGEBYSCORE ?k 0 (rt n - window_ms), ZCARD ?k] (w_keys w) =
      ([Inr x, Inr (RInt (int (length keep)))], ks1)"
    using applys_trim_card [OF zs keep_def] by (auto simp: ks1_def simp del: redis_applys.simps)
  note repr2 = rl_repr_later [OF trim(2), of "Suc (Suc n)", OF _ mono(2)]
  from rl_repr_zset [where ks = ks1 and k = ?k, OF repr2 mono(3)]
  obtain zs3 where zs3: "zset_of (live ?t3 ks1 ?k) = Some zs3" by auto
  define u where "u = pl_uuid P (Suc (Suc n))"
  note added = repr_add [where ks = ks1 and k = ?k, OF repr2 _ refl mono(4) after_epoch ts u_def zs3]
  have ws: "UnixMilli (pl_now P n - 60000000000) = rt n - window_ms"
  proof -
    have "pl_now P n - 60000000000 = pl_now P n + (- 60000) * 1000000" by simp
    then show ?thesis by (simp only: UnixMilli_def clock window_ms_def div_mult_self1)
  qed
  obtain y z where p2: "redis_applys ?t3 [ZADD ?k (rt n) u, EXPIRE ?k 70000] ks1 = ([Inr y, Inr z],
      ks1(?k \<mapsto> (RZset (insort (ZEntry (rt n) u) (filter (\<lambda>z. z_member z \<noteq> u) zs3)), Some (?t3 + 70000))))"
    using applys_add_expire [OF zs3, of 70000 "rt n" u] by (auto simp del: redis_applys.simps)
  have p: "rl_window NewRateLimiterRepo = 60000000000" "expiry_ms 70000000000 = 70000"
    by (simp_all add: NewRateLimiterRepo_def expiry_ms_def)
  show ?thesis
    using trim(1) repr2 added p1 p2 p ws u_def
    by (simp add: RateLimiter_Allow_def run_simps pipe_Exec_def clock [symmetric] n_def [symmetric]
        del: redis_applys.simps)
qed

lemma served_invariant:
  assumes "served P rt tid limit w0 h w" "w_keys w0 (rl_key tid) = None"
  shows "rl_repr P rt (w_tick w) (w_keys w (rl_key tid)) (grants h) \<and> exact limit h
    \<and> sorted (map snd h) \<and> (\<forall>p \<in> set h. snd p \<le> rt (w_tick w))"
  using assms
proof induction
  case served_none
  then show ?case by (simp add: rl_repr_def recent_def)
next
  case (served_idle h w u)
  moreover have "rt (w_tick w) \<le> rt (w_tick u)" using served_idle.hyps by (simp add: rt_mono)
  ultimately show ?case by (auto intro: rl_repr_later order_trans)
next
  case (served_call h w ok w')
  then have IH: "rl_repr P rt (w_tick w) (w_keys w (rl_key tid)) (grants h)" "exact limit h"
    "sorted (map snd h)" "\<forall>p \<in> set h. snd p \<le> rt (w_tick w)"
    by auto
  have "\<forall>s \<in> set (grants h). s \<le> rt (w_tick w)" using IH(4) by (auto simp: grants_def)
  from wp_returns [OF RateLimiter_Allow_wp [OF IH(1) this served_call.hyps(2)] served_call.hyps(3)]
  have "rl_repr P rt (w_tick w') (w_keys w' (rl_key tid)) (grants h @ (if ok then [rt (w_tick w)] else []))"
    "ok \<longleftrightarrow> int (length (recent (rt (w_tick w)) (grants h))) < limit"
    by auto
  moreover have "rt (w_tick w) \<le> rt (w_tick w')"
    using run_tick_mono [OF served_call.hyps(3)] by (simp add: rt_mono)
  ultimately show ?case
    using IH by (auto simp: exact_snoc sorted_append simp flip: clock)
qed

end

subsection \<open>A run\<close>

text \<open>Two calls with limit 1, the second refused.\<close>

definition served_world :: "nat \<Rightarrow> world" where
  "served_world k =
     ((\<lambda>w. snd (run (sim quiet) (RateLimiter_Allow NewRateLimiterRepo ''t'' 1) w)) ^^ k) empty_world"

definition two_calls :: history where
  "two_calls = [(True, 1700000000000), (False, 1700000000000)]"

lemma served_world_outcomes:
  "map (\<lambda>k. fst (run (sim quiet) (RateLimiter_Allow NewRateLimiterRepo ''t'' 1) (served_world k))) [0, 1] =
    [Returns (Inr True), Returns (Inr False)]"
  by code_simp

lemma served_two: "served (sim quiet) (sim_ms quiet) ''t'' 1 empty_world two_calls (served_world 2)"
proof -
  have next_call: "served (sim quiet) (sim_ms quiet) ''t'' 1 empty_world (h @ [(ok, 1700000000000)]) (served_world (Suc k))"
    if "served (sim quiet) (sim_ms quiet) ''t'' 1 empty_world h (served_world k)"
      "fst (run (sim quiet) (RateLimiter_Allow NewRateLimiterRepo ''t'' 1) (served_world k)) = Returns (Inr ok)"
    for h k ok
  proof -
    have "UnixMilli (pl_now (sim quiet) (w_tick (served_world k))) = 1700000000000"
      by (simp add: sim_def UnixMilli_def)
    moreover have "run (sim quiet) (RateLimiter_Allow NewRateLimiterRepo ''t'' 1) (served_world k) =
        (Returns (Inr ok), served_world (Suc k))"
      using that(2) by (simp add: served_world_def prod_eq_iff)
    ultimately show ?thesis
      using served_call [OF that(1)] by simp
  qed
  have 0: "served (sim quiet) (sim_ms quiet) ''t'' 1 empty_world [] (served_world 0)"
    by (simp add: served_world_def served_none)
  from served_world_outcomes
    next_call [OF next_call [OF 0, of True], of False]
  show ?thesis by (simp add: two_calls_def eval_nat_numeral)
qed

subsection \<open>Properties\<close>

text \<open>
  C16: on a Redis that answers and shares the caller's clock, starting from an empty key, prompt
  calls one at a time are decided exactly: a request is granted if and only if fewer than the limit were granted in
  the minute before it, whatever else the system does in between.
\<close>

theorem rate_limiter_exact:
  assumes "rate_clock P rt" "served P rt tid limit w0 h w" "w_keys w0 (rl_key tid) = None"
  shows "exact limit h"
  using rate_clock.served_invariant [OF assms] by simp

theorem rate_limiter_exact_witness: "exact 1 two_calls"
  by (rule rate_limiter_exact [OF calm_rate.rate_clock_axioms [of quiet, simplified] served_two])
    (simp add: empty_world_def)

text \<open>
  C27: hence, for calls one at a time, on a Redis that answers and shares the caller's clock,
  starting from an empty key: in no window of a minute are more requests granted than the limit.
  (For concurrent calls this does not hold, as rate_limiter_race below shows.)
\<close>

theorem rate_limiter_window_bound:
  assumes "rate_clock P rt" "served P rt tid limit w0 h w" "w_keys w0 (rl_key tid) = None" "0 \<le> limit"
  shows "int (length (in_window x (grants h))) \<le> limit"
  using rate_clock.served_invariant [OF assms(1-3)] assms(4) by (simp add: exact_window)

theorem rate_limiter_window_bound_witness:
  "int (length (in_window 1700000000000 (grants two_calls))) \<le> 1"
  by (rule rate_limiter_window_bound
      [OF calm_rate.rate_clock_axioms [of quiet, simplified] served_two]) (simp_all add: empty_world_def)

text \<open>
  The count and the addition are two pipelines, so concurrent calls are not decided
  exactly: there is a schedule of two calls with limit 1, on a Redis that answers, that
  grants both.
\<close>

theorem rate_limiter_race:
  "(case run_schedule (rl_key ''t'') (sim quiet) [0, 0, 1, 1, 0, 0, 1, 1]
       (replicate 2 \<lparr>wk_prog = RateLimiter_Allow NewRateLimiterRepo ''t'' 1, wk_held = None\<rparr>, empty_world) of
     (ps, w) \<Rightarrow> map (\<lambda>p. returned (wk_prog p)) ps = [Some (Inr True), Some (Inr True)])"
  by code_simp

end
