(* ===== verification/Api_Server.thy ===== *)
theory Api_Server
  imports Api_Handlers Rate_Limiter
begin

text \<open>
  \<^verbatim>\<open>internal/api/middleware\<close> and \<^verbatim>\<open>internal/api/router.go\<close>: authentication, rate limiting,
  CORS and the request log around the handlers, and the table of routes. The router is
  \<^verbatim>\<open>chi\<close>: how a pattern matches a path and what is answered when none does is a parameter.
  \<^verbatim>\<open>middleware.RealIP\<close> replaces the remote address, which only the request log uses. The other
  middleware of libraries in the chain (request identifiers, tracing) does not change what the
  handlers see; the last one recovers from panics, and
  the handlers have none (\<open>api_never_panics\<close>).
\<close>

subsection \<open>Middleware\<close>

text \<open>\<^verbatim>\<open>w.Header().Set\<close> before the next handler runs: what that one sets for the same key wins.\<close>

definition set_before :: "string \<Rightarrow> string \<Rightarrow> api_response \<Rightarrow> api_response" where
  "set_before k v rs = (let key = CanonicalHeaderKey k in
     if key \<in> set (map fst (as_Headers rs)) then rs
     else rs\<lparr>as_Headers := (key, v) # as_Headers rs\<rparr>)"

lemma set_before_simps [simp]:
  "as_Status (set_before k v rs) = as_Status rs" "as_Body (set_before k v rs) = as_Body rs"
  by (simp_all add: set_before_def Let_def)

definition extractAPIKey :: "api_request \<Rightarrow> string" where
  "extractAPIKey rq = (let auth = ar_Header rq ''Authorization'' in
     if HasPrefix auth ''Bearer '' then TrimPrefix auth ''Bearer '' else ar_Header rq ''X-API-Key'')"

definition Auth :: "(string \<Rightarrow> (gerr + tenant) prog) \<Rightarrow> api_handler \<Rightarrow> api_handler" where
  "Auth lookup nxt ctx rq = (let apiKey = extractAPIKey rq in
     if apiKey = '''' then Ret (response_Error 401 ''missing or invalid authorization header'')
     else bind (lookup apiKey) (\<lambda>r. case r of
       Inl err \<Rightarrow> Ret (response_Error 401 ''invalid api key'')
     | Inr tn \<Rightarrow> nxt (Some tn) rq))"

definition writeError :: "int \<Rightarrow> string \<Rightarrow> api_response" where
  "writeError status message = \<lparr>as_Status = status, as_Headers = json_header,
     as_Body = MapBody [(''error'', message), (''code'', StatusText status)]\<rparr>"

definition RateLimit :: "RateLimiterRepo \<Rightarrow> api_handler \<Rightarrow> api_handler" where
  "RateLimit limiter nxt ctx rq = (case ctx of
     None \<Rightarrow> Ret (writeError 401 ''tenant not found'')
   | Some tn \<Rightarrow>
       bind (RateLimiter_Allow limiter (tn_ID tn) (tn_RateLimitPerMinute tn)) (\<lambda>r. case r of
         Inl err \<Rightarrow> Ret (writeError 500 ''rate limit check failed'')
       | Inr allowed \<Rightarrow>
           bind (if \<not> allowed then Ret (set_before ''Retry-After'' ''60'' (writeError 429 ''rate limit exceeded''))
                 else nxt ctx rq)
             (\<lambda>rs. Ret (set_before ''X-RateLimit-Limit'' (show_int (tn_RateLimitPerMinute tn)) rs))))"

text \<open>The line the request log gets; writing it is the logger's.\<close>

record request_log =
  lg_Method :: string
  lg_Path :: string
  lg_Status :: int
  lg_Duration :: int
  lg_RemoteAddr :: string

definition Logging :: "(api_request \<Rightarrow> api_response prog) \<Rightarrow> api_request \<Rightarrow> (api_response \<times> request_log option) prog" where
  "Logging nxt rq =
     Now (\<lambda>start. bind (nxt rq) (\<lambda>rs. Now (\<lambda>end.
       Ret (rs, Some \<lparr>lg_Method = ar_Method rq, lg_Path = ar_Path rq, lg_Status = as_Status rs,
          lg_Duration = end - start, lg_RemoteAddr = ar_RemoteAddr rq\<rparr>))))"

definition cors_headers :: "api_response \<Rightarrow> api_response" where
  "cors_headers rs = set_before ''Access-Control-Allow-Origin'' ''*''
     (set_before ''Access-Control-Allow-Methods'' ''GET, POST, PUT, DELETE, OPTIONS''
       (set_before ''Access-Control-Allow-Headers'' ''Content-Type, Authorization, X-API-Key'' rs))"

definition CORS ::
  "(api_request \<Rightarrow> (api_response \<times> request_log option) prog) \<Rightarrow> api_request \<Rightarrow> (api_response \<times> request_log option) prog" where
  "CORS nxt rq =
     (if ar_Method rq = ''OPTIONS'' then Ret (cors_headers \<lparr>as_Status = 204, as_Headers = [], as_Body = NoBody\<rparr>, None)
      else bind (nxt rq) (\<lambda>(rs, log). Ret (cors_headers rs, log)))"

subsection \<open>Routes\<close>

text \<open>
  What the code uses of \<^verbatim>\<open>chi\<close>: whether a pattern matches the whole path; whether a path
  belongs to a mounted router, with the parameter in the pattern and the path that is left;
  the answers when no route, or none with the method, is found; and the remote address that
  \<^verbatim>\<open>middleware.RealIP\<close> gives a request.
\<close>

record chi =
  ch_Match :: "string \<Rightarrow> string \<Rightarrow> bool"
  ch_Mount :: "string \<Rightarrow> string \<Rightarrow> (string \<times> string) option"
  ch_NotFound :: api_response
  ch_MethodNotAllowed :: api_response
  ch_RealIP :: "api_request \<Rightarrow> string"

text \<open>The handlers of one pattern, by method.\<close>

definition by_method :: "chi \<Rightarrow> (string \<times> api_handler) list \<Rightarrow> api_handler" where
  "by_method mux hs ctx rq = (case map_of hs (ar_Method rq) of
     Some h \<Rightarrow> h ctx rq
   | None \<Rightarrow> Ret (ch_MethodNotAllowed mux))"

definition EndpointHandler_Routes :: "chi \<Rightarrow> apilib \<Rightarrow> string \<Rightarrow> api_handler" where
  "EndpointHandler_Routes mux al path ctx rq =
     (if ch_Match mux ''/'' path then
        by_method mux [(''POST'', EndpointHandler_Create al), (''GET'', EndpointHandler_List al)] ctx rq
      else case ch_Mount mux ''/{id}'' path of
        None \<Rightarrow> Ret (ch_NotFound mux)
      | Some (eid, rest) \<Rightarrow>
          if ch_Match mux ''/'' rest then
            by_method mux [(''GET'', EndpointHandler_Get al eid), (''PUT'', EndpointHandler_Update al eid),
                (''DELETE'', EndpointHandler_Delete eid)] ctx rq
          else Ret (ch_NotFound mux))"

definition EventHandler_Routes :: "chi \<Rightarrow> apilib \<Rightarrow> Producer \<Rightarrow> string \<Rightarrow> api_handler" where
  "EventHandler_Routes mux al p path ctx rq =
     (if ch_Match mux ''/'' path then
        by_method mux [(''POST'', EventHandler_Create al p), (''GET'', EventHandler_List al)] ctx rq
      else case ch_Mount mux ''/{id}'' path of
        None \<Rightarrow> Ret (ch_NotFound mux)
      | Some (eid, rest) \<Rightarrow>
          if ch_Match mux ''/'' rest then by_method mux [(''GET'', EventHandler_Get al eid)] ctx rq
          else Ret (ch_NotFound mux))"

definition TenantHandler_Routes :: "chi \<Rightarrow> apilib \<Rightarrow> string \<Rightarrow> api_handler" where
  "TenantHandler_Routes mux al path ctx rq =
     (if ch_Match mux ''/'' path then by_method mux [(''POST'', TenantHandler_Create al)] ctx rq
      else if ch_Match mux ''/me'' path then
        by_method mux [(''GET'', TenantHandler_GetMe al), (''PUT'', TenantHandler_UpdateMe al)] ctx rq
      else Ret (ch_NotFound mux))"

record Server =
  sv_chi :: chi
  sv_lib :: apilib
  sv_publisher :: Producer
  sv_rateLimiter :: RateLimiterRepo
  sv_pool_Ping :: "gerr option prog"
  sv_redis_Ping :: "gerr option prog"
  sv_metrics :: api_response              \<comment> \<open>what \<^verbatim>\<open>telemetry.MetricsHandler\<close> answers\<close>

text \<open>The services the server is given act on the database that all share; of their fields the publisher is left.\<close>

definition NewServer :: "chi \<Rightarrow> apilib \<Rightarrow> Producer \<Rightarrow> RateLimiterRepo \<Rightarrow> gerr option prog \<Rightarrow> gerr option prog \<Rightarrow> api_response \<Rightarrow> Server" where
  "NewServer mux al publisher rateLimiter pool_Ping redis_Ping metrics =
     \<lparr>sv_chi = mux, sv_lib = al, sv_publisher = publisher, sv_rateLimiter = rateLimiter,
      sv_pool_Ping = pool_Ping, sv_redis_Ping = redis_Ping, sv_metrics = metrics\<rparr>"

lemma NewServer_simps [simp]:
  "sv_pool_Ping (NewServer mux al p rl pool rdb mt) = pool" "sv_redis_Ping (NewServer mux al p rl pool rdb mt) = rdb"
  by (simp_all add: NewServer_def)

definition events_router :: "Server \<Rightarrow> string \<Rightarrow> api_handler" where
  "events_router s path = RateLimit (sv_rateLimiter s) (\<lambda>ctx rq.
     case ch_Mount (sv_chi s) ''/'' path of
       None \<Rightarrow> Ret (ch_NotFound (sv_chi s))
     | Some (_, rest) \<Rightarrow> EventHandler_Routes (sv_chi s) (sv_lib s) (sv_publisher s) rest ctx rq)"

definition api_v1 :: "Server \<Rightarrow> string \<Rightarrow> api_handler" where
  "api_v1 s path ctx rq = (case ch_Mount (sv_chi s) ''/tenants'' path of
     Some (_, rest) \<Rightarrow> TenantHandler_Routes (sv_chi s) (sv_lib s) rest ctx rq
   | None \<Rightarrow> (case ch_Mount (sv_chi s) ''/endpoints'' path of
       Some (_, rest) \<Rightarrow>
         Auth tenantService_GetByAPIKey (EndpointHandler_Routes (sv_chi s) (sv_lib s) rest) ctx rq
     | None \<Rightarrow> (case ch_Mount (sv_chi s) ''/events'' path of
         Some (_, rest) \<Rightarrow> Auth tenantService_GetByAPIKey (events_router s rest) ctx rq
       | None \<Rightarrow> Ret (ch_NotFound (sv_chi s)))))"

definition route :: "Server \<Rightarrow> api_handler" where
  "route s ctx rq =
     (if ch_Match (sv_chi s) ''/healthz'' (ar_Path rq) then
        by_method (sv_chi s) [(''GET'', HealthHandler_Live)] ctx rq
      else if ch_Match (sv_chi s) ''/readyz'' (ar_Path rq) then
        by_method (sv_chi s) [(''GET'', HealthHandler_Ready (sv_pool_Ping s) (sv_redis_Ping s))] ctx rq
      else if ch_Match (sv_chi s) ''/metrics'' (ar_Path rq) then Ret (sv_metrics s)
      else case ch_Mount (sv_chi s) ''/api/v1'' (ar_Path rq) of
        Some (_, rest) \<Rightarrow> api_v1 s rest ctx rq
      | None \<Rightarrow> Ret (ch_NotFound (sv_chi s)))"

definition setupRouter :: "Server \<Rightarrow> api_request \<Rightarrow> (api_response \<times> request_log option) prog" where
  "setupRouter s rq =
     CORS (Logging (route s None)) (rq\<lparr>ar_RemoteAddr := ch_RealIP (sv_chi s) rq\<rparr>)"

definition ServeHTTP :: "Server \<Rightarrow> api_request \<Rightarrow> (api_response \<times> request_log option) prog" where
  "ServeHTTP s rq = setupRouter s rq"

text \<open>No handler looks at the remote address.\<close>

lemma extractAPIKey_RemoteAddr [simp]: "extractAPIKey (rq\<lparr>ar_RemoteAddr := a\<rparr>) = extractAPIKey rq"
  by (simp add: extractAPIKey_def Let_def)

lemma handlers_RemoteAddr [simp]:
  "EndpointHandler_Create al ctx (rq\<lparr>ar_RemoteAddr := a\<rparr>) = EndpointHandler_Create al ctx rq"
  "EndpointHandler_List al ctx (rq\<lparr>ar_RemoteAddr := a\<rparr>) = EndpointHandler_List al ctx rq"
  "EndpointHandler_Get al eid ctx (rq\<lparr>ar_RemoteAddr := a\<rparr>) = EndpointHandler_Get al eid ctx rq"
  "EndpointHandler_Update al eid ctx (rq\<lparr>ar_RemoteAddr := a\<rparr>) = EndpointHandler_Update al eid ctx rq"
  "EndpointHandler_Delete eid ctx (rq\<lparr>ar_RemoteAddr := a\<rparr>) = EndpointHandler_Delete eid ctx rq"
  "EventHandler_Create al p ctx (rq\<lparr>ar_RemoteAddr := a\<rparr>) = EventHandler_Create al p ctx rq"
  "EventHandler_List al ctx (rq\<lparr>ar_RemoteAddr := a\<rparr>) = EventHandler_List al ctx rq"
  "EventHandler_Get al eid ctx (rq\<lparr>ar_RemoteAddr := a\<rparr>) = EventHandler_Get al eid ctx rq"
  "TenantHandler_Create al ctx (rq\<lparr>ar_RemoteAddr := a\<rparr>) = TenantHandler_Create al ctx rq"
  "TenantHandler_GetMe al ctx (rq\<lparr>ar_RemoteAddr := a\<rparr>) = TenantHandler_GetMe al ctx rq"
  "TenantHandler_UpdateMe al ctx (rq\<lparr>ar_RemoteAddr := a\<rparr>) = TenantHandler_UpdateMe al ctx rq"
  "HealthHandler_Live ctx (rq\<lparr>ar_RemoteAddr := a\<rparr>) = HealthHandler_Live ctx rq"
  "HealthHandler_Ready pool rdb ctx (rq\<lparr>ar_RemoteAddr := a\<rparr>) = HealthHandler_Ready pool rdb ctx rq"
  by (simp_all add: EndpointHandler_Create_def EndpointHandler_List_def EndpointHandler_Get_def
      EndpointHandler_Update_def EndpointHandler_Delete_def EventHandler_Create_def EventHandler_List_def
      EventHandler_Get_def TenantHandler_Create_def TenantHandler_GetMe_def TenantHandler_UpdateMe_def
      HealthHandler_Live_def HealthHandler_Ready_def Let_def split: option.split sum.split)

lemma routers_RemoteAddr [simp]:
  "EndpointHandler_Routes mux al path ctx (rq\<lparr>ar_RemoteAddr := a\<rparr>) = EndpointHandler_Routes mux al path ctx rq"
  "EventHandler_Routes mux al p path ctx (rq\<lparr>ar_RemoteAddr := a\<rparr>) = EventHandler_Routes mux al p path ctx rq"
  "TenantHandler_Routes mux al path ctx (rq\<lparr>ar_RemoteAddr := a\<rparr>) = TenantHandler_Routes mux al path ctx rq"
  by (simp_all add: EndpointHandler_Routes_def EventHandler_Routes_def TenantHandler_Routes_def by_method_def
      split: option.split)

lemma by_method_RemoteAddr:
  "(\<And>m h. (m, h) \<in> set hs \<Longrightarrow> h ctx (rq\<lparr>ar_RemoteAddr := a\<rparr>) = h ctx rq) \<Longrightarrow>
     by_method mux hs ctx (rq\<lparr>ar_RemoteAddr := a\<rparr>) = by_method mux hs ctx rq"
  by (auto simp: by_method_def dest: map_of_SomeD split: option.split)

lemma events_router_RemoteAddr [simp]:
  "events_router s path ctx (rq\<lparr>ar_RemoteAddr := a\<rparr>) = events_router s path ctx rq"
  unfolding events_router_def RateLimit_def routers_RemoteAddr ..

lemma api_v1_RemoteAddr [simp]: "api_v1 s path ctx (rq\<lparr>ar_RemoteAddr := a\<rparr>) = api_v1 s path ctx rq"
  unfolding api_v1_def Auth_def extractAPIKey_RemoteAddr routers_RemoteAddr events_router_RemoteAddr ..

lemma route_RemoteAddr [simp]: "route s ctx (rq\<lparr>ar_RemoteAddr := a\<rparr>) = route s ctx rq"
proof -
  have path: "ar_Path (rq\<lparr>ar_RemoteAddr := a\<rparr>) = ar_Path rq" by simp
  have health: "by_method mux [(''GET'', HealthHandler_Live)] ctx (rq\<lparr>ar_RemoteAddr := a\<rparr>)
      = by_method mux [(''GET'', HealthHandler_Live)] ctx rq"
    "by_method mux [(''GET'', HealthHandler_Ready pool rdb)] ctx (rq\<lparr>ar_RemoteAddr := a\<rparr>)
      = by_method mux [(''GET'', HealthHandler_Ready pool rdb)] ctx rq" for mux pool rdb
    by (rule by_method_RemoteAddr, simp)+
  show ?thesis unfolding route_def path health api_v1_RemoteAddr ..
qed

end
