(* ===== verification/Delivery.thy ===== *)
theory Delivery
  imports Go_Lib Platform
begin

text \<open>
  \<^verbatim>\<open>internal/delivery/http.go\<close>: one POST of the payload to the endpoint's URL. Redirects
  are not followed and the transport gives up after ten seconds; both are settings of the
  client, whose answers are the platform's. At most 1024 bytes of the response are read.
\<close>

record DeliveryResult =
  dr_StatusCode :: int
  dr_ResponseBody :: string
  dr_ResponseHeaders :: "(string \<times> string list) list option"
  dr_Duration :: int    \<comment> \<open>nanoseconds\<close>
  dr_Error :: "gerr option"

definition failed_delivery :: "gerr \<Rightarrow> int \<Rightarrow> DeliveryResult" where
  "failed_delivery err duration =
     \<lparr>dr_StatusCode = 0, dr_ResponseBody = '''', dr_ResponseHeaders = None, dr_Duration = duration,
      dr_Error = Some err\<rparr>"

text \<open>The request: two fixed headers, then the caller's in any order (their names are distinct).\<close>

definition webhook_post :: "string \<Rightarrow> string \<Rightarrow> (string \<times> string) list \<Rightarrow> http_request" where
  "webhook_post url payload headers =
     \<lparr>rq_Method = ''POST'', rq_URL = url,
      rq_Headers = foldl (\<lambda>hs (k, v). Header_Set hs k v)
        (Header_Set (Header_Set [] ''Content-Type'' ''application/json'') ''User-Agent'' ''WebhookPlatform/1.0'')
        headers,
      rq_Body = payload\<rparr>"

definition Deliver :: "golib \<Rightarrow> string \<Rightarrow> string \<Rightarrow> (string \<times> string) list \<Rightarrow> DeliveryResult prog" where
  "Deliver gl url payload headers =
     Now (\<lambda>start.
       case gl_NewRequest gl url of
         Some err \<Rightarrow> Now (\<lambda>t. Ret (failed_delivery err (t - start)))
       | None \<Rightarrow>
           HttpDo (webhook_post url payload headers) (\<lambda>r. case r of
             Inl err \<Rightarrow> Now (\<lambda>t. Ret (failed_delivery err (t - start)))
           | Inr resp \<Rightarrow>
               Now (\<lambda>t. Ret \<lparr>dr_StatusCode = rs_StatusCode resp,
                  dr_ResponseBody = take 1024 (rs_Body resp),
                  dr_ResponseHeaders = Some (rs_Headers resp), dr_Duration = t - start,
                  dr_Error = None\<rparr>)))"

text \<open>Deliver issues the one request or none, and reports an error exactly when there was no response.\<close>

lemma Deliver_wp:
  assumes "\<And>res w'. w_sent w' = w_sent w \<or> w_sent w' = w_sent w @ [webhook_post url payload headers] \<Longrightarrow>
      w_db w' = w_db w \<Longrightarrow> w_log w' = w_log w \<Longrightarrow> w_keys w' = w_keys w \<Longrightarrow>
      w_committed w' = w_committed w \<Longrightarrow> w_tick w \<le> w_tick w' \<Longrightarrow>
      (dr_Error res = None \<longrightarrow> w_sent w' = w_sent w @ [webhook_post url payload headers]) \<Longrightarrow>
      length (dr_ResponseBody res) \<le> 1024 \<Longrightarrow> Q res w'"
  shows "wp P (Deliver gl url payload headers) Q w"
  unfolding Deliver_def
  by (auto split: option.split sum.split intro!: assms simp: failed_delivery_def)

end
