(* ===== verification/Backoff.thy ===== *)
theory Backoff
  imports Platform "HOL-Library.Word"
begin

text \<open>
  \<^verbatim>\<open>pkg/retry/exponential.go\<close>: exponential backoff with full jitter. A
  \<^verbatim>\<open>time.Duration\<close> is a signed 64-bit number of nanoseconds, kept at its width here
  because the multiplications wrap around; \<^verbatim>\<open>rand.Int63n\<close> panics on an argument that is
  not positive.
\<close>

type_synonym duration = "64 word"

definition Millisecond :: duration where "Millisecond = 1000000"

definition MaxDelay :: duration where "MaxDelay = 3600000000000"

text \<open>The loop \<^verbatim>\<open>for i := 0; i < attempt; i++\<close>, by the number of rounds left.\<close>

fun backoff_loop :: "nat \<Rightarrow> duration \<Rightarrow> duration" where
  "backoff_loop 0 delay = delay"
| "backoff_loop (Suc n) delay =
     (let delay' = delay * 2
      in if sint MaxDelay < sint delay' then MaxDelay else backoff_loop n delay')"

definition backoff_delay :: "int \<Rightarrow> int \<Rightarrow> duration" where
  "backoff_delay attempt baseMs =
     (let base = word_of_int baseMs * Millisecond in backoff_loop (nat attempt) base)"

definition rand_Int63n :: "int \<Rightarrow> int prog" where
  "rand_Int63n n =
     (if n \<le> 0 then Panic ''invalid argument to Int63n'' else Int63n n Ret)"

definition CalculateBackoff :: "int \<Rightarrow> int \<Rightarrow> int prog" where
  "CalculateBackoff attempt baseMs = rand_Int63n (sint (backoff_delay attempt baseMs))"

definition NextRetryAt :: "int \<Rightarrow> int \<Rightarrow> time prog" where
  "NextRetryAt attempt baseMs =
     bind (CalculateBackoff attempt baseMs) (\<lambda>backoff.
     Now (\<lambda>t. Ret (t + backoff)))"

subsection \<open>The loop computes the capped power of two\<close>

text \<open>The reference: double \<open>n\<close> times, cap at one hour; on unbounded integers.\<close>

definition max_ns :: int where "max_ns = 3600000000000"

definition capped :: "nat \<Rightarrow> int \<Rightarrow> int" where
  "capped n base = (if n = 0 then base else min max_ns (base * 2 ^ n))"

lemma sint_MaxDelay [simp]: "sint MaxDelay = max_ns"
  by (simp add: MaxDelay_def max_ns_def)

lemma sint_mult_small:
  fixes d :: duration
  assumes "0 \<le> sint d" "sint d < 2 ^ 61"
  shows "sint (d * 2) = 2 * sint d"
proof -
  have "sint (d * 2) = signed_take_bit 63 (sint d * 2)"
    by (simp add: sint_word_ariths)
  also have "\<dots> = sint d * 2"
    using assms by (intro signed_take_bit_int_eq_self) auto
  finally show ?thesis by simp
qed

lemma backoff_loop_capped:
  assumes "0 \<le> sint d" "sint d < 2 ^ 61"
  shows "sint (backoff_loop n d) = capped n (sint d)"
  using assms
proof (induction n arbitrary: d)
  case 0
  then show ?case by (simp add: capped_def)
next
  case (Suc n)
  have dbl: "sint (d * 2) = 2 * sint d" by (rule sint_mult_small) (use Suc.prems in auto)
  show ?case
  proof (cases "max_ns < 2 * sint d")
    case True
    have "2 * sint d \<le> sint d * 2 ^ Suc n"
      using Suc.prems mult_left_mono [of 1 "2 ^ n" "2 * sint d"] by simp
    with True show ?thesis by (simp add: Let_def dbl capped_def)
  next
    case False
    then have "2 * sint d < 2 ^ 61" by (simp add: max_ns_def)
    with Suc.prems Suc.IH [of "d * 2"] have
      "sint (backoff_loop n (d * 2)) = capped n (2 * sint d)" by (simp add: dbl)
    with False show ?thesis by (simp add: Let_def dbl capped_def ac_simps)
  qed
qed

text \<open>
  The base that fits the column \<^verbatim>\<open>retry_base_ms INTEGER\<close> and the check of 100 ms cannot
  overflow the conversion to nanoseconds.
\<close>

lemma sint_base:
  assumes "0 \<le> b" "b < 2 ^ 31"
  shows "sint (word_of_int b * Millisecond :: duration) = b * 1000000"
proof -
  have "Millisecond = word_of_int 1000000"
    by (simp add: Millisecond_def)
  then have "word_of_int b * Millisecond = (word_of_int (b * 1000000) :: duration)"
    by (simp only: wi_hom_mult [symmetric])
  then have "sint (word_of_int b * Millisecond :: duration) = signed_take_bit 63 (b * 1000000)"
    by (simp only: sint_sbintrunc') simp
  also have "\<dots> = b * 1000000"
    using assms by (intro signed_take_bit_int_eq_self) auto
  finally show ?thesis .
qed

lemma backoff_delay_capped:
  assumes "0 \<le> b" "b < 2 ^ 31"
  shows "sint (backoff_delay a b) = capped (nat a) (b * 1000000)"
  using assms by (simp add: backoff_delay_def Let_def backoff_loop_capped sint_base)

lemma capped_pos: "0 < base \<Longrightarrow> 0 < capped n base"
  by (simp add: capped_def max_ns_def)

lemma capped_le: "0 < n \<Longrightarrow> capped n base \<le> max_ns"
  by (simp add: capped_def)

lemma capped_mono: "0 < base \<Longrightarrow> m \<le> n \<Longrightarrow> 0 < m \<Longrightarrow> capped m base \<le> capped n base"
proof -
  assume *: "0 < base" "m \<le> n" "0 < m"
  then have "base * 2 ^ m \<le> base * 2 ^ n"
    by (intro mult_left_mono power_increasing) auto
  with * show ?thesis by (simp add: capped_def min.coboundedI2)
qed

context go_runtime
begin

lemma rand_Int63n_wp:
  assumes "0 < n" "\<And>x. 0 \<le> x \<Longrightarrow> x < n \<Longrightarrow> Q x (tick w)"
  shows "wp P (rand_Int63n n) Q w"
  using assms int63n_range [of n "w_tick w"] by (simp add: rand_Int63n_def)

lemma CalculateBackoff_wp:
  assumes "0 < b" "b < 2 ^ 31"
    and "\<And>x. 0 \<le> x \<Longrightarrow> x < capped (nat a) (b * 1000000) \<Longrightarrow> Q x (tick w)"
  shows "wp P (CalculateBackoff a b) Q w"
  unfolding CalculateBackoff_def
  by (rule rand_Int63n_wp) (use assms in \<open>auto simp: backoff_delay_capped capped_pos\<close>)

lemma NextRetryAt_wp:
  assumes "0 < b" "b < 2 ^ 31"
    and "\<And>x. 0 \<le> x \<Longrightarrow> x < capped (nat a) (b * 1000000) \<Longrightarrow>
      Q (pl_now P (Suc (w_tick w)) + x) (tick (tick w))"
  shows "wp P (NextRetryAt a b) Q w"
  unfolding NextRetryAt_def wp_bind by (rule CalculateBackoff_wp) (use assms in auto)

end

subsection \<open>Properties\<close>

text \<open>
  C25: the 64-bit loop computes the capped power of two without overflow: for every base of the
  column's range and every attempt from the first, the delay before jitter is the base times
  two to the attempt, at most one hour.
\<close>

theorem backoff_delay_exact:
  assumes "0 \<le> base" "base < 2 ^ 31" "1 \<le> attempt"
  shows "sint (backoff_delay attempt base) = min 3600000000000 (base * 1000000 * 2 ^ nat attempt)"
  using assms by (simp add: backoff_delay_capped capped_def max_ns_def)

theorem backoff_delay_exact_witness: "sint (backoff_delay 40 2147483647) = 3600000000000"
  using backoff_delay_exact [of 2147483647 40] by simp

text \<open>
  C28: the next retry is neither in the past nor later than the delay of the attempt, and so
  never more than an hour ahead: full jitter below the capped exponential.
\<close>

theorem next_retry_bounds:
  assumes "go_runtime P" "0 < base" "base < 2 ^ 31" "1 \<le> attempt"
  shows "wp P (NextRetryAt attempt base) (\<lambda>at w'. \<exists>now. now = pl_now P (Suc (w_tick w))
    \<and> now \<le> at \<and> at < now + base * 1000000 * 2 ^ nat attempt \<and> at < now + 3600000000000) w"
  by (rule go_runtime.NextRetryAt_wp [OF assms(1-3)])
    (use assms(4) in \<open>auto simp: capped_def max_ns_def\<close>)

theorem next_retry_bounds_witness:
  "wp (sim quiet) (NextRetryAt 1 100) (\<lambda>at w'. 1700000000000000000 \<le> at \<and> at < 1700000000200000000) empty_world"
  by (rule wp_mono [OF next_retry_bounds [OF sim_go.go_runtime_axioms]]) (auto simp: sim_def simp del: sim_time.simps)

end
