(* ===== verification/Lock.thy ===== *)
theory Lock
  imports Interleaving
begin

text \<open>
  \<^verbatim>\<open>internal/repository/redis/lock.go\<close>: a lock on a resource, a Redis key that is set if
  absent with a token of the owner and a time to live. Release reads the token and then
  deletes the key, in two requests.
\<close>

definition lock_key :: "string \<Rightarrow> string" where
  "lock_key resourceID = ''lock:'' @ resourceID"

definition lock_Acquire :: "string \<Rightarrow> int \<Rightarrow> (string \<times> bool) prog" where
  "lock_Acquire resourceID ttl =
     NewUUID (\<lambda>val.
       bind (redis_SetNX (lock_key resourceID) val (expiry_ms ttl)) (\<lambda>r. case r of
         Inl err \<Rightarrow> Ret ('''', False)
       | Inr ok \<Rightarrow> Ret (val, ok)))"

definition lock_Release :: "string \<Rightarrow> string \<Rightarrow> bool prog" where
  "lock_Release resourceID val =
     bind (redis_Get (lock_key resourceID)) (\<lambda>r. case r of
       Inl err \<Rightarrow> Ret False
     | Inr current \<Rightarrow>
         if current = val then bind (redis_Del (lock_key resourceID)) (\<lambda>_. Ret True)
         else Ret False)"

subsection \<open>Contracts\<close>

lemma lock_key_inj [simp]: "lock_key a = lock_key b \<longleftrightarrow> a = b"
  by (simp add: lock_key_def)

context redis_server
begin

text \<open>
  A grant: the lock was free and now is the caller's. A refusal leaves the lock as it was,
  or, when the answer of the server was lost, taken by nobody.
\<close>

lemma lock_Acquire_wp:
  assumes "\<And>val w'. live (rt (Suc (w_tick w))) (w_keys w) (lock_key rid) = None \<Longrightarrow>
      w_keys w' = (w_keys w)(lock_key rid \<mapsto> (RStr val, deadline (rt (Suc (w_tick w))) (expiry_ms ttl))) \<Longrightarrow>
      keys_changed {lock_key rid} w w' \<Longrightarrow> Q (val, True) w'"
    and "\<And>val w'. keys_changed {lock_key rid} w w' \<Longrightarrow> Q (val, False) w'"
  shows "wp P (lock_Acquire rid ttl) Q w"
  unfolding lock_Acquire_def wp_NewUUID wp_bind
  by (rule redis_SetNX_wp)
    (auto intro!: assms simp: keys_changed_def)

lemma lock_Release_wp:
  assumes "\<And>ok w'. keys_changed {lock_key rid} w w' \<Longrightarrow> Q ok w'"
  shows "wp P (lock_Release rid val) Q w"
  unfolding lock_Release_def redis_Get_def redis_Del_def
  by (auto intro!: redis_do_frame [where S = "{lock_key rid}" and v = w] assms
      simp: rcmd_key_def split: sum.split reply.split)

lemma lock_Release_foreign:
  assumes "live (rt (w_tick w)) (w_keys w) (lock_key rid) = Some (RStr other)" "other \<noteq> val"
  shows "wp P (lock_Release rid val) (\<lambda>ok w'. \<not> ok \<and> w_keys w' = w_keys w) w"
  unfolding lock_Release_def wp_bind
  by (rule redis_Get_wp) (use assms in auto)

end

subsection \<open>The protocol\<close>

lemma lock_Acquire_disciplined:
  assumes "lock_key rid = key" "expiry_ms ttl_ns = ttl"
    and "\<And>v. disciplined key ttl guarded (k (v, True)) (Some v)"
    and "\<And>v. disciplined key ttl guarded (k (v, False)) None"
  shows "disciplined key ttl guarded (bind (lock_Acquire rid ttl_ns) k) None"
  using assms
  by (auto simp: lock_Acquire_def redis_SetNX_def rcmd_key_def split: sum.split reply.split)

lemma lock_Release_disciplined:
  assumes "\<And>ok h. disciplined key ttl guarded (k ok) h" "lock_key rid = key"
  shows "disciplined key ttl guarded (bind (lock_Release rid v) k) (Some v)"
  using assms
  by (auto simp: lock_Release_def redis_Get_def redis_Del_def rcmd_key_def split: sum.split reply.split)

lemma lock_Acquire_neutral: "lock_key rid \<noteq> key \<Longrightarrow> neutral key guarded (lock_Acquire rid ttl)"
  by (auto simp: lock_Acquire_def redis_SetNX_def rcmd_key_def split: sum.split reply.split)

lemma lock_Release_neutral: "lock_key rid \<noteq> key \<Longrightarrow> neutral key guarded (lock_Release rid v)"
  by (auto simp: lock_Release_def redis_Get_def redis_Del_def rcmd_key_def split: sum.split reply.split)

interpretation sim_lock: lock_clients "sim s" "sim_ms s" "lock_key rid" "expiry_ms 300000000000" guarded
  for s rid guarded
  by unfold_locales (simp add: expiry_ms_def)

subsection \<open>Properties\<close>

text \<open>
  Whatever Redis does, an Acquire that reports success has found the lock free and has
  put its own token there, with the expiration asked for; and it touches no other key.
\<close>

theorem lock_acquire_grants_free_lock:
  assumes "redis_server P rt"
  shows "wp P (lock_Acquire rid ttl) (\<lambda>(val, ok) w'.
    (\<forall>k. k \<noteq> lock_key rid \<longrightarrow> w_keys w' k = w_keys w k)
    \<and> (ok \<longrightarrow> live (rt (Suc (w_tick w))) (w_keys w) (lock_key rid) = None
         \<and> w_keys w' (lock_key rid) =
             Some (RStr val, deadline (rt (Suc (w_tick w))) (expiry_ms ttl)))) w"
  by (rule redis_server.lock_Acquire_wp [OF assms]) (auto simp: keys_changed_def)

theorem lock_acquire_grants_free_lock_witness:
  "wp (sim quiet) (lock_Acquire ''r'' 300000000000) (\<lambda>(val, ok) w'.
     (\<forall>k. k \<noteq> lock_key ''r'' \<longrightarrow> w_keys w' k = w_keys empty_world k)
     \<and> (ok \<longrightarrow> live (sim_ms quiet (Suc (w_tick empty_world))) (w_keys empty_world) (lock_key ''r'') = None
          \<and> w_keys w' (lock_key ''r'') =
              Some (RStr val, deadline (sim_ms quiet (Suc (w_tick empty_world))) (expiry_ms 300000000000))))
     empty_world"
  by (rule lock_acquire_grants_free_lock [OF sim_redis.redis_server_axioms])

definition expiring_lock :: world where
  "expiring_lock = empty_world\<lparr>w_keys :=
     [lock_key ''r'' \<mapsto> (RStr ''first'', Some (sim_ms quiet 0 + 1))]\<rparr>"

definition second_ms :: script where
  "second_ms = quiet\<lparr>sc_lag := \<lambda>n. if n = 0 then 1000000 else 0\<rparr>"

text \<open>
  Release is not atomic. There is a schedule of two programs in which the first one's lock
  expires between the two requests of its Release, the second one acquires the lock, and the
  first one then deletes the lock of the second: the second program has been granted a lock
  that is no longer on the server.
\<close>

theorem release_can_delete_foreign_lock:
  "(case run_schedule (lock_key ''r'') (sim second_ms) [0, 1, 1, 0]
       ([\<lparr>wk_prog = bind (lock_Release ''r'' ''first'') (\<lambda>b. Ret ('''', b)), wk_held = Some ''first''\<rparr>,
         \<lparr>wk_prog = lock_Acquire ''r'' 300000000000, wk_held = None\<rparr>], expiring_lock) of
     (ps, w) \<Rightarrow> map (\<lambda>p. returned (wk_prog p)) ps = [Some ('''', True), Some (''1'', True)]
       \<and> w_keys w (lock_key ''r'') = None)"
  by code_simp

end
