(* ===== verification/Circuit_Breaker.thy ===== *)
theory Circuit_Breaker
  imports Redis_Client "HOL-Library.Word"
begin

text \<open>
  \<^verbatim>\<open>internal/repository/redis/circuit_breaker.go\<close> and the thin service over it,
  \<^verbatim>\<open>internal/service/circuit_breaker.go\<close>. The state of an endpoint's breaker is three
  Redis keys. The abstract breaker (\<open>breaker\<close>) keeps the same information as values;
  on a server that does not fail every operation is shown to be the abstract one.
\<close>

definition CBClosed :: string where "CBClosed = ''closed''"
definition CBOpen :: string where "CBOpen = ''open''"
definition CBHalfOpen :: string where "CBHalfOpen = ''half_open''"

lemma cb_states_distinct [simp]:
  "CBClosed \<noteq> CBOpen" "CBClosed \<noteq> CBHalfOpen" "CBOpen \<noteq> CBHalfOpen"
  "CBOpen \<noteq> CBClosed" "CBHalfOpen \<noteq> CBClosed" "CBHalfOpen \<noteq> CBOpen"
  "CBClosed \<noteq> []" "CBOpen \<noteq> []" "CBHalfOpen \<noteq> []"
  "[] \<noteq> CBClosed" "[] \<noteq> CBOpen" "[] \<noteq> CBHalfOpen"
  by (simp_all add: CBClosed_def CBOpen_def CBHalfOpen_def)

text \<open>The timeout is a \<^verbatim>\<open>time.Duration\<close>, in nanoseconds.\<close>

record CircuitBreakerRepo =
  cb_failureThreshold :: int
  cb_timeout :: int

definition NewCircuitBreakerRepo :: "int \<Rightarrow> int \<Rightarrow> CircuitBreakerRepo" where
  "NewCircuitBreakerRepo failureThreshold timeout =
     \<lparr>cb_failureThreshold = failureThreshold, cb_timeout = timeout\<rparr>"

definition cb_stateKey :: "string \<Rightarrow> string" where
  "cb_stateKey endpointID = ''cb:'' @ endpointID @ '':state''"

definition cb_failuresKey :: "string \<Rightarrow> string" where
  "cb_failuresKey endpointID = ''cb:'' @ endpointID @ '':failures''"

definition cb_lastFailureKey :: "string \<Rightarrow> string" where
  "cb_lastFailureKey endpointID = ''cb:'' @ endpointID @ '':last_failure''"

text \<open>
  An open breaker lets a trial delivery through once the time since the last failure
  (0 when Redis has none) exceeds the timeout, and is then half open. The difference of the two
  64-bit times wraps around.
\<close>

definition since_failure :: "int \<Rightarrow> int \<Rightarrow> int" where
  "since_failure now lastFailure = sint (word_of_int (now - lastFailure) :: 64 word)"

lemma since_failure_exact: "int64_ok (now - lastFailure) \<Longrightarrow> since_failure now lastFailure = now - lastFailure"
  unfolding since_failure_def int64_ok_def sint_sbintrunc' by (simp add: signed_take_bit_int_eq_self)

definition cb_probe :: "CircuitBreakerRepo \<Rightarrow> string \<Rightarrow> int \<Rightarrow> (bool \<times> string \<times> gerr option) prog" where
  "cb_probe r endpointID lastFailure =
     Now (\<lambda>now.
       if since_failure (unix_seconds now) lastFailure > cb_timeout r div 1000000000
       then bind (redis_Set (cb_stateKey endpointID) CBHalfOpen 0) (\<lambda>_. Ret (True, CBHalfOpen, None))
       else Ret (False, CBOpen, None))"

text \<open>\<^verbatim>\<open>Allow\<close>: whether a delivery may be tried, the state seen, and an error.\<close>

definition CB_Allow :: "CircuitBreakerRepo \<Rightarrow> string \<Rightarrow> (bool \<times> string \<times> gerr option) prog" where
  "CB_Allow r endpointID =
     bind (redis_Get (cb_stateKey endpointID)) (\<lambda>res. case res of
       Inl err \<Rightarrow>
         if err = RedisNil then Ret (True, CBClosed, None)
         else Ret (False, '''', Some (Wrapf ''get circuit breaker state: '' err ''''))
     | Inr state \<Rightarrow>
         if state = CBClosed then Ret (True, CBClosed, None)
         else if state = CBHalfOpen then Ret (True, CBHalfOpen, None)
         else if state = CBOpen then
           bind (redis_GetInt64 (cb_lastFailureKey endpointID)) (\<lambda>lf. case lf of
             Inl err \<Rightarrow>
               if err \<noteq> RedisNil
               then Ret (False, CBOpen, Some (Wrapf ''get last failure time: '' err ''''))
               else cb_probe r endpointID 0
           | Inr lastFailure \<Rightarrow> cb_probe r endpointID lastFailure)
         else Ret (True, state, None))"

definition CB_RecordSuccess :: "CircuitBreakerRepo \<Rightarrow> string \<Rightarrow> gerr option prog" where
  "CB_RecordSuccess r endpointID =
     pipe_Exec [SET (cb_stateKey endpointID) CBClosed 0, DEL (cb_failuresKey endpointID)]"

definition CB_RecordFailure :: "CircuitBreakerRepo \<Rightarrow> string \<Rightarrow> gerr option prog" where
  "CB_RecordFailure r endpointID =
     bind (redis_Get (cb_stateKey endpointID)) (\<lambda>res.
     let state = (case res of Inl err \<Rightarrow> '''' | Inr s \<Rightarrow> s) in
     if state = CBHalfOpen then
       Now (\<lambda>now. pipe_Exec [SET (cb_stateKey endpointID) CBOpen 0,
         SET (cb_lastFailureKey endpointID) (show_int (unix_seconds now)) 0])
     else
       bind (redis_Incr (cb_failuresKey endpointID)) (\<lambda>c. case c of
         Inl err \<Rightarrow> Ret (Some err)
       | Inr cnt \<Rightarrow>
           if cnt \<ge> cb_failureThreshold r then
             Now (\<lambda>now. pipe_Exec [SET (cb_stateKey endpointID) CBOpen 0,
               SET (cb_lastFailureKey endpointID) (show_int (unix_seconds now)) 0])
           else Ret None))"

definition CB_GetState :: "CircuitBreakerRepo \<Rightarrow> string \<Rightarrow> (gerr + string) prog" where
  "CB_GetState r endpointID =
     bind (redis_Get (cb_stateKey endpointID)) (\<lambda>res. case res of
       Inl err \<Rightarrow> if err = RedisNil then Ret (Inr CBClosed) else Ret (Inl err)
     | Inr state \<Rightarrow> Ret (Inr state))"

subsection \<open>The service\<close>

definition circuitBreakerService_Allow ::
  "CircuitBreakerRepo \<Rightarrow> string \<Rightarrow> (bool \<times> string \<times> gerr option) prog" where
  "circuitBreakerService_Allow r endpointID =
     bind (CB_Allow r endpointID) (\<lambda>(allowed, state, err). case err of
       Some e \<Rightarrow> Ret (False, '''', Some (Wrapf ''circuit breaker allow: '' e ''''))
     | None \<Rightarrow> Ret (allowed, state, None))"

definition circuitBreakerService_RecordSuccess :: "CircuitBreakerRepo \<Rightarrow> string \<Rightarrow> gerr option prog" where
  "circuitBreakerService_RecordSuccess r endpointID = CB_RecordSuccess r endpointID"

definition circuitBreakerService_RecordFailure :: "CircuitBreakerRepo \<Rightarrow> string \<Rightarrow> gerr option prog" where
  "circuitBreakerService_RecordFailure r endpointID = CB_RecordFailure r endpointID"

definition circuitBreakerService_GetState :: "CircuitBreakerRepo \<Rightarrow> string \<Rightarrow> (gerr + string) prog" where
  "circuitBreakerService_GetState r endpointID = CB_GetState r endpointID"

subsection \<open>Frames\<close>

definition cb_keys :: "string \<Rightarrow> string set" where
  "cb_keys endpointID =
     {cb_stateKey endpointID, cb_failuresKey endpointID, cb_lastFailureKey endpointID}"

context redis_server
begin

lemma CB_Allow_frame:
  assumes "\<And>res w'. keys_changed (cb_keys eid) w w' \<Longrightarrow> (case res of (allowed, st, err) \<Rightarrow>
      err \<noteq> None \<longrightarrow> \<not> allowed) \<Longrightarrow> Q res w'"
  shows "wp P (circuitBreakerService_Allow r eid) Q w"
  unfolding circuitBreakerService_Allow_def CB_Allow_def redis_Get_def redis_GetInt64_def redis_Set_def
    cb_probe_def
  by (auto intro!: redis_do_frame [where S = "cb_keys eid" and v = w] keys_changed_tickI assms
      simp: rcmd_key_def cb_keys_def Let_def split: sum.split reply.split)

lemma CB_RecordSuccess_frame:
  assumes "\<And>res w'. keys_changed (cb_keys eid) w w' \<Longrightarrow> Q res w'"
  shows "wp P (circuitBreakerService_RecordSuccess r eid) Q w"
  unfolding circuitBreakerService_RecordSuccess_def CB_RecordSuccess_def pipe_Exec_def
  by (auto intro!: redis_pipe_frame [where S = "cb_keys eid" and v = w] assms
      simp: rcmd_key_def cb_keys_def)

lemma CB_RecordFailure_frame:
  assumes "\<And>res w'. keys_changed (cb_keys eid) w w' \<Longrightarrow> Q res w'"
  shows "wp P (circuitBreakerService_RecordFailure r eid) Q w"
  unfolding circuitBreakerService_RecordFailure_def CB_RecordFailure_def pipe_Exec_def
    redis_Get_def redis_Incr_def
  by (auto intro!: redis_do_frame [where S = "cb_keys eid" and v = w]
      redis_pipe_frame [where S = "cb_keys eid" and v = w] keys_changed_tickI assms
      simp: rcmd_key_def cb_keys_def Let_def split: sum.split reply.split)

end

subsection \<open>The abstract breaker\<close>

datatype cb_phase = Closed | Open | HalfOpen

record breaker =
  br_phase :: cb_phase
  br_fails :: int
  br_last :: int     \<comment> \<open>Unix time of the failure that opened it\<close>

fun phase_str :: "cb_phase \<Rightarrow> string" where
  "phase_str Closed = CBClosed"
| "phase_str Open = CBOpen"
| "phase_str HalfOpen = CBHalfOpen"

datatype cb_op = OpAllow | OpSuccess | OpFailure
datatype cb_out = OutAllow bool | OutDone

fun br_op :: "CircuitBreakerRepo \<Rightarrow> cb_op \<Rightarrow> int \<Rightarrow> breaker \<Rightarrow> cb_out \<times> breaker" where
  "br_op r OpAllow now b =
     (if br_phase b \<noteq> Open then (OutAllow True, b)
      else if since_failure now (br_last b) > cb_timeout r div 1000000000
      then (OutAllow True, b\<lparr>br_phase := HalfOpen\<rparr>)
      else (OutAllow False, b))"
| "br_op r OpSuccess now b = (OutDone, b\<lparr>br_phase := Closed, br_fails := 0\<rparr>)"
| "br_op r OpFailure now b =
     (if br_phase b = HalfOpen then (OutDone, b\<lparr>br_phase := Open, br_last := now\<rparr>)
      else if br_fails b + 1 \<ge> cb_failureThreshold r
      then (OutDone, b\<lparr>br_phase := Open, br_fails := br_fails b + 1, br_last := now\<rparr>)
      else (OutDone, b\<lparr>br_fails := br_fails b + 1\<rparr>))"

fun br_ops :: "CircuitBreakerRepo \<Rightarrow> (cb_op \<times> int) list \<Rightarrow> breaker \<Rightarrow> cb_out list \<times> breaker" where
  "br_ops r [] b = ([], b)"
| "br_ops r ((op, now) # ops) b =
     (let (out, b1) = br_op r op now b; (outs, b2) = br_ops r ops b1 in (out # outs, b2))"

text \<open>How the three keys represent a breaker: an absent key is the initial value.\<close>

definition holds_str :: "keyspace \<Rightarrow> string \<Rightarrow> string \<Rightarrow> bool \<Rightarrow> bool" where
  "holds_str ks k s absent =
     (case ks k of None \<Rightarrow> absent
      | Some (v, d) \<Rightarrow> v = RStr s \<and> d = None)"

definition cb_repr :: "keyspace \<Rightarrow> string \<Rightarrow> breaker \<Rightarrow> bool" where
  "cb_repr ks eid b \<longleftrightarrow>
     holds_str ks (cb_stateKey eid) (phase_str (br_phase b)) (br_phase b = Closed)
     \<and> holds_str ks (cb_failuresKey eid) (show_int (br_fails b)) (br_fails b = 0)
     \<and> holds_str ks (cb_lastFailureKey eid) (show_int (br_last b)) (br_last b = 0)
     \<and> 0 \<le> br_fails b \<and> int64_ok (br_fails b) \<and> int64_ok (br_last b)"

definition fresh_breaker :: breaker where
  "fresh_breaker = \<lparr>br_phase = Closed, br_fails = 0, br_last = 0\<rparr>"

text \<open>The operations of the code, in one type.\<close>

definition cb_op_prog :: "CircuitBreakerRepo \<Rightarrow> string \<Rightarrow> cb_op \<Rightarrow> cb_out prog" where
  "cb_op_prog r eid op = (case op of
     OpAllow \<Rightarrow> bind (circuitBreakerService_Allow r eid) (\<lambda>(allowed, st, err). Ret (OutAllow allowed))
   | OpSuccess \<Rightarrow> bind (circuitBreakerService_RecordSuccess r eid) (\<lambda>_. Ret OutDone)
   | OpFailure \<Rightarrow> bind (circuitBreakerService_RecordFailure r eid) (\<lambda>_. Ret OutDone))"

fun cb_ops_prog :: "CircuitBreakerRepo \<Rightarrow> string \<Rightarrow> cb_op list \<Rightarrow> cb_out list prog" where
  "cb_ops_prog r eid [] = Ret []"
| "cb_ops_prog r eid (op # ops) =
     bind (cb_op_prog r eid op) (\<lambda>out. bind (cb_ops_prog r eid ops) (\<lambda>outs. Ret (out # outs)))"

lemma cb_keys_distinct [simp]:
  "cb_stateKey e \<noteq> cb_failuresKey e" "cb_stateKey e \<noteq> cb_lastFailureKey e"
  "cb_failuresKey e \<noteq> cb_lastFailureKey e" "cb_failuresKey e \<noteq> cb_stateKey e"
  "cb_lastFailureKey e \<noteq> cb_stateKey e" "cb_lastFailureKey e \<noteq> cb_failuresKey e"
  by (simp_all add: cb_stateKey_def cb_failuresKey_def cb_lastFailureKey_def)

lemma phase_str_inj [simp]: "phase_str p = phase_str q \<longleftrightarrow> p = q"
  by (cases p; cases q) simp_all

lemma phase_str_states [simp]:
  "phase_str p = CBClosed \<longleftrightarrow> p = Closed" "phase_str p = CBOpen \<longleftrightarrow> p = Open"
  "phase_str p = CBHalfOpen \<longleftrightarrow> p = HalfOpen"
  by (cases p; simp)+

lemma holds_str_live:
  "holds_str ks k s absent \<Longrightarrow>
     (live t ks k = None \<and> absent) \<or> live t ks k = Some (RStr s)"
  by (auto simp: holds_str_def live_def split: option.splits)

lemma holds_str_upd [simp]:
  "holds_str (ks(k \<mapsto> (RStr s', None))) k s absent \<longleftrightarrow> s' = s"
  "holds_str (ks(k := None)) k s absent \<longleftrightarrow> absent"
  "k' \<noteq> k \<Longrightarrow> holds_str (ks(k' := x)) k s absent \<longleftrightarrow> holds_str ks k s absent"
  by (auto simp: holds_str_def)

lemma holds_str_kept: "holds_str ks k s absent \<Longrightarrow> kept_deadline t ks k = None"
  by (auto simp: holds_str_def kept_deadline_def split: option.splits)

definition cb_refines :: "CircuitBreakerRepo \<Rightarrow> string \<Rightarrow> platform \<Rightarrow> cb_op \<Rightarrow> breaker \<Rightarrow> world \<Rightarrow> cb_out \<Rightarrow> world \<Rightarrow> bool" where
  "cb_refines r eid P op b w out w' \<longleftrightarrow>
     (\<exists>n. w_tick w \<le> n \<and> n \<le> w_tick w' \<and>
        (let (o', b') = br_op r op (unix_seconds (pl_now P n)) b
         in out = o' \<and> cb_repr (w_keys w') eid b'))"

definition cb_at :: "CircuitBreakerRepo \<Rightarrow> string \<Rightarrow> platform \<Rightarrow> cb_op \<Rightarrow> breaker \<Rightarrow> nat \<Rightarrow> cb_out \<Rightarrow> world \<Rightarrow> bool" where
  "cb_at r eid P op b n out w' \<longleftrightarrow> n \<le> w_tick w'
     \<and> fst (br_op r op (unix_seconds (pl_now P n)) b) = out
     \<and> cb_repr (w_keys w') eid (snd (br_op r op (unix_seconds (pl_now P n)) b))"

lemma cb_refines_at:
  assumes "wp P m (cb_at r eid P op b n) w" "w_tick w \<le> n"
  shows "wp P m (cb_refines r eid P op b w) w"
  using assms(1)
  by (rule wp_mono) (use assms(2) in \<open>auto simp: cb_at_def cb_refines_def case_prod_beta\<close>)

lemma cb_repr_state:
  "cb_repr ks eid b \<Longrightarrow>
     live t ks (cb_stateKey eid) = None \<and> br_phase b = Closed \<or>
     live t ks (cb_stateKey eid) = Some (RStr (phase_str (br_phase b)))"
  using holds_str_live by (fastforce simp: cb_repr_def)

lemma cb_repr_fails:
  "cb_repr ks eid b \<Longrightarrow>
     live t ks (cb_failuresKey eid) = None \<and> br_fails b = 0 \<or>
     live t ks (cb_failuresKey eid) = Some (RStr (show_int (br_fails b)))"
  using holds_str_live by (fastforce simp: cb_repr_def)

lemma cb_repr_last:
  "cb_repr ks eid b \<Longrightarrow>
     live t ks (cb_lastFailureKey eid) = None \<and> br_last b = 0 \<or>
     live t ks (cb_lastFailureKey eid) = Some (RStr (show_int (br_last b)))"
  using holds_str_live by (fastforce simp: cb_repr_def)

lemma cb_repr_parse:
  "cb_repr ks eid b \<Longrightarrow> ParseInt (show_int (br_last b)) = Inr (br_last b)"
  "cb_repr ks eid b \<Longrightarrow> ParseInt (show_int (br_fails b)) = Inr (br_fails b)"
  by (auto simp: cb_repr_def intro: ParseInt_show_int)

lemma cb_repr_kept: "cb_repr ks eid b \<Longrightarrow> kept_deadline t ks (cb_failuresKey eid) = None"
  by (auto simp: cb_repr_def intro: holds_str_kept)

text \<open>The effect of the writes of each operation on the represented breaker.\<close>

lemma cb_repr_phase:
  "cb_repr ks eid b \<Longrightarrow> cb_repr (ks(cb_stateKey eid \<mapsto> (RStr (phase_str p), None))) eid (b\<lparr>br_phase := p\<rparr>)"
  by (simp add: cb_repr_def)

lemma cb_repr_fails_upd:
  "cb_repr ks eid b \<Longrightarrow> 0 \<le> n \<Longrightarrow> int64_ok n \<Longrightarrow>
   cb_repr (ks(cb_failuresKey eid \<mapsto> (RStr (show_int n), None))) eid (b\<lparr>br_fails := n\<rparr>)"
  by (simp add: cb_repr_def)

lemma cb_repr_fails_del:
  "cb_repr ks eid b \<Longrightarrow> cb_repr (ks(cb_failuresKey eid := None)) eid (b\<lparr>br_fails := 0\<rparr>)"
  by (simp add: cb_repr_def int64_ok_def)

lemma cb_repr_last_upd:
  "cb_repr ks eid b \<Longrightarrow> int64_ok n \<Longrightarrow>
   cb_repr (ks(cb_lastFailureKey eid \<mapsto> (RStr (show_int n), None))) eid (b\<lparr>br_last := n\<rparr>)"
  by (simp add: cb_repr_def)

definition cb_history ::
  "CircuitBreakerRepo \<Rightarrow> string \<Rightarrow> platform \<Rightarrow> cb_op list \<Rightarrow> breaker \<Rightarrow> world \<Rightarrow> cb_out list \<Rightarrow> world \<Rightarrow> bool" where
  "cb_history r eid P ops b w outs w' \<longleftrightarrow>
     (\<exists>ns b'. length ns = length ops \<and> sorted (w_tick w # ns @ [w_tick w'])
        \<and> br_ops r (zip ops (map (\<lambda>n. unix_seconds (pl_now P n)) ns)) b = (outs, b')
        \<and> cb_repr (w_keys w') eid b')"

lemma cb_history_Cons:
  assumes "w_tick w \<le> n" "n \<le> w_tick w'" "br_op r op (unix_seconds (pl_now P n)) b = (out, b')"
    and "cb_history r eid P ops b' w' outs w''"
  shows "cb_history r eid P (op # ops) b w (out # outs) w''"
proof -
  from assms(4) obtain ns b'' where "length ns = length ops" "sorted (w_tick w' # ns @ [w_tick w''])"
    "br_ops r (zip ops (map (\<lambda>n. unix_seconds (pl_now P n)) ns)) b' = (outs, b'')"
    "cb_repr (w_keys w'') eid b''"
    by (auto simp: cb_history_def)
  with assms(1-3) show ?thesis
    unfolding cb_history_def by (intro exI [of _ "n # ns"] exI [of _ b'']) auto
qed

lemma br_op_fails: "br_op r op t b = (out, b') \<Longrightarrow> br_fails b' \<le> br_fails b + 1 \<or> br_fails b' = 0"
  by (cases op) (auto split: if_splits)

context reliable_redis
begin

lemma CB_Allow_refines:
  assumes "cb_repr (w_keys w) eid b"
  shows "wp P (cb_op_prog r eid OpAllow) (cb_refines r eid P OpAllow b w) w"
proof (rule cb_refines_at)
  let ?n = "if br_phase b = Open then Suc (Suc (w_tick w)) else w_tick w"
  show "wp P (cb_op_prog r eid OpAllow) (cb_at r eid P OpAllow b ?n) w"
    using cb_repr_state [OF assms, of "rt (w_tick w)"]
      cb_repr_last [OF assms, of "rt (Suc (w_tick w))"] assms
    by (cases "br_phase b")
      (auto simp: cb_op_prog_def circuitBreakerService_Allow_def CB_Allow_def cb_probe_def
        redis_Get_def redis_GetInt64_def redis_Set_def run_simps cb_repr_parse [OF assms] cb_at_def,
       simp_all add: cb_repr_def)
qed simp

lemma CB_RecordSuccess_refines:
  assumes "cb_repr (w_keys w) eid b"
  shows "wp P (cb_op_prog r eid OpSuccess) (cb_refines r eid P OpSuccess b w) w"
  by (rule cb_refines_at [where n = "w_tick w"])
    (use cb_repr_fails_del [OF cb_repr_phase [OF assms, of Closed]] in
      \<open>simp_all add: cb_op_prog_def circuitBreakerService_RecordSuccess_def CB_RecordSuccess_def
        pipe_Exec_def run_simps cb_at_def\<close>)

lemma CB_RecordFailure_half_open:
  assumes "cb_repr (w_keys w) eid b" "br_phase b = HalfOpen"
    and clock: "\<And>n. int64_ok (unix_seconds (pl_now P n))"
  shows "wp P (cb_op_prog r eid OpFailure) (cb_at r eid P OpFailure b (Suc (w_tick w))) w"
  using cb_repr_last_upd [OF cb_repr_phase [OF assms(1), of Open]
      clock [of "Suc (w_tick w)"]]
    cb_repr_state [OF assms(1), of "rt (w_tick w)"] assms(2)
  by (simp add: cb_op_prog_def circuitBreakerService_RecordFailure_def CB_RecordFailure_def
      pipe_Exec_def redis_Get_def run_simps cb_at_def)

lemma CB_RecordFailure_counts:
  assumes repr: "cb_repr (w_keys w) eid b" and "br_phase b \<noteq> HalfOpen"
    and "int64_ok (br_fails b + 1)"
    and clock: "\<And>n. int64_ok (unix_seconds (pl_now P n))"
    and n: "n = (if cb_failureThreshold r \<le> br_fails b + 1 then Suc (Suc (w_tick w)) else w_tick w)"
  shows "wp P (cb_op_prog r eid OpFailure) (cb_at r eid P OpFailure b n) w"
proof -
  have up: "cb_repr ((w_keys w)(cb_failuresKey eid \<mapsto> (RStr (show_int (br_fails b + 1)), None))) eid
      (b\<lparr>br_fails := br_fails b + 1\<rparr>)"
    using assms by (intro cb_repr_fails_upd) (auto simp: cb_repr_def)
  let ?t = "unix_seconds (pl_now P (Suc (Suc (w_tick w))))"
  have opened: "cb_repr ((w_keys w)(cb_failuresKey eid \<mapsto> (RStr (show_int (br_fails b + 1)), None),
      cb_stateKey eid \<mapsto> (RStr CBOpen, None), cb_lastFailureKey eid \<mapsto> (RStr (show_int ?t), None))) eid
      (b\<lparr>br_phase := Open, br_fails := br_fails b + 1, br_last := ?t\<rparr>)"
    using up clock by (simp add: cb_repr_def)
  have st: "live t (w_keys w) (cb_stateKey eid) = None \<or>
      (\<exists>s. live t (w_keys w) (cb_stateKey eid) = Some (RStr s) \<and> s \<noteq> CBHalfOpen)" for t
    using cb_repr_state [OF repr, of t] assms(2) by auto
  show ?thesis
    using st [of "rt (w_tick w)"] cb_repr_fails [OF repr, of "rt (Suc (w_tick w))"] up opened assms
    by (auto simp: cb_op_prog_def circuitBreakerService_RecordFailure_def CB_RecordFailure_def
        pipe_Exec_def redis_Get_def redis_Incr_def run_simps cb_repr_parse [OF repr]
        cb_repr_kept [OF repr] cb_at_def n)
qed

lemma CB_RecordFailure_refines:
  assumes "cb_repr (w_keys w) eid b" "int64_ok (br_fails b + 1)"
    and "\<And>n. int64_ok (unix_seconds (pl_now P n))"
  shows "wp P (cb_op_prog r eid OpFailure) (cb_refines r eid P OpFailure b w) w"
  by (cases "br_phase b = HalfOpen")
    (auto intro: cb_refines_at [OF CB_RecordFailure_half_open] cb_refines_at [OF CB_RecordFailure_counts] assms)

text \<open>A history of operations: each one sees one instant, and the instants are in order.\<close>

lemma cb_op_refines:
  assumes "cb_repr (w_keys w) eid b" "int64_ok (br_fails b + 1)"
    and "\<And>n. int64_ok (unix_seconds (pl_now P n))"
  shows "wp P (cb_op_prog r eid op) (cb_refines r eid P op b w) w"
  using assms
  by (cases op) (auto intro: CB_Allow_refines CB_RecordSuccess_refines CB_RecordFailure_refines)

lemma cb_ops_refine:
  assumes "cb_repr (w_keys w) eid b" "int64_ok (br_fails b + int (length ops))"
    and clock: "\<And>n. int64_ok (unix_seconds (pl_now P n))"
  shows "wp P (cb_ops_prog r eid ops) (cb_history r eid P ops b w) w"
  using assms(1,2)
proof (induction ops arbitrary: b w)
  case Nil
  then show ?case by (auto simp: cb_history_def)
next
  case (Cons op ops)
  have "int64_ok (br_fails b + 1)"
    using Cons.prems by (auto simp: cb_repr_def int64_ok_def)
  note one = cb_op_refines [OF Cons.prems(1) this clock, of r op]
  have "wp P (cb_ops_prog r eid ops)
      (\<lambda>outs w''. cb_history r eid P (op # ops) b w (out # outs) w'') w'"
    if step: "cb_refines r eid P op b w out w'" for out w'
  proof -
    obtain n b' where n: "w_tick w \<le> n" "n \<le> w_tick w'"
      and b': "br_op r op (unix_seconds (pl_now P n)) b = (out, b')" "cb_repr (w_keys w') eid b'"
      using step by (auto simp: cb_refines_def case_prod_beta) (metis prod.collapse)
    have "int64_ok (br_fails b' + int (length ops))"
      using br_op_fails [OF b'(1)] Cons.prems b'(2) by (auto simp: cb_repr_def int64_ok_def)
    from Cons.IH [OF b'(2) this] show ?thesis
      by (rule wp_mono) (rule cb_history_Cons [OF n b'(1)])
  qed
  with one show ?case by (auto elim!: wp_mono)
qed

end

subsection \<open>The abstract breaker opens\<close>

lemma br_ops_append:
  "br_ops r (xs @ ys) b =
     (let (o1, b1) = br_ops r xs b; (o2, b2) = br_ops r ys b1 in (o1 @ o2, b2))"
  by (induction xs arbitrary: b) (auto simp: case_prod_beta Let_def)

text \<open>Failures in a row, counted from a closed breaker with none.\<close>

lemma br_failures_below:
  assumes "br_phase b = Closed" "br_fails b + int (length ts) < cb_failureThreshold r"
  shows "br_ops r (map (\<lambda>t. (OpFailure, t)) ts) b =
    (replicate (length ts) OutDone, b\<lparr>br_fails := br_fails b + int (length ts)\<rparr>)"
  using assms
proof (induction ts arbitrary: b)
  case Nil
  then show ?case by simp
next
  case (Cons t ts)
  then have "br_ops r (map (\<lambda>t. (OpFailure, t)) ts) (b\<lparr>br_fails := br_fails b + 1\<rparr>) =
      (replicate (length ts) OutDone, b\<lparr>br_fails := br_fails b + 1 + int (length ts)\<rparr>)"
    by simp
  with Cons.prems show ?case by (simp add: ac_simps)
qed

lemma br_failures_open:
  assumes "br_phase b = Closed" "br_fails b = 0" "cb_failureThreshold r = int (Suc (length ts))"
  shows "br_ops r (map (\<lambda>t. (OpFailure, t)) (ts @ [t])) b =
    (replicate (Suc (length ts)) OutDone,
     b\<lparr>br_phase := Open, br_fails := int (Suc (length ts)), br_last := t\<rparr>)"
  using br_failures_below [of b ts r] assms
  by (simp add: br_ops_append replicate_append_same)

lemma br_op_open_refused:
  assumes "br_phase b = Open" "br_op r OpAllow t b = (OutAllow a, b')"
  shows "a \<longleftrightarrow> since_failure t (br_last b) > cb_timeout r div 1000000000"
  using assms by (auto split: if_splits)

lemma zip_replicate_map: "length ts = k \<Longrightarrow> zip (replicate k x) ts = map (\<lambda>t. (x, t)) ts"
  by (induction ts arbitrary: k) auto

lemma br_opening_history:
  assumes "cb_failureThreshold r = int k" "0 < k" "length ts = Suc k"
  shows "\<exists>b'. br_ops r (zip (replicate k OpFailure @ [OpAllow]) ts) fresh_breaker =
    (replicate k OutDone @ [OutAllow (since_failure (ts ! k) (ts ! (k - 1)) > cb_timeout r div 1000000000)], b')"
proof -
  obtain us t u where ts: "ts = (us @ [t]) @ [u]" and us: "k = Suc (length us)"
    using assms(2,3) by (cases ts rule: rev_cases; cases "butlast ts" rule: rev_cases) auto
  have "br_ops r (map (\<lambda>t. (OpFailure, t)) (us @ [t])) fresh_breaker =
      (replicate k OutDone, fresh_breaker\<lparr>br_phase := Open, br_fails := int k, br_last := t\<rparr>)"
    unfolding us by (rule br_failures_open) (use assms(1) us in \<open>simp_all add: fresh_breaker_def\<close>)
  moreover have "zip (replicate k OpFailure @ [OpAllow]) ts =
      map (\<lambda>t. (OpFailure, t)) (us @ [t]) @ [(OpAllow, u)]"
    unfolding ts by (simp add: zip_append zip_replicate_map us del: replicate.simps append_assoc)
  moreover have "ts ! k = u" "ts ! (k - 1) = t"
    by (simp_all add: ts us nth_append)
  ultimately show ?thesis
    by (auto simp: br_ops_append [of r "map (\<lambda>t. (OpFailure, t)) (us @ [t])"] simp del: map_append)
qed

lemma cb_repr_fresh:
  "\<forall>k \<in> cb_keys eid. ks k = None \<Longrightarrow> cb_repr ks eid fresh_breaker"
  by (simp add: cb_repr_def fresh_breaker_def holds_str_def cb_keys_def int64_ok_def)

lemma fresh_br_fails: "br_fails fresh_breaker = 0"
  by (simp add: fresh_breaker_def)

lemma cb_keys_disjoint: "eid \<noteq> eid' \<Longrightarrow> cb_keys eid \<inter> cb_keys eid' = {}"
  by (auto simp: cb_keys_def cb_stateKey_def cb_failuresKey_def cb_lastFailureKey_def
      dest: arg_cong [where f = rev])

lemma cb_keys_kept:
  "keys_changed (cb_keys eid) w w' \<Longrightarrow> eid' \<noteq> eid \<Longrightarrow> k \<in> cb_keys eid' \<Longrightarrow> w_keys w' k = w_keys w k"
  using cb_keys_disjoint [of eid' eid] by (auto simp: keys_changed_def)

subsection \<open>Properties\<close>

text \<open>
  C10: on a Redis that answers, every history of Allow, RecordSuccess and RecordFailure
  calls on an endpoint behaves as the abstract breaker does at instants within the calls, in
  their order: the answers of Allow are the abstract ones and the three keys represent the
  resulting breaker.
\<close>

theorem breaker_refines:
  assumes "reliable_redis P rt" "cb_repr (w_keys w) eid b"
    and "int64_ok (br_fails b + int (length ops))"
    and "\<And>n. int64_ok (unix_seconds (pl_now P n))"
  shows "wp P (cb_ops_prog r eid ops) (cb_history r eid P ops b w) w"
  by (rule reliable_redis.cb_ops_refine [OF assms])

theorem breaker_refines_witness:
  "wp (sim quiet) (cb_ops_prog (NewCircuitBreakerRepo 2 60000000000) ''e'' [OpFailure, OpAllow])
     (cb_history (NewCircuitBreakerRepo 2 60000000000) ''e'' (sim quiet) [OpFailure, OpAllow]
        fresh_breaker empty_world) empty_world"
  by (rule breaker_refines [OF calm_redis.reliable_redis_axioms [of quiet, simplified]])
    (simp_all add: cb_repr_fresh empty_world_def fresh_br_fails int64_ok_def sim_def unix_seconds_def)

text \<open>
  From an endpoint without history, as many failures in a row as the threshold open the
  breaker: the next Allow refuses unless more than the timeout has passed since the last of
  the failures.
\<close>

theorem breaker_opens_at_threshold:
  assumes "reliable_redis P rt" "\<And>n. int64_ok (unix_seconds (pl_now P n))"
    and "cb_failureThreshold r = int k" "0 < k" "int64_ok (int k + 1)"
    and "\<forall>key \<in> cb_keys eid. w_keys w key = None"
  shows "wp P (cb_ops_prog r eid (replicate k OpFailure @ [OpAllow]))
    (\<lambda>outs w'. \<exists>m n. w_tick w \<le> m \<and> m \<le> n \<and> n \<le> w_tick w'
       \<and> outs = replicate k OutDone @ [OutAllow
           (since_failure (unix_seconds (pl_now P n)) (unix_seconds (pl_now P m)) > cb_timeout r div 1000000000)]) w"
proof (rule wp_mono [OF reliable_redis.cb_ops_refine [OF assms(1) cb_repr_fresh [OF assms(6)] _ assms(2)]])
  show "int64_ok (br_fails fresh_breaker + int (length (replicate k OpFailure @ [OpAllow])))"
    using assms(5) by (simp add: fresh_breaker_def add.commute)
next
  fix outs w'
  assume "cb_history r eid P (replicate k OpFailure @ [OpAllow]) fresh_breaker w outs w'"
  then obtain ns b' where ns: "length ns = Suc k" "sorted (w_tick w # ns @ [w_tick w'])"
    and ops: "br_ops r (zip (replicate k OpFailure @ [OpAllow])
      (map (\<lambda>n. unix_seconds (pl_now P n)) ns)) fresh_breaker = (outs, b')"
    by (auto simp: cb_history_def)
  have "ns ! (k - 1) \<le> ns ! k" "w_tick w \<le> ns ! (k - 1)" "ns ! k \<le> w_tick w'"
    using ns assms(4) by (auto simp: sorted_append intro: sorted_nth_mono)
  with br_opening_history [OF assms(3,4), of "map (\<lambda>n. unix_seconds (pl_now P n)) ns"] ns(1) ops
  show "\<exists>m n. w_tick w \<le> m \<and> m \<le> n \<and> n \<le> w_tick w' \<and> outs = replicate k OutDone @ [OutAllow
      (since_failure (unix_seconds (pl_now P n)) (unix_seconds (pl_now P m)) > cb_timeout r div 1000000000)]"
    by (intro exI [of _ "ns ! (k - 1)"] exI [of _ "ns ! k"]) auto
qed

theorem breaker_opens_at_threshold_witness:
  "wp (sim quiet) (cb_ops_prog (NewCircuitBreakerRepo 5 60000000000) ''e''
       (replicate 5 OpFailure @ [OpAllow]))
     (\<lambda>outs w'. last outs = OutAllow False) empty_world"
  by (rule wp_mono [OF breaker_opens_at_threshold
        [OF calm_redis.reliable_redis_axioms [of quiet, simplified], of _ 5]])
    (auto simp: empty_world_def int64_ok_def sim_def unix_seconds_def NewCircuitBreakerRepo_def since_failure_def)

text \<open>
  Whatever Redis does, including failing with or without having executed a command, an
  operation on one endpoint's breaker returns and leaves the breaker of every other endpoint as it was.
\<close>

theorem breaker_isolation:
  assumes "redis_server P rt" "eid' \<noteq> eid"
  shows "wp P (cb_op_prog r eid op) (\<lambda>out w'. \<forall>k \<in> cb_keys eid'. w_keys w' k = w_keys w k) w"
  by (cases op)
    (auto simp: cb_op_prog_def dest: cb_keys_kept [OF _ assms(2)]
      intro!: redis_server.CB_Allow_frame [OF assms(1)] redis_server.CB_RecordSuccess_frame [OF assms(1)]
        redis_server.CB_RecordFailure_frame [OF assms(1)])

theorem breaker_isolation_witness:
  "wp (sim (quiet\<lparr>sc_fault := \<lambda>n. LostAnswer\<rparr>)) (cb_op_prog (NewCircuitBreakerRepo 5 60000000000) ''e'' OpFailure)
     (\<lambda>out w'. \<forall>k \<in> cb_keys ''f''. w_keys w' k = w_keys empty_world k) empty_world"
  by (rule breaker_isolation [OF sim_redis.redis_server_axioms]) simp

end
