(* ===== verification/Endpoint_Cache.thy ===== *)
theory Endpoint_Cache
  imports Redis_Client Go_Lib
begin

text \<open>
  \<^verbatim>\<open>internal/repository/redis/endpoint_cache.go\<close>: endpoints cached as JSON for a minute.
  \<^verbatim>\<open>Invalidate\<close> exists but nothing calls it.
\<close>

definition cache_key :: "string \<Rightarrow> string" where
  "cache_key endpointID = ''cache:endpoint:'' @ endpointID"

definition cache_ttl :: int where "cache_ttl = 60000000000"

definition cache_Get :: "golib \<Rightarrow> string \<Rightarrow> (gerr + endpoint option) prog" where
  "cache_Get gl endpointID =
     bind (redis_Get (cache_key endpointID)) (\<lambda>r. Ret (case r of
       Inl err \<Rightarrow> if err = RedisNil then Inr None else Inl (Wrapf ''cache get: '' err '''')
     | Inr v \<Rightarrow>
         (case gl_UnmarshalEndpoint gl v of
            Inl err \<Rightarrow> Inl (Wrapf ''cache unmarshal: '' err '''')
          | Inr ep \<Rightarrow> Inr (Some ep))))"

definition cache_Set :: "golib \<Rightarrow> endpoint \<Rightarrow> gerr option prog" where
  "cache_Set gl ep =
     (case gl_MarshalEndpoint gl ep of
        Inl err \<Rightarrow> Ret (Some (Wrapf ''cache marshal: '' err ''''))
      | Inr v \<Rightarrow> redis_Set (cache_key (ep_ID ep)) v (expiry_ms cache_ttl))"

definition cache_Invalidate :: "string \<Rightarrow> gerr option prog" where
  "cache_Invalidate endpointID = redis_Del (cache_key endpointID)"

text \<open>What a cached text stands for.\<close>

definition cached :: "golib \<Rightarrow> int \<Rightarrow> keyspace \<Rightarrow> string \<Rightarrow> endpoint option" where
  "cached gl t ks eid =
     (case live t ks (cache_key eid) of
        Some (RStr v) \<Rightarrow> (case gl_UnmarshalEndpoint gl v of Inr ep \<Rightarrow> Some ep | Inl e \<Rightarrow> None)
      | _ \<Rightarrow> None)"

context redis_server
begin

text \<open>Get never invents an endpoint: a hit is the decoded text in the cache.\<close>

lemma cache_Get_wp:
  assumes "\<And>ep. cached gl (rt (w_tick w)) (w_keys w) eid = Some ep \<Longrightarrow> Q (Inr (Some ep)) (tick w)"
    and "live (rt (w_tick w)) (w_keys w) (cache_key eid) = None \<Longrightarrow> Q (Inr None) (tick w)"
    and "\<And>e. Q (Inl e) (tick w)"
  shows "wp P (cache_Get gl eid) Q w"
  unfolding cache_Get_def wp_bind
  by (rule redis_Get_wp) (auto simp: cached_def intro!: assms split: sum.split)

lemma cache_Set_wp:
  assumes "\<And>r w'. keys_changed {cache_key (ep_ID ep)} w w' \<Longrightarrow> Q r w'"
  shows "wp P (cache_Set gl ep) Q w"
  unfolding cache_Set_def redis_Set_def
  by (auto intro!: redis_do_frame [where S = "{cache_key (ep_ID ep)}" and v = w] assms
      simp: rcmd_key_def split: sum.split)

end

end
