(* ===== verification/Delivery_Repo.thy ===== *)
theory Delivery_Repo
  imports Event_Repo
begin

text \<open>
  \<^verbatim>\<open>internal/repository/postgres/delivery_attempt.go\<close> and \<^verbatim>\<open>dead_letter_event.go\<close>: the
  record of every delivery attempt, and the events given up.
\<close>

subsection \<open>Delivery attempts\<close>

definition attemptColumns :: "string list" where
  "attemptColumns = [''id'', ''event_id'', ''endpoint_id'', ''attempt_number'', ''status_code'',
     ''response_body'', ''response_headers'', ''error_message'', ''duration_ms'', ''created_at'']"

definition attempt_params :: "DeliveryAttempt \<Rightarrow> sqlval list" where
  "attempt_params a =
     [VText (da_ID a), VText (da_EventID a), VText (da_EndpointID a), VInt (da_AttemptNumber a),
      VInt (da_StatusCode a), VText (da_ResponseBody a), VText (da_ResponseHeaders a),
      VText (da_ErrorMessage a), VInt (da_DurationMs a), VTime (da_CreatedAt a)]"

definition attempt_Scan :: "sqlval list \<Rightarrow> gerr + DeliveryAttempt" where
  "attempt_Scan vs = (case vs of
     [i, e, p, n, s, b, h, m, d, c] \<Rightarrow>
       if list_all is_text [i, e, p, b, m] \<and> (h = VNull \<or> is_text h) \<and> list_all is_int [n, s, d] \<and> is_time c
       then Inr \<lparr>da_ID = text_of i, da_EventID = text_of e, da_EndpointID = text_of p,
              da_AttemptNumber = int_of n, da_StatusCode = int_of s, da_ResponseBody = text_of b,
              da_ResponseHeaders = text_of h, da_ErrorMessage = text_of m, da_DurationMs = int_of d,
              da_CreatedAt = time_of c\<rparr>
       else Inl scan_error
   | _ \<Rightarrow> Inl scan_error)"

definition DeliveryAttemptRepo_Create :: "DeliveryAttempt \<Rightarrow> gerr option prog" where
  "DeliveryAttemptRepo_Create a =
     PgExec (Insert ''delivery_attempts'' attemptColumns (attempt_params a)) (\<lambda>r. Ret (case r of
       Inl err \<Rightarrow> Some (Wrapf ''insert delivery attempt: '' err '''')
     | Inr n \<Rightarrow> None))"

definition DeliveryAttemptRepo_ListByEventID :: "string \<Rightarrow> (gerr + DeliveryAttempt list) prog" where
  "DeliveryAttemptRepo_ListByEventID eventID =
     PgQuery (Select attemptColumns ''delivery_attempts'' (Eq ''event_id'' (VText eventID))
         (Some (Asc ''attempt_number'')) None) (\<lambda>r. Ret (case r of
       Inl err \<Rightarrow> Inl (Wrapf ''query delivery attempts: '' err '''')
     | Inr rows \<Rightarrow> scan_rows ''scan delivery attempt: '' attempt_Scan rows))"

definition attempt_row :: "pgtypes \<Rightarrow> DeliveryAttempt \<Rightarrow> row \<Rightarrow> bool" where
  "attempt_row ty a r \<longleftrightarrow>
     r ''event_id'' = VText (the (uuid_in ty (da_EventID a)))
     \<and> r ''endpoint_id'' = VText (the (uuid_in ty (da_EndpointID a)))
     \<and> r ''attempt_number'' = VInt (da_AttemptNumber a) \<and> r ''status_code'' = VInt (da_StatusCode a)
     \<and> r ''response_body'' = VText (da_ResponseBody a) \<and> r ''error_message'' = VText (da_ErrorMessage a)"

lemma store_attempt:
  assumes "store_all ty delivery_attempts_table (zip attemptColumns (attempt_params a)) (\<lambda>c. VNull) = Inr r"
  shows "attempt_row ty a r \<and> text_ok (da_ResponseBody a) \<and> text_ok (da_ErrorMessage a)"
  using assms
  by (auto simp: attemptColumns_def attempt_params_def store_def row_simps attempt_row_def
      split: sum.splits option.splits if_splits)

lemma insert_attempt_row:
  "insert_row ty ''delivery_attempts'' attemptColumns (attempt_params a) db = Inr r \<Longrightarrow>
     attempt_row ty a r \<and> text_ok (da_ResponseBody a) \<and> text_ok (da_ErrorMessage a)"
  by (auto simp: insert_row_def dest!: store_attempt split: sum.splits if_splits)

subsection \<open>Dead letters\<close>

definition deadLetterColumns :: "string list" where
  "deadLetterColumns = [''id'', ''tenant_id'', ''endpoint_id'', ''original_event_id'', ''event_type'',
     ''payload'', ''failure_reason'', ''last_status_code'', ''total_attempts'', ''created_at'']"

definition dead_letter_params :: "DeadLetterEvent \<Rightarrow> sqlval list" where
  "dead_letter_params d =
     [VText (dl_ID d), VText (dl_TenantID d), VText (dl_EndpointID d), VText (dl_OriginalEventID d),
      VText (dl_EventType d), VText (dl_Payload d), VText (dl_FailureReason d),
      VInt (dl_LastStatusCode d), VInt (dl_TotalAttempts d), VTime (dl_CreatedAt d)]"

definition dead_letter_Scan :: "sqlval list \<Rightarrow> gerr + DeadLetterEvent" where
  "dead_letter_Scan vs = (case vs of
     [i, t, p, e, ty, pl, f, s, n, c] \<Rightarrow>
       if list_all is_text [i, t, p, e, ty, pl, f] \<and> list_all is_int [s, n] \<and> is_time c
       then Inr \<lparr>dl_ID = text_of i, dl_TenantID = text_of t, dl_EndpointID = text_of p,
              dl_OriginalEventID = text_of e, dl_EventType = text_of ty, dl_Payload = text_of pl,
              dl_FailureReason = text_of f, dl_LastStatusCode = int_of s, dl_TotalAttempts = int_of n,
              dl_CreatedAt = time_of c\<rparr>
       else Inl scan_error
   | _ \<Rightarrow> Inl scan_error)"

definition DeadLetterEventRepo_Create :: "DeadLetterEvent \<Rightarrow> gerr option prog" where
  "DeadLetterEventRepo_Create d =
     PgExec (Insert ''dead_letter_events'' deadLetterColumns (dead_letter_params d)) (\<lambda>r. Ret (case r of
       Inl err \<Rightarrow> Some (Wrapf ''insert dead letter event: '' err '''')
     | Inr n \<Rightarrow> None))"

text \<open>
  The loop over the rows does not look at \<^verbatim>\<open>rows.Err()\<close>: when the query fails while its rows are
  read, those that had arrived are returned with no error. Which those are, for an error, is the
  driver's: \<open>None\<close> when \<^verbatim>\<open>pool.Query\<close> itself returned the error.
\<close>

definition DeadLetterEventRepo_ListByTenantID ::
  "(gerr \<Rightarrow> sqlval list list option) \<Rightarrow> string \<Rightarrow> int \<Rightarrow> int \<Rightarrow> (gerr + DeadLetterEvent list) prog" where
  "DeadLetterEventRepo_ListByTenantID arrived tenantID limit offset =
     PgQuery (Select deadLetterColumns ''dead_letter_events'' (Eq ''tenant_id'' (VText tenantID))
         (Some (Desc ''created_at'')) (Some (limit, offset))) (\<lambda>r. Ret (case r of
       Inl err \<Rightarrow> (case arrived err of
           None \<Rightarrow> Inl (Wrapf ''query dead letter events: '' err '''')
         | Some rows \<Rightarrow> scan_rows ''scan dead letter event: '' dead_letter_Scan rows)
     | Inr rows \<Rightarrow> scan_rows ''scan dead letter event: '' dead_letter_Scan rows))"

definition DeadLetterEventRepo_CountByTenantID :: "string \<Rightarrow> (gerr + int) prog" where
  "DeadLetterEventRepo_CountByTenantID tenantID =
     bind (pg_QueryRow (SelectCount ''dead_letter_events'' (Eq ''tenant_id'' (VText tenantID))) scan_count)
       (\<lambda>r. Ret (case r of Inl err \<Rightarrow> Inl (Wrapf ''count dead letter events: '' err '''') | Inr n \<Rightarrow> Inr n))"

definition DeadLetterEventRepo_GetByID :: "string \<Rightarrow> (gerr + DeadLetterEvent) prog" where
  "DeadLetterEventRepo_GetByID did =
     bind (pg_QueryRow (Select deadLetterColumns ''dead_letter_events'' (Eq ''id'' (VText did)) None None)
         dead_letter_Scan) (\<lambda>r. Ret (case r of
       Inl err \<Rightarrow>
         if errors_is err ErrNoRows then Inl ErrNotFound
         else Inl (Wrapf ''get dead letter event: '' err '''')
     | Inr d \<Rightarrow> Inr d))"

definition DeadLetterEventRepo_Delete :: "string \<Rightarrow> gerr option prog" where
  "DeadLetterEventRepo_Delete did =
     PgExec (Delete ''dead_letter_events'' (Eq ''id'' (VText did))) (\<lambda>r. Ret (case r of
       Inl err \<Rightarrow> Some (Wrapf ''delete dead letter event: '' err '''')
     | Inr n \<Rightarrow> if n = 0 then Some ErrNotFound else None))"

definition dead_letter_row :: "pgtypes \<Rightarrow> DeadLetterEvent \<Rightarrow> row \<Rightarrow> bool" where
  "dead_letter_row ty d r \<longleftrightarrow>
     r ''original_event_id'' = VText (the (uuid_in ty (dl_OriginalEventID d)))
     \<and> r ''endpoint_id'' = VText (the (uuid_in ty (dl_EndpointID d)))
     \<and> r ''failure_reason'' = VText (dl_FailureReason d) \<and> r ''last_status_code'' = VInt (dl_LastStatusCode d)
     \<and> r ''total_attempts'' = VInt (dl_TotalAttempts d)"

lemma store_dead_letter:
  assumes "store_all ty dead_letter_events_table (zip deadLetterColumns (dead_letter_params d)) (\<lambda>c. VNull) = Inr r"
  shows "dead_letter_row ty d r \<and> uuid_in ty (dl_EndpointID d) \<noteq> None"
  using assms
  by (auto simp: deadLetterColumns_def dead_letter_params_def store_def row_simps dead_letter_row_def
      split: sum.splits option.splits if_splits)

lemma insert_dead_letter_row:
  "insert_row ty ''dead_letter_events'' deadLetterColumns (dead_letter_params d) db = Inr r \<Longrightarrow>
     dead_letter_row ty d r
     \<and> rows_with db ''endpoints'' ''id'' (the (uuid_in ty (dl_EndpointID d))) \<noteq> []"
  by (auto simp: insert_row_def violates_reference_def list_ex_iff rows_with_def filter_empty_conv
      dead_letter_row_def dest!: store_dead_letter split: sum.splits if_splits)

subsection \<open>Contracts\<close>

text \<open>
  Both insertions add at most one row, of the struct given, and change nothing else; no row
  is added when the database refuses it.
\<close>

context pg_server
begin

lemma DeliveryAttemptRepo_Create_wp:
  assumes "\<And>r. attempt_row ty a r \<Longrightarrow> text_ok (da_ResponseBody a) \<Longrightarrow>
      Q None (tick (w\<lparr>w_db := (w_db w)(''delivery_attempts'' := w_db w ''delivery_attempts'' @ [r])\<rparr>))"
    and "\<And>e. Q (Some e) (tick w)"
    and "\<And>e r. attempt_row ty a r \<Longrightarrow> text_ok (da_ResponseBody a) \<Longrightarrow>
      Q (Some e) (tick (w\<lparr>w_db := (w_db w)(''delivery_attempts'' := w_db w ''delivery_attempts'' @ [r])\<rparr>))"
  shows "wp P (DeliveryAttemptRepo_Create a) Q w"
  unfolding DeliveryAttemptRepo_Create_def
  by (rule insert_wp) (use assms in \<open>auto dest!: insert_attempt_row\<close>)

lemma DeadLetterEventRepo_Create_wp:
  assumes "\<And>r. dead_letter_row ty d r \<Longrightarrow>
      rows_with (w_db w) ''endpoints'' ''id'' (the (uuid_in ty (dl_EndpointID d))) \<noteq> [] \<Longrightarrow>
      Q None (tick (w\<lparr>w_db := (w_db w)(''dead_letter_events'' := w_db w ''dead_letter_events'' @ [r])\<rparr>))"
    and "\<And>e. Q (Some e) (tick w)"
    and "\<And>e r. dead_letter_row ty d r \<Longrightarrow>
      rows_with (w_db w) ''endpoints'' ''id'' (the (uuid_in ty (dl_EndpointID d))) \<noteq> [] \<Longrightarrow>
      Q (Some e) (tick (w\<lparr>w_db := (w_db w)(''dead_letter_events'' := w_db w ''dead_letter_events'' @ [r])\<rparr>))"
  shows "wp P (DeadLetterEventRepo_Create d) Q w"
  unfolding DeadLetterEventRepo_Create_def
  by (rule insert_wp) (use assms in \<open>auto dest!: insert_dead_letter_row\<close>)

end

end
