(* ===== verification/Dispatcher.thy ===== *)
theory Dispatcher
  imports Delivery Backoff Lock Circuit_Breaker Endpoint_Cache Event_Repo Endpoint_Repo Tenant_Repo
    Delivery_Repo
begin

text \<open>
  \<^verbatim>\<open>internal/service/dispatcher.go\<close>: the worker that takes messages from the topic and
  delivers the events they name. The Go struct holds the repositories, the client, the breaker,
  the lock and the cache; of these only the breaker has settings.
\<close>

record DispatcherService =
  ds_breaker :: CircuitBreakerRepo

definition NewDispatcherService :: "CircuitBreakerRepo \<Rightarrow> DispatcherService" where
  "NewDispatcherService circuitBreaker = \<lparr>ds_breaker = circuitBreaker\<rparr>"

subsection \<open>Helpers\<close>

definition truncate :: "string \<Rightarrow> nat \<Rightarrow> string" where
  "truncate s maxLen = (if length s \<le> maxLen then s else take maxLen s)"

definition errorMessage :: "gerr option \<Rightarrow> string" where
  "errorMessage err = (case err of None \<Rightarrow> '''' | Some e \<Rightarrow> err_msg e)"

definition failureMessage :: "DeliveryResult \<Rightarrow> string" where
  "failureMessage result = (case dr_Error result of
     Some e \<Rightarrow> ''connection error: '' @ err_msg e
   | None \<Rightarrow> ''HTTP '' @ show_int (dr_StatusCode result))"

subsection \<open>Steps\<close>

definition recordAttempt :: "golib \<Rightarrow> event \<Rightarrow> DeliveryResult \<Rightarrow> unit prog" where
  "recordAttempt gl ev result =
     (let headersJSON = gl_MarshalHeaders gl (dr_ResponseHeaders result) in
      NewUUID (\<lambda>uuid. Now (\<lambda>now.
        let attempt = \<lparr>da_ID = uuid, da_EventID = ev_ID ev, da_EndpointID = ev_EndpointID ev,
              da_AttemptNumber = ev_AttemptCount ev + 1, da_StatusCode = dr_StatusCode result,
              da_ResponseBody = truncate (dr_ResponseBody result) 1024, da_ResponseHeaders = headersJSON,
              da_ErrorMessage = errorMessage (dr_Error result),
              da_DurationMs = dr_Duration result div 1000000, da_CreatedAt = now\<rparr>
        in bind (DeliveryAttemptRepo_Create attempt) (\<lambda>err. Ret ()))))"

definition dead_letter :: "event \<Rightarrow> string \<Rightarrow> int \<Rightarrow> string \<Rightarrow> time \<Rightarrow> DeadLetterEvent" where
  "dead_letter ev reason lastStatusCode uuid now =
     \<lparr>dl_ID = uuid, dl_TenantID = ev_TenantID ev, dl_EndpointID = ev_EndpointID ev,
      dl_OriginalEventID = ev_ID ev, dl_EventType = ev_EventType ev, dl_Payload = ev_Payload ev,
      dl_FailureReason = reason, dl_LastStatusCode = lastStatusCode,
      dl_TotalAttempts = ev_AttemptCount ev, dl_CreatedAt = now\<rparr>"

definition handleDeadLetter :: "event \<Rightarrow> string \<Rightarrow> int \<Rightarrow> unit prog" where
  "handleDeadLetter ev reason lastStatusCode =
     NewUUID (\<lambda>uuid. Now (\<lambda>now.
       bind (DeadLetterEventRepo_Create (dead_letter ev reason lastStatusCode uuid now)) (\<lambda>err.
       bind (EventRepo_UpdateStatus (ev_ID ev) EventStatusFailed) (\<lambda>err. Ret ()))))"

definition handleFailure :: "event \<Rightarrow> DeliveryResult \<Rightarrow> unit prog" where
  "handleFailure ev result =
     (let newAttemptCount = ev_AttemptCount ev + 1;
          failureReason = failureMessage result
      in if newAttemptCount \<ge> ev_MaxAttempts ev
         then handleDeadLetter ev failureReason (dr_StatusCode result)
         else
           bind (TenantRepo_GetByID (ev_TenantID ev)) (\<lambda>t.
             let retryBaseMs = (case t of Inl err \<Rightarrow> 1000 | Inr tenant \<Rightarrow> tn_RetryBaseMs tenant) in
             bind (NextRetryAt newAttemptCount retryBaseMs) (\<lambda>nextRetryAt.
             bind (EventRepo_UpdateForRetry (ev_ID ev) EventStatusRetrying newAttemptCount nextRetryAt)
               (\<lambda>err. Ret ()))))"

definition getEndpoint :: "golib \<Rightarrow> string \<Rightarrow> (gerr + endpoint) prog" where
  "getEndpoint gl endpointID =
     bind (cache_Get gl endpointID) (\<lambda>c.
       let cached = (case c of Inl err \<Rightarrow> None | Inr e \<Rightarrow> e) in
       case cached of
         Some ep \<Rightarrow> Ret (Inr ep)
       | None \<Rightarrow>
           bind (EndpointRepo_GetByID endpointID) (\<lambda>r. case r of
             Inl err \<Rightarrow> Ret (Inl err)
           | Inr ep \<Rightarrow> bind (cache_Set gl ep) (\<lambda>cacheErr. Ret (Inr ep))))"

definition webhook_headers :: "event \<Rightarrow> (string \<times> string) list" where
  "webhook_headers ev =
     [(''X-Webhook-ID'', ev_ID ev), (''X-Webhook-Signature'', ev_Signature ev),
      (''X-Webhook-Event'', ev_EventType ev), (''X-Webhook-Attempt'', show_int (ev_AttemptCount ev + 1))]"

definition successful :: "DeliveryResult \<Rightarrow> bool" where
  "successful result \<longleftrightarrow>
     dr_StatusCode result \<ge> 200 \<and> dr_StatusCode result < 300 \<and> dr_Error result = None"

text \<open>The end of \<^verbatim>\<open>processMessage\<close>: the delivery and what follows from its result.\<close>

definition deliver_event :: "golib \<Rightarrow> DispatcherService \<Rightarrow> event \<Rightarrow> endpoint \<Rightarrow> gerr option prog" where
  "deliver_event gl s ev ep =
     bind (Deliver gl (ep_URL ep) (ev_Payload ev) (webhook_headers ev)) (\<lambda>result.
     bind (recordAttempt gl ev result) (\<lambda>_.
     if successful result then
       bind (circuitBreakerService_RecordSuccess (ds_breaker s) (ev_EndpointID ev)) (\<lambda>_.
       bind (EventRepo_UpdateStatus (ev_ID ev) EventStatusDelivered) (\<lambda>err. Ret None))
     else
       bind (circuitBreakerService_RecordFailure (ds_breaker s) (ev_EndpointID ev)) (\<lambda>_.
       bind (handleFailure ev result) (\<lambda>_. Ret None))))"

text \<open>Its middle, under the lock: the breaker, the endpoint, the delivery.\<close>

definition locked_part :: "golib \<Rightarrow> DispatcherService \<Rightarrow> event \<Rightarrow> gerr option prog" where
  "locked_part gl s ev =
     bind (circuitBreakerService_Allow (ds_breaker s) (ev_EndpointID ev)) (\<lambda>(allowed, cbState, err).
       if \<not> allowed then Ret None
       else
         bind (getEndpoint gl (ev_EndpointID ev)) (\<lambda>r. case r of
           Inl err \<Rightarrow>
             if errors_is err ErrNotFound
             then bind (handleDeadLetter ev ''endpoint not found'' 0) (\<lambda>_. Ret None)
             else Ret (Some (Wrapf ''get endpoint: '' err ''''))
         | Inr ep \<Rightarrow>
             if \<not> ep_Active ep
             then bind (handleDeadLetter ev ''endpoint inactive'' 0) (\<lambda>_. Ret None)
             else deliver_event gl s ev ep))"

definition dispatch_lock :: "string \<Rightarrow> string" where
  "dispatch_lock eventID = ''dispatch:'' @ eventID"

definition dispatch_ttl :: int where "dispatch_ttl = 300000000000"

text \<open>The rest of \<^verbatim>\<open>processMessage\<close>, once the event is read.\<close>

definition process_event :: "golib \<Rightarrow> DispatcherService \<Rightarrow> event \<Rightarrow> gerr option prog" where
  "process_event gl s ev =
     (if ev_Status ev = EventStatusDelivered \<or> ev_Status ev = EventStatusFailed then Ret None
      else
        bind (lock_Acquire (dispatch_lock (ev_ID ev)) dispatch_ttl) (\<lambda>(lockVal, locked).
          if \<not> locked then Ret None
          else deferred (lock_Release (dispatch_lock (ev_ID ev)) lockVal) (locked_part gl s ev)))"

definition processMessage :: "golib \<Rightarrow> DispatcherService \<Rightarrow> kmessage \<Rightarrow> gerr option prog" where
  "processMessage gl s msg =
     (case gl_UnmarshalMessage gl (km_Value msg) of
        Inl err \<Rightarrow> Ret None
      | Inr eventMsg \<Rightarrow>
          bind (EventRepo_GetByID (em_EventID eventMsg)) (\<lambda>r. case r of
            Inl err \<Rightarrow>
              if errors_is err ErrNotFound then Ret None
              else Ret (Some (Wrapf ''get event: '' err ''''))
          | Inr ev \<Rightarrow> process_event gl s ev))"

text \<open>One round of \<^verbatim>\<open>Start\<close>: whether the loop goes on.\<close>

definition dispatch_round :: "golib \<Rightarrow> DispatcherService \<Rightarrow> bool prog" where
  "dispatch_round gl s =
     KafkaFetch (\<lambda>f. case f of
       Inl err \<Rightarrow> Cancelled (\<lambda>stop. Ret (\<not> stop))
     | Inr msg \<Rightarrow>
         bind (processMessage gl s msg) (\<lambda>err.
         KafkaCommit msg (\<lambda>cerr. Ret True)))"

text \<open>The loop, watched for a number of rounds; \<open>True\<close> when it has returned.\<close>

fun dispatcher_Start :: "golib \<Rightarrow> DispatcherService \<Rightarrow> nat \<Rightarrow> bool prog" where
  "dispatcher_Start gl s 0 = Ret False"
| "dispatcher_Start gl s (Suc n) =
     bind (dispatch_round gl s) (\<lambda>go. if go then dispatcher_Start gl s n else Ret True)"

subsection \<open>What handling a message can do\<close>

text \<open>
  The effect on the rows of the event: none, delivered, given up, or another try. \<open>tried\<close>
  says whether a delivery was tried.
\<close>

definition event_effect :: "event \<Rightarrow> bool \<Rightarrow> (row \<Rightarrow> row) \<Rightarrow> bool" where
  "event_effect ev tried f \<longleftrightarrow>
     f = (\<lambda>r. r)
     \<or> (tried \<and> (\<exists>now. f = put_status EventStatusDelivered now))
     \<or> (tried \<and> ev_AttemptCount ev + 1 < ev_MaxAttempts ev
          \<and> (\<exists>at now. f = put_retry EventStatusRetrying (ev_AttemptCount ev + 1) at now))
     \<or> ((tried \<longrightarrow> ev_MaxAttempts ev \<le> ev_AttemptCount ev + 1)
          \<and> (\<exists>now. f = put_status EventStatusFailed now))"

definition gives_up :: "event \<Rightarrow> string \<Rightarrow> int \<Rightarrow> pgtypes \<Rightarrow> row list \<Rightarrow> bool" where
  "gives_up ev reason code ty dls \<longleftrightarrow> length dls \<le> 1
     \<and> (\<forall>d \<in> set dls. \<exists>uuid now. dead_letter_row ty (dead_letter ev reason code uuid now) d)"

lemma gives_up_simps [simp]:
  "gives_up ev reason code ty []"
  "gives_up ev reason code ty [d] \<longleftrightarrow> (\<exists>uuid now. dead_letter_row ty (dead_letter ev reason code uuid now) d)"
  by (simp_all add: gives_up_def)

context pg_server
begin

lemma recordAttempt_wp:
  assumes "\<And>w' atts. only_db w w' \<Longrightarrow> length atts \<le> 1 \<Longrightarrow>
      (\<And>a. a \<in> set atts \<Longrightarrow> a ''attempt_number'' = VInt (ev_AttemptCount ev + 1)
         \<and> a ''event_id'' = VText (the (uuid_in ty (ev_ID ev)))
         \<and> a ''status_code'' = VInt (dr_StatusCode result)) \<Longrightarrow>
      w_db w' = (w_db w)(''delivery_attempts'' := w_db w ''delivery_attempts'' @ atts) \<Longrightarrow> Q () w'"
  shows "wp P (recordAttempt gl ev result) Q w"
proof -
  have one: "Q () w'" if "only_db w w'" "attempt_row ty a r" "da_AttemptNumber a = ev_AttemptCount ev + 1"
      "da_EventID a = ev_ID ev" "da_StatusCode a = dr_StatusCode result"
      "w_db w' = (w_db w)(''delivery_attempts'' := w_db w ''delivery_attempts'' @ [r])" for a r w'
    using that by (intro assms [where atts = "[r]"]) (auto simp: attempt_row_def)
  have none: "Q () w'" if "only_db w w'" "w_db w' = w_db w" for w'
    using that by (intro assms [where atts = "[]"]) auto
  show ?thesis
    unfolding recordAttempt_def Let_def wp_NewUUID wp_Now wp_bind
    by (rule DeliveryAttemptRepo_Create_wp) (auto intro: one none)
qed

lemma handleDeadLetter_wp:
  assumes "uuid_in ty (ev_ID ev) = Some (ev_ID ev)"
    and "\<And>w' dls f. only_db w w' \<Longrightarrow> gives_up ev reason code ty dls \<Longrightarrow>
      f = (\<lambda>r. r) \<or> (\<exists>now. f = put_status EventStatusFailed now) \<Longrightarrow>
      w_db w' = set_rows ''events'' (ev_ID ev) f
        ((w_db w)(''dead_letter_events'' := w_db w ''dead_letter_events'' @ dls)) \<Longrightarrow> Q () w'"
  shows "wp P (handleDeadLetter ev reason code) Q w"
proof -
  have end_state: "Q () w'"
    if "only_db w w'" "gives_up ev reason code ty dls"
      "w_db w' = db1 \<or> (\<exists>now. w_db w' = set_rows ''events'' (ev_ID ev) (put_status EventStatusFailed now) db1)"
      "db1 = (w_db w)(''dead_letter_events'' := w_db w ''dead_letter_events'' @ dls)" for w' dls db1
    using that assms(2) [of w' dls "\<lambda>r. r"] assms(2) [of w' dls "put_status EventStatusFailed _"] by auto
  have status: "wp P (EventRepo_UpdateStatus (ev_ID ev) EventStatusFailed) (\<lambda>a. wp P (Ret ()) Q) w1"
    if "only_db w w1" "gives_up ev reason code ty dls"
      "w_db w1 = (w_db w)(''dead_letter_events'' := w_db w ''dead_letter_events'' @ dls)" for w1 dls
    by (rule EventRepo_UpdateStatus_wp)
      (use that assms(1) in \<open>auto intro!: end_state [where dls = dls, OF _ _ _ refl]\<close>)
  show ?thesis
    unfolding handleDeadLetter_def wp_NewUUID wp_Now wp_bind
    by (rule DeadLetterEventRepo_Create_wp) (rule status; force)+
qed

end

text \<open>Every tenant's base delay is positive: what the services keep, and what the random number needs.\<close>

definition bases_ok :: "database \<Rightarrow> bool" where
  "bases_ok db \<longleftrightarrow> (\<forall>r \<in> set (db ''tenants''). tenant_row_ok r \<longrightarrow>
     0 < int_of (r ''retry_base_ms'') \<and> int_of (r ''retry_base_ms'') < 2 ^ 31)"

lemma row_tenant_base [simp]: "tn_RetryBaseMs (row_tenant r) = int_of (r ''retry_base_ms'')"
  by (simp add: row_tenant_def)

text \<open>
  The effect of one message on the world, for the event it names. \<open>tried\<close>: a delivery was
  tried, with at most one request sent, which carries the event's payload, signature and
  attempt number; the lock, the cache and the breaker of the endpoint are the only keys touched.
\<close>

definition dispatch_effect :: "event \<Rightarrow> world \<Rightarrow> world \<Rightarrow> bool" where
  "dispatch_effect ev w w' \<longleftrightarrow>
     w_log w' = w_log w \<and> w_committed w' = w_committed w \<and>
     (\<exists>tried f atts dls.
        (w_sent w' = w_sent w
          \<or> (tried \<and> (\<exists>url. w_sent w' = w_sent w @ [webhook_post url (ev_Payload ev) (webhook_headers ev)])))
        \<and> event_effect ev tried f
        \<and> length atts \<le> 1 \<and> length dls \<le> 1
        \<and> (atts \<noteq> [] \<longrightarrow> tried) \<and> (\<forall>a \<in> set atts. a ''attempt_number'' = VInt (ev_AttemptCount ev + 1))
        \<and> (\<forall>d \<in> set dls. d ''total_attempts'' = VInt (ev_AttemptCount ev)
             \<and> (tried \<longrightarrow> ev_MaxAttempts ev \<le> ev_AttemptCount ev + 1))
        \<and> w_db w' = set_rows ''events'' (ev_ID ev) f
            ((w_db w)(''delivery_attempts'' := w_db w ''delivery_attempts'' @ atts,
                      ''dead_letter_events'' := w_db w ''dead_letter_events'' @ dls)))"

text \<open>The world once the attempt is recorded.\<close>

definition attempted :: "event \<Rightarrow> row list \<Rightarrow> world \<Rightarrow> world \<Rightarrow> bool" where
  "attempted ev atts w w1 \<longleftrightarrow> w_log w1 = w_log w \<and> w_committed w1 = w_committed w
     \<and> (w_sent w1 = w_sent w
          \<or> (\<exists>url. w_sent w1 = w_sent w @ [webhook_post url (ev_Payload ev) (webhook_headers ev)]))
     \<and> length atts \<le> 1 \<and> (\<forall>a \<in> set atts. a ''attempt_number'' = VInt (ev_AttemptCount ev + 1))
     \<and> w_db w1 = (w_db w)(''delivery_attempts'' := w_db w ''delivery_attempts'' @ atts)"

lemma attempted_keys: "attempted ev atts w w1 \<Longrightarrow> keys_changed S w1 w2 \<Longrightarrow> attempted ev atts w w2"
  by (auto simp: attempted_def keys_changed_def)

lemma attempted_effect:
  assumes "attempted ev atts w w1" "only_db w1 w'" "event_effect ev True f" "length dls \<le> 1"
    and "\<And>d. d \<in> set dls \<Longrightarrow> d ''total_attempts'' = VInt (ev_AttemptCount ev)
      \<and> ev_MaxAttempts ev \<le> ev_AttemptCount ev + 1"
    and "w_db w' = set_rows ''events'' (ev_ID ev) f
      ((w_db w1)(''dead_letter_events'' := w_db w1 ''dead_letter_events'' @ dls))"
  shows "dispatch_effect ev w w'"
proof -
  have log: "w_log w' = w_log w" "w_committed w' = w_committed w" "w_sent w' = w_sent w1"
    using assms(1,2) by (auto simp: attempted_def only_db_def)
  have "w_db w' = set_rows ''events'' (ev_ID ev) f
      ((w_db w)(''delivery_attempts'' := w_db w ''delivery_attempts'' @ atts,
                ''dead_letter_events'' := w_db w ''dead_letter_events'' @ dls))"
    using assms(1,6) by (simp add: attempted_def)
  with log assms(1,3-5) show ?thesis
    unfolding dispatch_effect_def attempted_def
    by (intro conjI exI [of _ True] exI [of _ f] exI [of _ atts] exI [of _ dls]) auto
qed

text \<open>What handling a message did: nothing but the passing of time, or the effect on an open event.\<close>

definition handled :: "golib \<Rightarrow> pgtypes \<Rightarrow> kmessage \<Rightarrow> world \<Rightarrow> world \<Rightarrow> bool" where
  "handled gl ty msg w w' \<longleftrightarrow>
     keys_changed {} w w'
     \<or> (\<exists>em u r. gl_UnmarshalMessage gl (km_Value msg) = Inr em \<and> uuid_in ty (em_EventID em) = Some u
          \<and> r \<in> set (rows_with (w_db w) ''events'' ''id'' u) \<and> event_row_ok r
          \<and> \<not> resolved (ev_Status (row_event r)) \<and> dispatch_effect (row_event r) w w')"

context backend
begin

lemma handleFailure_wp:
  assumes uuid: "uuid_in ty (ev_ID ev) = Some (ev_ID ev)" and bases: "bases_ok (w_db w)"
    and Q: "\<And>w' dls f. only_db w w' \<Longrightarrow> length dls \<le> 1 \<Longrightarrow> event_effect ev True f \<Longrightarrow>
      (dls \<noteq> [] \<Longrightarrow> ev_MaxAttempts ev \<le> ev_AttemptCount ev + 1
         \<and> gives_up ev (failureMessage result) (dr_StatusCode result) ty dls) \<Longrightarrow>
      w_db w' = set_rows ''events'' (ev_ID ev) f
        ((w_db w)(''dead_letter_events'' := w_db w ''dead_letter_events'' @ dls)) \<Longrightarrow> Q () w'"
  shows "wp P (handleFailure ev result) Q w"
proof (cases "ev_MaxAttempts ev \<le> ev_AttemptCount ev + 1")
  case True
  then show ?thesis
    by (simp add: handleFailure_def Let_def)
      (rule handleDeadLetter_wp [OF uuid]; rule Q; (assumption | auto simp: event_effect_def gives_up_def))
next
  case False
  have same: "Q () w'" if "only_db w w'" "w_db w' = w_db w" for w'
    using that by (intro Q [where dls = "[]" and f = "\<lambda>r. r"]) (auto simp: event_effect_def)
  have retry: "Q () w'" if "only_db w w'"
    "w_db w' = set_rows ''events'' (ev_ID ev) (put_retry EventStatusRetrying (ev_AttemptCount ev + 1) at now) (w_db w)"
    for w' at now
    using that False
    by (intro Q [where dls = "[]" and f = "put_retry EventStatusRetrying (ev_AttemptCount ev + 1) at now"])
      (auto simp: event_effect_def)
  have update: "wp P (EventRepo_UpdateForRetry (ev_ID ev) EventStatusRetrying (ev_AttemptCount ev + 1) at)
      (\<lambda>a. wp P (Ret ()) Q) w1" if "only_db w w1" "w_db w1 = w_db w" for at w1
    by (rule EventRepo_UpdateForRetry_wp) (use that uuid in \<open>auto intro: same retry\<close>)
  have later: "wp P (bind (NextRetryAt (ev_AttemptCount ev + 1) base) (\<lambda>at.
      bind (EventRepo_UpdateForRetry (ev_ID ev) EventStatusRetrying (ev_AttemptCount ev + 1) at)
        (\<lambda>err. Ret ()))) Q w1" if "only_db w w1" "w_db w1 = w_db w" "0 < base" "base < 2 ^ 31" for base w1
    unfolding wp_bind by (rule NextRetryAt_wp [OF that(3,4)]) (rule update; simp add: that)
  have base: "0 < tn_RetryBaseMs (row_tenant r) \<and> tn_RetryBaseMs (row_tenant r) < 2 ^ 31"
    if "r \<in> set (rows_with (w_db w) ''tenants'' ''id'' u)" "tenant_row_ok r" for r u
    using that bases by (simp add: bases_ok_def rows_with_def)
  show ?thesis
    using False unfolding handleFailure_def Let_def
    by (simp del: wp_bind, subst wp_bind)
      (rule TenantRepo_GetByID_wp; simp del: wp_bind row_tenant_base; rule later;
        use base in \<open>auto simp del: row_tenant_base\<close>)
qed

lemma getEndpoint_wp:
  assumes "\<And>w' ep. keys_changed {cache_key eid} w w' \<Longrightarrow>
      cached gl (rt (w_tick w)) (w_keys w) eid = Some ep \<Longrightarrow> Q (Inr ep) w'"
    and "\<And>w' r. keys_changed {cache_key (ep_ID (row_endpoint r))} w w' \<Longrightarrow>
      (\<exists>u. uuid_in ty eid = Some u \<and> r \<in> set (rows_with (w_db w) ''endpoints'' ''id'' u)) \<Longrightarrow>
      endpoint_row_ok r \<Longrightarrow> Q (Inr (row_endpoint r)) w'"
    and "\<And>w' e. keys_changed {} w w' \<Longrightarrow> errors_is e ErrNotFound \<Longrightarrow>
      (\<exists>u. uuid_in ty eid = Some u \<and> rows_with (w_db w) ''endpoints'' ''id'' u = []) \<Longrightarrow> Q (Inl e) w'"
    and "\<And>w' e. keys_changed {} w w' \<Longrightarrow> \<not> errors_is e ErrNotFound \<Longrightarrow> Q (Inl e) w'"
  shows "wp P (getEndpoint gl eid) Q w"
proof -
  let ?rest = "bind (EndpointRepo_GetByID eid) (\<lambda>r. case r of
      Inl err \<Rightarrow> Ret (Inl err) | Inr ep \<Rightarrow> bind (cache_Set gl ep) (\<lambda>cacheErr. Ret (Inr ep)))"
  have miss: "wp P ?rest Q (tick w)"
    unfolding wp_bind
  proof (rule EndpointRepo_GetByID_wp, goal_cases)
    case (1 u r)
    have kc: "keys_changed S (tick (tick w)) w' \<Longrightarrow> keys_changed S w w'" for S w'
      by (auto simp: keys_changed_def)
    show ?case
      by simp (rule cache_Set_wp; use 1 kc in \<open>auto intro: assms(2)\<close>)
  next
    case (2 u)
    then show ?case by (simp, intro assms(3)) (auto simp: keys_changed_def)
  next
    case (3 e)
    then show ?case by (simp, intro assms(4)) (auto simp: keys_changed_def)
  qed
  show ?thesis
    unfolding getEndpoint_def Let_def
    by (subst wp_bind, rule cache_Get_wp)
      (use miss in \<open>auto intro!: assms(1) simp: keys_changed_def\<close>)
qed

lemma deliver_event_wp:
  assumes uuid: "uuid_in ty (ev_ID ev) = Some (ev_ID ev)" and bases: "bases_ok (w_db w)"
  shows "wp P (deliver_event gl s ev ep) (\<lambda>r w'. r = None \<and> dispatch_effect ev w w') w"
  unfolding deliver_event_def wp_bind
proof (rule Deliver_wp, rule recordAttempt_wp, goal_cases)
  case (1 res w1 w2 atts)
  let ?Q = "\<lambda>r w'. r = None \<and> dispatch_effect ev w w'"
  have w2: "attempted ev atts w w2"
    using 1 by (auto simp: attempted_def only_db_def)
  have delivered: "wp P (bind (EventRepo_UpdateStatus (ev_ID ev) EventStatusDelivered) (\<lambda>err. Ret None)) ?Q w3"
    if "attempted ev atts w w3" for w3
  proof -
    have fin: "dispatch_effect ev w w'" if "only_db w3 w'"
      "w_db w' = w_db w3 \<or> (\<exists>now. w_db w' = set_rows ''events'' (ev_ID ev) (put_status EventStatusDelivered now) (w_db w3))"
      for w'
    proof -
      from that(2) obtain f where "event_effect ev True f" "w_db w' = set_rows ''events'' (ev_ID ev) f (w_db w3)"
        using set_rows_id [of "''events''" "ev_ID ev" "w_db w3"] by (metis event_effect_def)
      then show ?thesis
        using attempted_effect [OF \<open>attempted ev atts w w3\<close> that(1), of f "[]"] by simp
    qed
    show ?thesis
      unfolding wp_bind by (rule EventRepo_UpdateStatus_wp) (use uuid in \<open>auto intro!: fin\<close>)
  qed
  have failed: "wp P (bind (handleFailure ev res) (\<lambda>_. Ret None)) ?Q w3"
    if w3: "attempted ev atts w w3" for w3
    unfolding wp_bind
  proof (rule handleFailure_wp [OF uuid])
    show "bases_ok (w_db w3)" using bases w3 by (simp add: attempted_def bases_ok_def)
  next
    fix w' dls f
    assume *: "only_db w3 w'" "length dls \<le> 1" "event_effect ev True f"
      "dls \<noteq> [] \<Longrightarrow> ev_MaxAttempts ev \<le> ev_AttemptCount ev + 1
         \<and> gives_up ev (failureMessage res) (dr_StatusCode res) ty dls"
      "w_db w' = set_rows ''events'' (ev_ID ev) f
        ((w_db w3)(''dead_letter_events'' := w_db w3 ''dead_letter_events'' @ dls))"
    have "d ''total_attempts'' = VInt (ev_AttemptCount ev) \<and> ev_MaxAttempts ev \<le> ev_AttemptCount ev + 1"
      if "d \<in> set dls" for d
      using *(4) that by (fastforce simp: gives_up_def dead_letter_row_def dead_letter_def)
    with attempted_effect [where f = f and dls = dls, OF w3 *(1,3,2)] *(5) show "wp P (Ret None) ?Q w'"
      by simp
  qed
  show ?case
    by (simp, intro conjI impI)
      (rule CB_RecordSuccess_frame, rule delivered, rule attempted_keys [OF w2], assumption,
       rule CB_RecordFailure_frame, rule failed, rule attempted_keys [OF w2], assumption)
qed

lemma dispatch_effect_refl [simp]: "dispatch_effect ev w w"
  unfolding dispatch_effect_def event_effect_def
  by (intro conjI refl exI [of _ False] exI [of _ "\<lambda>r. r"] exI [of _ "[]"]) auto

lemma dispatch_effect_keys_before:
  "keys_changed S w u \<Longrightarrow> dispatch_effect ev u w' \<Longrightarrow> dispatch_effect ev w w'"
  by (simp add: dispatch_effect_def keys_changed_def)

lemma dispatch_effect_keys_after:
  "dispatch_effect ev w u \<Longrightarrow> keys_changed S u w' \<Longrightarrow> dispatch_effect ev w w'"
  by (simp add: dispatch_effect_def keys_changed_def)

lemma dispatch_effect_given_up:
  assumes "only_db w w'" "gives_up ev reason code ty dls"
    and "f = (\<lambda>r. r) \<or> (\<exists>now. f = put_status EventStatusFailed now)"
    and "w_db w' = set_rows ''events'' (ev_ID ev) f
      ((w_db w)(''dead_letter_events'' := w_db w ''dead_letter_events'' @ dls))"
  shows "dispatch_effect ev w w'"
  unfolding dispatch_effect_def
proof (intro conjI, goal_cases)
  case 3
  have "event_effect ev False f" using assms(3) by (auto simp: event_effect_def)
  moreover have "\<forall>d \<in> set dls. d ''total_attempts'' = VInt (ev_AttemptCount ev)"
    using assms(2) by (fastforce simp: gives_up_def dead_letter_row_def dead_letter_def)
  moreover have "w_sent w' = w_sent w" "length dls \<le> 1"
    using assms(1,2) by (simp_all add: only_db_def gives_up_def)
  moreover have "w_db w' = set_rows ''events'' (ev_ID ev) f ((w_db w)(''delivery_attempts'' :=
      w_db w ''delivery_attempts'' @ [], ''dead_letter_events'' := w_db w ''dead_letter_events'' @ dls))"
    using assms(4) by simp
  ultimately show ?case
    by (rule_tac x = False in exI, rule_tac x = f in exI, rule_tac x = "[]" in exI, rule_tac x = dls in exI)
      simp
qed (use assms in \<open>auto simp: only_db_def\<close>)

lemma give_up_wp:
  assumes "uuid_in ty (ev_ID ev) = Some (ev_ID ev)" "keys_changed S w w1"
  shows "wp P (bind (handleDeadLetter ev reason code) (\<lambda>_. Ret x)) (\<lambda>r w'. dispatch_effect ev w w') w1"
  unfolding wp_bind
  by (rule handleDeadLetter_wp [OF assms(1)])
    (auto intro: dispatch_effect_keys_before [OF assms(2)] dispatch_effect_given_up)

lemma locked_part_wp:
  assumes uuid: "uuid_in ty (ev_ID ev) = Some (ev_ID ev)" and bases: "bases_ok (w_db w)"
  shows "wp P (locked_part gl s ev) (\<lambda>r w'. dispatch_effect ev w w') w"
proof -
  let ?Q = "\<lambda>r w'. dispatch_effect ev w w'"
  let ?after = "\<lambda>r. case r of
      Inl err \<Rightarrow>
        if errors_is err ErrNotFound then bind (handleDeadLetter ev ''endpoint not found'' 0) (\<lambda>_. Ret None)
        else Ret (Some (Wrapf ''get endpoint: '' err ''''))
    | Inr ep \<Rightarrow>
        if \<not> ep_Active ep then bind (handleDeadLetter ev ''endpoint inactive'' 0) (\<lambda>_. Ret None)
        else deliver_event gl s ev ep"
  have after: "wp P (?after r) ?Q w2" if "keys_changed S w w2" for S w2 r
  proof -
    have "bases_ok (w_db w2)" using bases that by (simp add: keys_changed_def)
    then have "wp P (deliver_event gl s ev ep) ?Q w2" for ep
      using that by (auto intro: wp_mono [OF deliver_event_wp [OF uuid]] dispatch_effect_keys_before)
    moreover have "wp P (bind (handleDeadLetter ev reason 0) (\<lambda>_. Ret (None :: gerr option))) ?Q w2"
      for reason
      by (rule give_up_wp [OF uuid that])
    moreover have "dispatch_effect ev w w2"
      using dispatch_effect_keys_before [OF that dispatch_effect_refl] .
    ultimately show ?thesis by (simp del: wp_bind split: sum.split)
  qed
  have get: "wp P (bind (getEndpoint gl (ev_EndpointID ev)) ?after) ?Q w1"
    if "keys_changed S w w1" for S w1
  proof -
    have tr: "keys_changed (S \<union> T) w w2" if "keys_changed T w1 w2" for T w2
      using that \<open>keys_changed S w w1\<close> by (auto simp: keys_changed_def)
    show ?thesis
      unfolding wp_bind by (rule getEndpoint_wp) (rule after, erule tr)+
  qed
  show ?thesis
    unfolding locked_part_def
    by (subst wp_bind, rule CB_Allow_frame)
      (use get dispatch_effect_keys_before [OF _ dispatch_effect_refl] in \<open>auto simp del: wp_bind\<close>)
qed

lemma process_event_wp:
  assumes uuid: "uuid_in ty (ev_ID ev) = Some (ev_ID ev)" and bases: "bases_ok (w_db w)"
    and quiet: "Q None w"
    and Q: "\<And>r w'. \<not> resolved (ev_Status ev) \<Longrightarrow> dispatch_effect ev w w' \<Longrightarrow> Q r w'"
  shows "wp P (process_event gl s ev) Q w"
proof (cases "resolved (ev_Status ev)")
  case True
  then show ?thesis using quiet by (simp add: process_event_def resolved_def)
next
  case False
  then have open_status: "ev_Status ev \<noteq> EventStatusDelivered" "ev_Status ev \<noteq> EventStatusFailed"
    by (auto simp: resolved_def)
  have locked: "wp P (locked_part gl s ev) (\<lambda>a. wp P (lock_Release rid val) (\<lambda>_. Q a)) w1"
    if "keys_changed S w w1" for S rid val w1
  proof (rule wp_mono [OF locked_part_wp [OF uuid]])
    show "bases_ok (w_db w1)" using bases that by (simp add: keys_changed_def)
  next
    fix a w2
    assume "dispatch_effect ev w1 w2"
    then have "dispatch_effect ev w w2" by (rule dispatch_effect_keys_before [OF that])
    note after = dispatch_effect_keys_after [OF this]
    show "wp P (lock_Release rid val) (\<lambda>_. Q a) w2"
      by (rule lock_Release_wp) (rule Q [OF False], erule after)
  qed
  show ?thesis
    unfolding process_event_def if_not_P [OF iffD2 [OF de_Morgan_disj, OF conjI, OF open_status]] wp_bind
  proof (rule lock_Acquire_wp, goal_cases)
    case (1 val w1)
    then show ?case using locked [OF 1(3)] by simp
  next
    case (2 val w1)
    then show ?case using Q [OF False dispatch_effect_keys_before [OF 2 dispatch_effect_refl]] by simp
  qed
qed

lemma processMessage_wp:
  assumes bases: "bases_ok (w_db w)"
  shows "wp P (processMessage gl s msg) (\<lambda>r w'. handled gl ty msg w w') w"
proof (cases "gl_UnmarshalMessage gl (km_Value msg)")
  case (Inl err)
  then show ?thesis by (simp add: processMessage_def handled_def)
next
  case (Inr em)
  have quiet: "handled gl ty msg w (tick w)" by (simp add: handled_def keys_changed_tickI)
  show ?thesis
    unfolding processMessage_def Inr sum.case
  proof (subst wp_bind, rule EventRepo_GetByID_wp, goal_cases)
    case (1 u r)
    have "ev_ID (row_event r) = u" using 1 by (simp add: rows_with_def row_event_def)
    then have uuid: "uuid_in ty (ev_ID (row_event r)) = Some (ev_ID (row_event r))"
      using uuid_canonical [OF 1(1)] by simp
    have before: "dispatch_effect (row_event r) (tick w) w' \<Longrightarrow> dispatch_effect (row_event r) w w'" for w'
      by (rule dispatch_effect_keys_before [of "{}"]) (simp_all add: keys_changed_tickI)
    show ?case
      unfolding sum.case
      by (rule process_event_wp [OF uuid]) (use 1 Inr bases quiet before in \<open>auto simp: handled_def\<close>)
  qed (use quiet in auto)
qed

end

end
