(* ===== verification/Dispatch_Locking.thy ===== *)
theory Dispatch_Locking
  imports Dispatcher
begin

text \<open>
  Several dispatchers at once. Every worker that handles messages follows the protocol of the
  lock of the event: it sends a webhook of the event only between the grant and its own
  release. Mutual exclusion then follows from the laws of the Redis server, for every
  interleaving of the requests of any number of workers.
\<close>

subsection \<open>Programs that leave the lock alone\<close>

named_theorems neutral_progs

lemma neutral_pg [neutral_progs]:
  "neutral key g (pg_QueryRow q scan)"
  by (auto simp: pg_QueryRow_def split: sum.split list.split)

lemma neutral_event_repo [neutral_progs]:
  "neutral key g (EventRepo_GetByID eid)"
  "neutral key g (EventRepo_UpdateStatus eid st)"
  "neutral key g (EventRepo_UpdateForRetry eid st n at)"
  by (auto simp: EventRepo_GetByID_def EventRepo_UpdateStatus_def EventRepo_UpdateForRetry_def
      intro!: neutral_bind neutral_progs split: sum.split)

lemma neutral_other_repos [neutral_progs]:
  "neutral key g (EndpointRepo_GetByID eid)"
  "neutral key g (TenantRepo_GetByID tid)"
  "neutral key g (DeliveryAttemptRepo_Create a)"
  "neutral key g (DeadLetterEventRepo_Create d)"
  by (auto simp: EndpointRepo_GetByID_def TenantRepo_GetByID_def DeliveryAttemptRepo_Create_def
      DeadLetterEventRepo_Create_def intro!: neutral_bind neutral_progs split: sum.split)

lemma neutral_redis [neutral_progs]:
  "k \<noteq> key \<Longrightarrow> neutral key g (redis_Get k)"
  "k \<noteq> key \<Longrightarrow> neutral key g (redis_GetInt64 k)"
  "k \<noteq> key \<Longrightarrow> neutral key g (redis_Set k v t)"
  "k \<noteq> key \<Longrightarrow> neutral key g (redis_Incr k)"
  "\<forall>c \<in> set cs. rcmd_key c \<noteq> Some key \<Longrightarrow> neutral key g (pipe_Exec cs)"
  by (auto simp: redis_Get_def redis_GetInt64_def redis_Set_def redis_Incr_def pipe_Exec_def rcmd_key_def
      intro!: neutral_bind split: sum.split reply.split)

lemma lock_key_other [simp]:
  "cache_key eid \<noteq> lock_key rid" "cb_stateKey eid \<noteq> lock_key rid"
  "cb_failuresKey eid \<noteq> lock_key rid" "cb_lastFailureKey eid \<noteq> lock_key rid"
  by (simp_all add: cache_key_def lock_key_def cb_stateKey_def cb_failuresKey_def cb_lastFailureKey_def)

lemma neutral_cache [neutral_progs]:
  "neutral (lock_key rid) g (cache_Get gl eid)"
  "neutral (lock_key rid) g (cache_Set gl ep)"
  by (auto simp: cache_Get_def cache_Set_def intro!: neutral_bind neutral_progs split: sum.split)

lemma neutral_breaker [neutral_progs]:
  "neutral (lock_key rid) g (circuitBreakerService_Allow r eid)"
  "neutral (lock_key rid) g (circuitBreakerService_RecordSuccess r eid)"
  "neutral (lock_key rid) g (circuitBreakerService_RecordFailure r eid)"
  by (auto simp: circuitBreakerService_Allow_def circuitBreakerService_RecordSuccess_def
      circuitBreakerService_RecordFailure_def CB_Allow_def cb_probe_def CB_RecordSuccess_def
      CB_RecordFailure_def Let_def rcmd_key_def intro!: neutral_bind neutral_progs
      split: sum.split prod.split option.split)

lemma neutral_backoff [neutral_progs]: "neutral key g (NextRetryAt n base)"
  by (auto simp: NextRetryAt_def CalculateBackoff_def rand_Int63n_def intro!: neutral_bind)

lemma neutral_Deliver [neutral_progs]:
  "\<not> g (webhook_post url pl hs) \<Longrightarrow> neutral key g (Deliver gl url pl hs)"
  by (auto simp: Deliver_def split: option.split sum.split)

lemma neutral_dispatch_steps [neutral_progs]:
  "neutral key g (recordAttempt gl ev res)"
  "neutral key g (handleDeadLetter ev reason code)"
  "neutral key g (handleFailure ev res)"
  by (auto simp: recordAttempt_def handleDeadLetter_def handleFailure_def Let_def
      intro!: neutral_bind neutral_progs)

lemma neutral_getEndpoint [neutral_progs]: "neutral (lock_key rid) g (getEndpoint gl eid)"
  by (auto simp: getEndpoint_def Let_def intro!: neutral_bind neutral_progs split: sum.split option.split)

lemma neutral_locked_part [neutral_progs]:
  "(\<And>url. \<not> g (webhook_post url (ev_Payload ev) (webhook_headers ev))) \<Longrightarrow>
   neutral (lock_key rid) g (locked_part gl s ev)"
  by (auto simp: locked_part_def deliver_event_def intro!: neutral_bind neutral_progs
      split: sum.split option.split)

subsection \<open>The protocol of a worker\<close>

text \<open>A deferred call of a holder runs when the function returns and when it panics.\<close>

lemma holder_deferred:
  fixes m :: "'a prog"
  assumes "neutral key (\<lambda>r. False) m" "h \<noteq> None"
    and "\<And>x. disciplined key ttl g (bind f (\<lambda>b. Ret x :: 'a prog)) h"
    and "\<And>s. disciplined key ttl g (bind f (\<lambda>b. Panic s :: 'a prog)) h"
  shows "disciplined key ttl g (deferred f m) h"
  using assms(1) by (induction m) (auto simp: assms(2) simp del: not_None_eq intro: assms(3,4))

lemma neutral_deferred:
  "neutral key g m \<Longrightarrow> neutral key g f \<Longrightarrow> neutral key g (deferred f m)"
  by (induction m) (auto intro: neutral_bind)

text \<open>The webhooks of an event: the requests that carry its identifier.\<close>

definition webhook_of :: "string \<Rightarrow> http_request \<Rightarrow> bool" where
  "webhook_of eid r \<longleftrightarrow> map_of (rq_Headers r) ''X-Webhook-Id'' = Some eid"

lemma canonical_names:
  "CanonicalHeaderKey ''X-Webhook-ID'' = ''X-Webhook-Id''"
  "CanonicalHeaderKey ''X-Webhook-Signature'' = ''X-Webhook-Signature''"
  "CanonicalHeaderKey ''X-Webhook-Event'' = ''X-Webhook-Event''"
  "CanonicalHeaderKey ''X-Webhook-Attempt'' = ''X-Webhook-Attempt''"
  by code_simp+

lemma webhook_of_post [simp]: "webhook_of eid (webhook_post url pl (webhook_headers ev)) \<longleftrightarrow> ev_ID ev = eid"
  by (simp add: webhook_of_def webhook_post_def webhook_headers_def map_of_Header_Set canonical_names)

abbreviation event_lock :: "string \<Rightarrow> string" where
  "event_lock eid \<equiv> lock_key (dispatch_lock eid)"

lemma dispatch_lock_inj [simp]: "dispatch_lock a = dispatch_lock b \<longleftrightarrow> a = b"
  by (simp add: dispatch_lock_def)

lemma process_event_disciplined:
  "disciplined (event_lock eid) (expiry_ms dispatch_ttl) (webhook_of eid) (process_event gl s ev) None"
proof (cases "ev_ID ev = eid")
  case True
  have "disciplined (event_lock eid) (expiry_ms dispatch_ttl) (webhook_of eid)
      (deferred (lock_Release (dispatch_lock eid) v) (locked_part gl s ev)) (Some v)" for v
    by (rule holder_deferred) (auto intro!: neutral_locked_part lock_Release_disciplined)
  then show ?thesis
    unfolding process_event_def True by (auto intro!: lock_Acquire_disciplined)
next
  case False
  then have "neutral (event_lock eid) (webhook_of eid) (process_event gl s ev)"
    by (auto simp: process_event_def intro!: neutral_bind neutral_deferred lock_Acquire_neutral
        lock_Release_neutral neutral_locked_part)
  from neutral_disciplined [OF this, where f = Ret] show ?thesis by simp
qed

lemma processMessage_disciplined:
  "disciplined (event_lock eid) (expiry_ms dispatch_ttl) (webhook_of eid) (processMessage gl s msg) None"
  by (auto simp: processMessage_def intro!: neutral_disciplined [OF neutral_event_repo(1)]
      process_event_disciplined split: sum.split)

text \<open>
  The request a program is about to issue, when it is a webhook of the event.
\<close>

fun about_to_send :: "string \<Rightarrow> 'a prog \<Rightarrow> bool" where
  "about_to_send eid (HttpDo r k) \<longleftrightarrow> webhook_of eid r"
| "about_to_send eid _ \<longleftrightarrow> False"

lemma about_to_send_holding:
  "disciplined key ttl (webhook_of eid) (wk_prog p) (wk_held p) \<Longrightarrow> about_to_send eid (wk_prog p) \<Longrightarrow> holding p"
  by (cases "wk_prog p") (auto simp: holding_def)

end
