(* ===== verification/Samples.thy ===== *)
theory Samples
  imports Dispatch_Locking Event_Service
begin

text \<open>
  Worlds and scripts for concrete runs of the dispatcher and the scheduler: one tenant, one
  endpoint, one event, and an endpoint host that answers 200 or 500.
\<close>

definition tenant_row :: "string \<Rightarrow> row" where
  "tenant_row tid = (\<lambda>c. VNull)(''id'' := VText tid, ''name'' := VText ''acme'', ''api_key'' := VText ''k'',
     ''rate_limit_per_minute'' := VInt 100, ''max_retries'' := VInt 5, ''retry_base_ms'' := VInt 1000,
     ''created_at'' := VTime 0, ''updated_at'' := VTime 0)"

definition event_row :: "string \<Rightarrow> string \<Rightarrow> int \<Rightarrow> sqlval \<Rightarrow> row" where
  "event_row eid st attempts next_at = (\<lambda>c. VNull)(''id'' := VText eid, ''tenant_id'' := VText ''t'',
     ''endpoint_id'' := VText ''p'', ''event_type'' := VText ''order.paid'', ''payload'' := VText ''{}'',
     ''signature'' := VText ''t=1,v1=00'', ''status'' := VText st, ''attempt_count'' := VInt attempts,
     ''max_attempts'' := VInt 5, ''next_retry_at'' := next_at, ''created_at'' := VTime 0, ''updated_at'' := VTime 0)"

definition event_db :: "row list \<Rightarrow> database" where
  "event_db evs = (\<lambda>t. [])(''tenants'' := [tenant_row ''t''], ''endpoints'' := [endpoint_row ''p'' ''t''],
     ''events'' := evs)"

definition queued_world :: world where
  "queued_world = empty_world\<lparr>w_db := event_db [event_row ''e'' EventStatusQueued 0 VNull]\<rparr>"

definition event_msg :: "string \<Rightarrow> kmessage" where
  "event_msg eid = \<lparr>km_Topic = TopicEvents, km_Key = ''t'', km_Value = eid\<rparr>"

definition answering :: "int \<Rightarrow> script" where
  "answering code = quiet\<lparr>sc_http := \<lambda>n r. Inr \<lparr>rs_StatusCode = code, rs_Headers = [], rs_Body = ''ok''\<rparr>\<rparr>"

definition dispatcher :: DispatcherService where
  "dispatcher = NewDispatcherService (NewCircuitBreakerRepo 5 60000000000)"

text \<open>What the platform of these scripts answers.\<close>

lemma answering_time [simp]: "sim_time (answering c) n = 1700000000000000000"
  by (induction n) (simp_all add: answering_def quiet_def)

lemma answering_simps [simp]:
  "sc_fault (answering c) n = NoFault"
  "sc_http (answering c) n r = Inr \<lparr>rs_StatusCode = c, rs_Headers = [], rs_Body = ''ok''\<rparr>"
  "sc_uuid (answering c) n = n"
  by (simp_all add: answering_def quiet_def)

lemma answering_ms [simp]: "sim_ms (answering c) n = 1700000000000"
  by (simp add: sim_ms_def)

lemma answering_step [simp]:
  "ans_redis (sim (answering c)) cmd w =
     (case redis_apply 1700000000000 cmd (w_keys w) of (r, ks) \<Rightarrow> (r, tick (w\<lparr>w_keys := ks\<rparr>)))"
  "ans_http (sim (answering c)) rq w =
     (Inr \<lparr>rs_StatusCode = c, rs_Headers = [], rs_Body = ''ok''\<rparr>, tick (w\<lparr>w_sent := w_sent w @ [rq]\<rparr>))"
  by (simp_all add: ans_redis_def ans_http_def sim_def del: sim_time.simps)

lemma answering_pl [simp]:
  "pl_now (sim (answering c)) n = 1700000000000000000"
  "pl_uuid (sim (answering c)) n = show_nat n"
  by (simp_all add: sim_def del: sim_time.simps show_nat.simps)

end
