(* ===== verification/Api_Samples.thy ===== *)
theory Api_Samples
  imports Api_Server Samples
begin

text \<open>
  A server for concrete runs: a router that splits paths at their slashes, decoders that take
  the body as the identifier or the name, and requests that carry the key of the one tenant.
\<close>

definition sim_mount :: "string \<Rightarrow> string \<Rightarrow> (string \<times> string) option" where
  "sim_mount pattern path =
     (if pattern = ''/'' then Some ('''', path)
      else if pattern = ''/{id}'' then
        (let segment = takeWhile (\<lambda>c. c \<noteq> CHR ''/'') (tl path); rest = drop (Suc (length segment)) path
         in if segment = '''' then None else Some (segment, if rest = '''' then ''/'' else rest))
      else if HasPrefix path pattern then
        (let rest = drop (length pattern) path
         in if rest = '''' then Some ('''', ''/'') else if hd rest = CHR ''/'' then Some ('''', rest) else None)
      else None)"

definition sim_chi :: chi where
  "sim_chi = \<lparr>ch_Match = (=), ch_Mount = sim_mount,
     ch_NotFound = \<lparr>as_Status = 404, as_Headers = [], as_Body = NoBody\<rparr>,
     ch_MethodNotAllowed = \<lparr>as_Status = 405, as_Headers = [], as_Body = NoBody\<rparr>,
     ch_RealIP = ar_RemoteAddr\<rparr>"

definition sim_apilib :: apilib where
  "sim_apilib = \<lparr>al_lib = sim_lib,
     al_CreateEndpoint = (\<lambda>b. Inr \<lparr>cer_URL = b, cer_Description = '''', cer_EventTypes = None, cer_Active = None\<rparr>),
     al_UpdateEndpoint = (\<lambda>b. Inr \<lparr>uer_URL = Some b, uer_Description = None, uer_EventTypes = None, uer_Active = None\<rparr>),
     al_CreateEvent = (\<lambda>b. Inr \<lparr>cvr_EndpointID = b, cvr_EventType = ''order.paid'', cvr_Payload = ''{}''\<rparr>),
     al_CreateTenant = (\<lambda>b. Inr \<lparr>ctr_Name = b, ctr_RateLimitPerMinute = 0, ctr_MaxRetries = 0, ctr_RetryBaseMs = 0\<rparr>),
     al_UpdateTenant = (\<lambda>b. Inr \<lparr>utr_Name = Some b, utr_RateLimitPerMinute = None, utr_MaxRetries = None, utr_RetryBaseMs = None\<rparr>),
     al_Format = (\<lambda>t. ''2023-11-14T22:13:20Z'')\<rparr>"

definition sample_server :: Server where
  "sample_server = \<lparr>sv_chi = sim_chi, sv_lib = sim_apilib, sv_publisher = events_producer,
     sv_rateLimiter = NewRateLimiterRepo, sv_pool_Ping = Ret None, sv_redis_Ping = Ret None,
     sv_metrics = \<lparr>as_Status = 200, as_Headers = [], as_Body = NoBody\<rparr>\<rparr>"

definition sample_request :: "string \<Rightarrow> string \<Rightarrow> api_request" where
  "sample_request verb path = \<lparr>ar_Method = verb, ar_Path = path, ar_RemoteAddr = ''10.0.0.1'',
     ar_Header = (\<lambda>h. if h = ''X-API-Key'' then ''k'' else ''''), ar_Query = (\<lambda>q. ''''), ar_Body = ''p''\<rparr>"

lemmas sample_defs = sample_server_def sample_request_def sim_chi_def sim_mount_def sim_apilib_def
  queued_world_def event_db_def tenant_row_def endpoint_row_def event_row_def rows_with_def sim_types_def
  extractAPIKey_def HasPrefix_def Let_def

end
