(* ===== verification/Ownership.thy ===== *)
theory Ownership
  imports Endpoint_Service Tenant_Service Rate_Limiter
begin

text \<open>
  Who owns what. Every endpoint belongs to a tenant and every event to the tenant of its
  endpoint: \<open>owners_ok\<close>, an invariant of the tables that no column constraint expresses.
  Under it, what one tenant does never reaches the rows, the keys or the messages of another
  (\<open>confined\<close>).
\<close>

subsection \<open>Programs that only talk to Postgres\<close>

text \<open>
  Programs without a panic whose requests are queries, the clock and random sources, and, when
  the flag is set, statements that change tables.
\<close>

primrec pg_only :: "bool \<Rightarrow> 'a prog \<Rightarrow> bool" where
  "pg_only writes (Ret a) = True"
| "pg_only writes (Panic s) = False"
| "pg_only writes (Now k) = (\<forall>x. pg_only writes (k x))"
| "pg_only writes (NewUUID k) = (\<forall>x. pg_only writes (k x))"
| "pg_only writes (RandRead n k) = (\<forall>x. pg_only writes (k x))"
| "pg_only writes (Int63n n k) = (\<forall>x. pg_only writes (k x))"
| "pg_only writes (RedisDo c k) = False"
| "pg_only writes (RedisPipe cs k) = False"
| "pg_only writes (PgExec s k) = (writes \<and> (\<forall>x. pg_only writes (k x)))"
| "pg_only writes (PgQuery q k) = (\<forall>x. pg_only writes (k x))"
| "pg_only writes (KafkaWrite m k) = False"
| "pg_only writes (KafkaFetch k) = False"
| "pg_only writes (KafkaCommit m k) = False"
| "pg_only writes (Cancelled k) = (\<forall>x. pg_only writes (k x))"
| "pg_only writes (HttpDo r k) = False"

lemma pg_only_bind: "pg_only x m \<Longrightarrow> (\<And>a. pg_only x (f a)) \<Longrightarrow> pg_only x (bind m f)"
  by (induction m) auto

lemma pg_only_wp: "pg_only True m \<Longrightarrow> only_db v w \<Longrightarrow> wp P m (\<lambda>r w'. only_db v w') w"
proof (induction m arbitrary: w)
  case (PgExec s k)
  then show ?case by (auto simp: wp_PgExec split: prod.split)
qed (simp_all add: wp_PgQuery)

lemma pg_reads_wp: "pg_only False m \<Longrightarrow> keys_changed {} v w \<Longrightarrow> wp P m (\<lambda>r w'. keys_changed {} v w') w"
  by (induction m arbitrary: w) (simp_all add: wp_PgQuery keys_changed_tickI)

lemma wp_conj: "wp P m Q w \<Longrightarrow> wp P m R w \<Longrightarrow> wp P m (\<lambda>a w'. Q a w' \<and> R a w') w"
  by (auto simp: wp_def split: outcome.splits prod.splits)

lemma only_db_frame: "pg_only True m \<Longrightarrow> wp P m Q w \<Longrightarrow> wp P m (\<lambda>a w'. Q a w' \<and> only_db w w') w"
  by (rule wp_conj [OF _ pg_only_wp]) simp_all

lemma reads_frame: "pg_only False m \<Longrightarrow> wp P m Q w \<Longrightarrow> wp P m (\<lambda>a w'. Q a w' \<and> keys_changed {} w w') w"
  by (rule wp_conj [OF _ pg_reads_wp]) simp_all

lemma pg_only_reads [simp]:
  "pg_only x (EndpointRepo_GetByID eid)" "pg_only x (EndpointRepo_ListByTenantID tid l off)"
  "pg_only x (EndpointRepo_CountByTenantID tid)" "pg_only x (TenantRepo_GetByID tid)"
  "pg_only x (TenantRepo_GetByAPIKey key)" "pg_only x (EventRepo_GetByID vid)"
  "pg_only x (EventRepo_ListByTenantID tid l off)" "pg_only x (EventRepo_CountByTenantID tid)"
  by (auto simp: EndpointRepo_GetByID_def EndpointRepo_ListByTenantID_def EndpointRepo_CountByTenantID_def
      TenantRepo_GetByID_def TenantRepo_GetByAPIKey_def EventRepo_GetByID_def EventRepo_ListByTenantID_def
      EventRepo_CountByTenantID_def pg_QueryRow_def intro!: pg_only_bind split: sum.split)

lemma pg_only_writes [simp]:
  "pg_only True (EndpointRepo_Create ep)" "pg_only True (EndpointRepo_Update ep)"
  "pg_only True (EndpointRepo_Delete eid)" "pg_only True (TenantRepo_Create tn)" "pg_only True (TenantRepo_Update tn)"
  by (auto simp: EndpointRepo_Create_def EndpointRepo_Update_def EndpointRepo_Delete_def
      TenantRepo_Create_def TenantRepo_Update_def intro!: pg_only_bind split: sum.split)

lemma pg_only_service_reads [simp]:
  "pg_only x (endpointService_GetByID eid)" "pg_only x (endpointService_ListByTenantID tid l off)"
  "pg_only x (eventService_GetByID vid)" "pg_only x (eventService_ListByTenantID tid l off)"
  "pg_only x (tenantService_GetByID tid)" "pg_only x (tenantService_GetByAPIKey key)"
  by (auto simp: endpointService_GetByID_def endpointService_ListByTenantID_def eventService_GetByID_def
      eventService_ListByTenantID_def tenantService_GetByID_def tenantService_GetByAPIKey_def
      intro!: pg_only_bind split: sum.split)

lemma pg_only_service_writes [simp]:
  "pg_only True (endpointService_Create gl tid ci)" "pg_only True (endpointService_Update gl eid tid ui)"
  "pg_only True (endpointService_Delete eid tid)" "pg_only True (tenantService_Create cti)"
  "pg_only True (tenantService_Update tid uti)"
  by (auto simp: endpointService_Create_def endpointService_Update_def endpointService_Delete_def
      tenantService_Create_def tenantService_Update_def generateSecret_def generateAPIKey_def Let_def
      intro!: pg_only_bind split: sum.split option.split)

subsection \<open>The owner of an event is the owner of its endpoint\<close>

definition owners_ok :: "pgtypes \<Rightarrow> database \<Rightarrow> bool" where
  "owners_ok ty db \<longleftrightarrow>
     (\<forall>ep \<in> set (db ''endpoints''). \<exists>t. ep ''tenant_id'' = VText t \<and> uuid_in ty t = Some t)
     \<and> (\<forall>ep \<in> set (db ''endpoints''). \<forall>ep' \<in> set (db ''endpoints''). ep ''id'' = ep' ''id'' \<longrightarrow> ep = ep')
     \<and> (\<forall>ev \<in> set (db ''events''). \<exists>ep \<in> set (db ''endpoints'').
          ep ''id'' = ev ''endpoint_id'' \<and> ep ''tenant_id'' = ev ''tenant_id'')"

lemma owners_event:
  assumes "owners_ok ty db" "ev \<in> set (db ''events'')" "ep \<in> set (db ''endpoints'')"
    "ep ''id'' = ev ''endpoint_id''"
  shows "ev ''tenant_id'' = ep ''tenant_id''"
  using assms unfolding owners_ok_def by metis

lemma owners_same: "owners_ok ty db \<Longrightarrow> db' ''endpoints'' = db ''endpoints'' \<Longrightarrow> db' ''events'' = db ''events'' \<Longrightarrow>
    owners_ok ty db'"
  by (simp add: owners_ok_def)

text \<open>Changing rows in place keeps the invariant when the identifiers and the owners stay.\<close>

lemma owners_map:
  assumes "owners_ok ty db" "db' ''endpoints'' = map g (db ''endpoints'')" "db' ''events'' = map h (db ''events'')"
    and "\<And>r. g r ''id'' = r ''id'' \<and> g r ''tenant_id'' = r ''tenant_id''"
    and "\<And>r. h r ''endpoint_id'' = r ''endpoint_id'' \<and> h r ''tenant_id'' = r ''tenant_id''"
  shows "owners_ok ty db'"
  unfolding owners_ok_def
proof (intro conjI ballI impI)
  fix ep assume "ep \<in> set (db' ''endpoints'')"
  then obtain p where p: "p \<in> set (db ''endpoints'')" "ep = g p" using assms(2) by auto
  then show "\<exists>t. ep ''tenant_id'' = VText t \<and> uuid_in ty t = Some t"
    using assms(1,4) unfolding owners_ok_def by simp
  fix ep' assume "ep' \<in> set (db' ''endpoints'')" and id: "ep ''id'' = ep' ''id''"
  then obtain p' where "p' \<in> set (db ''endpoints'')" "ep' = g p'" using assms(2) by auto
  with p id assms(1,4) have "p = p'" unfolding owners_ok_def by auto
  with p \<open>ep' = g p'\<close> show "ep = ep'" by simp
next
  fix ev assume "ev \<in> set (db' ''events'')"
  then obtain q where q: "q \<in> set (db ''events'')" "ev = h q" using assms(3) by auto
  then obtain p where "p \<in> set (db ''endpoints'')" "p ''id'' = q ''endpoint_id''" "p ''tenant_id'' = q ''tenant_id''"
    using assms(1) unfolding owners_ok_def by blast
  then show "\<exists>ep \<in> set (db' ''endpoints''). ep ''id'' = ev ''endpoint_id'' \<and> ep ''tenant_id'' = ev ''tenant_id''"
    using q assms(2,4,5) by auto
qed

lemma owners_update_endpoint: "owners_ok ty db \<Longrightarrow> owners_ok ty (set_rows ''endpoints'' u (put_endpoint ep) db)"
  by (erule owners_map [where g = "\<lambda>r. if r ''id'' = VText u then put_endpoint ep r else r" and h = "\<lambda>r. r"])
    (auto simp: set_rows_def update_rows_def put_endpoint_def)

lemma owners_update_event:
  assumes "owners_ok ty db" "\<And>r. f r ''endpoint_id'' = r ''endpoint_id''" "\<And>r. f r ''tenant_id'' = r ''tenant_id''"
  shows "owners_ok ty (set_rows ''events'' u f db)"
  by (rule owners_map [OF assms(1), where g = "\<lambda>r. r" and h = "\<lambda>r. if r ''id'' = VText u then f r else r"])
    (use assms(2,3) in \<open>auto simp: set_rows_def update_rows_def\<close>)

lemma owners_delete_endpoint:
  assumes "owners_ok ty db"
  shows "owners_ok ty (delete_endpoint u db)"
proof -
  have kept: "\<exists>ep \<in> set (delete_endpoint u db ''endpoints''). ep ''id'' = ev ''endpoint_id'' \<and> ep ''tenant_id'' = ev ''tenant_id''"
    if ev: "ev \<in> set (delete_endpoint u db ''events'')" for ev
  proof -
    from ev have "ev \<in> set (db ''events'')" "ev ''endpoint_id'' \<noteq> VText u" by (simp_all add: delete_endpoint_def)
    moreover from this assms obtain ep where "ep \<in> set (db ''endpoints'')" "ep ''id'' = ev ''endpoint_id''"
      "ep ''tenant_id'' = ev ''tenant_id''" unfolding owners_ok_def by blast
    ultimately show ?thesis by (intro bexI [of _ ep]) (simp_all add: delete_endpoint_def)
  qed
  have sub: "set (delete_endpoint u db ''endpoints'') \<subseteq> set (db ''endpoints'')"
    by (auto simp: delete_endpoint_def)
  show ?thesis
    unfolding owners_ok_def by (intro conjI) (use assms sub kept in \<open>unfold owners_ok_def, blast+\<close>)
qed

context pg_server
begin

lemma owners_insert_endpoint:
  assumes "owners_ok ty db" "insert_row ty ''endpoints'' endpointColumns (endpoint_params ep) db = Inr r"
  shows "owners_ok ty (db(''endpoints'' := db ''endpoints'' @ [r]))"
proof -
  from insert_endpoint_row [OF assms(2)] obtain u t where r: "r ''id'' = VText u"
    "rows_with db ''endpoints'' ''id'' u = []" "r ''tenant_id'' = VText t" "uuid_in ty (ep_TenantID ep) = Some t" by blast
  have "uuid_in ty t = Some t" using uuid_canonical [OF r(4)] .
  moreover have "p ''id'' \<noteq> r ''id'' \<and> r ''id'' \<noteq> p ''id''" if "p \<in> set (db ''endpoints'')" for p
    using r that by (auto simp: rows_with_def filter_empty_conv)
  ultimately show ?thesis
    using assms(1) r(3) unfolding owners_ok_def by auto
qed

text \<open>An event is stored only for an endpoint of its tenant.\<close>

lemma owners_insert_event:
  assumes "owners_ok ty db" "insert_row ty ''events'' eventColumns (event_params ev) db = Inr r"
    and "may_send ty db tid input ep" "ev_TenantID ev = tid" "ev_EndpointID ev = ci_EndpointID input"
  shows "owners_ok ty (with_event r db)" "r ''tenant_id'' = VText tid"
proof -
  from assms(3) obtain u p where p: "uuid_in ty (ci_EndpointID input) = Some u"
    "p \<in> set (db ''endpoints'')" "p ''id'' = VText u" "ep = row_endpoint p" "ep_TenantID ep = tid"
    by (auto simp: may_send_def rows_with_def)
  from assms(1) p(2) obtain t where t: "p ''tenant_id'' = VText t" "uuid_in ty t = Some t"
    unfolding owners_ok_def by blast
  with p(4,5) have tid: "t = tid" by (simp add: row_endpoint_def)
  from insert_event_row [OF assms(2)] assms(4,5) p(1) t tid
  have r: "r ''tenant_id'' = VText tid" "r ''endpoint_id'' = VText u" by auto
  then show "r ''tenant_id'' = VText tid" by simp
  have "\<exists>ep \<in> set (db ''endpoints''). ep ''id'' = r ''endpoint_id'' \<and> ep ''tenant_id'' = r ''tenant_id''"
    using p(2,3) r t(1) tid by auto
  then show "owners_ok ty (with_event r db)"
    using assms(1) unfolding owners_ok_def with_event_def by auto
qed

end

end
