(* ===== verification/Scheduler.thy ===== *)
theory Scheduler
  imports Event_Repo Kafka_Producer
begin

text \<open>
  \<^verbatim>\<open>internal/service/scheduler.go\<close>: every five seconds the events whose retry is due are
  published again and marked queued. A tick of the loop waits for the ticker or for the
  cancellation of the context; which one comes is the environment's choice.
\<close>

record SchedulerService =
  ss_publisher :: Producer
  ss_interval :: int     \<comment> \<open>nanoseconds\<close>
  ss_batchSize :: int

definition NewSchedulerService :: "Producer \<Rightarrow> SchedulerService" where
  "NewSchedulerService publisher =
     \<lparr>ss_publisher = publisher, ss_interval = 5000000000, ss_batchSize = 100\<rparr>"

text \<open>The body of the loop over the batch.\<close>

definition republish :: "golib \<Rightarrow> SchedulerService \<Rightarrow> event \<Rightarrow> unit prog" where
  "republish gl s ev =
     bind (PublishEvent gl (ss_publisher s) (ev_ID ev) (ev_TenantID ev) (ev_EndpointID ev)
         (ev_EventType ev) (ev_Payload ev) (ev_Signature ev)) (\<lambda>pe. case pe of
       Some err \<Rightarrow> Ret ()
     | None \<Rightarrow> bind (EventRepo_UpdateStatus (ev_ID ev) EventStatusQueued) (\<lambda>err. Ret ()))"

definition processRetryableEvents :: "golib \<Rightarrow> SchedulerService \<Rightarrow> gerr option prog" where
  "processRetryableEvents gl s =
     bind (EventRepo_FindRetryable (ss_batchSize s)) (\<lambda>r. case r of
       Inl err \<Rightarrow> Ret (Some err)
     | Inr events \<Rightarrow>
         if events = [] then Ret None
         else bind (for_each events (republish gl s)) (\<lambda>_. Ret None))"

definition scheduler_tick :: "golib \<Rightarrow> SchedulerService \<Rightarrow> bool prog" where
  "scheduler_tick gl s =
     Cancelled (\<lambda>stop. if stop then Ret False
       else bind (processRetryableEvents gl s) (\<lambda>err. Ret True))"

text \<open>The loop, watched for a number of ticks; \<open>True\<close> when it has returned.\<close>

fun scheduler_Start :: "golib \<Rightarrow> SchedulerService \<Rightarrow> nat \<Rightarrow> bool prog" where
  "scheduler_Start gl s 0 = Ret False"
| "scheduler_Start gl s (Suc n) =
     bind (scheduler_tick gl s) (\<lambda>go. if go then scheduler_Start gl s n else Ret True)"

subsection \<open>What a batch can do\<close>

text \<open>A message that publishes the event, whatever the time it was made.\<close>

definition publishes :: "golib \<Rightarrow> Producer \<Rightarrow> event \<Rightarrow> kmessage \<Rightarrow> bool" where
  "publishes gl p ev m \<longleftrightarrow> (\<exists>t. published gl p (ev_ID ev) (ev_TenantID ev) (ev_EndpointID ev)
     (ev_EventType ev) (ev_Payload ev) (ev_Signature ev) t m)"

text \<open>
  Rows are left alone or marked queued; a row marked queued carries the identifier of an event
  of the batch that was published. At most one message per event is written, and nothing else.
\<close>

definition requeued_row :: "golib \<Rightarrow> Producer \<Rightarrow> event list \<Rightarrow> kmessage list \<Rightarrow> row \<Rightarrow> row \<Rightarrow> bool" where
  "requeued_row gl p evs ms r r' \<longleftrightarrow> r' = r
     \<or> (\<exists>now ev m. ev \<in> set evs \<and> r ''id'' = VText (ev_ID ev) \<and> r' = put_status EventStatusQueued now r
          \<and> m \<in> set ms \<and> publishes gl p ev m)"

definition requeued :: "golib \<Rightarrow> Producer \<Rightarrow> event list \<Rightarrow> world \<Rightarrow> world \<Rightarrow> bool" where
  "requeued gl p evs w w' \<longleftrightarrow> w_keys w' = w_keys w \<and> w_sent w' = w_sent w \<and> w_committed w' = w_committed w
     \<and> (\<exists>ms g. w_log w' = w_log w @ ms \<and> length ms \<le> length evs
          \<and> (\<forall>m \<in> set ms. \<exists>ev \<in> set evs. publishes gl p ev m)
          \<and> w_db w' = (w_db w)(''events'' := map g (w_db w ''events''))
          \<and> (\<forall>r. requeued_row gl p evs ms r (g r)))"

lemma requeuedI:
  assumes "w_keys w' = w_keys w" "w_sent w' = w_sent w" "w_committed w' = w_committed w"
    and "w_log w' = w_log w @ ms" "length ms \<le> length evs" "\<And>m. m \<in> set ms \<Longrightarrow> \<exists>ev \<in> set evs. publishes gl p ev m"
    and "w_db w' = (w_db w)(''events'' := map g (w_db w ''events''))" "\<And>r. requeued_row gl p evs ms r (g r)"
  shows "requeued gl p evs w w'"
  using assms by (auto simp: requeued_def)

lemma requeued_log:
  assumes "w_keys w' = w_keys w" "w_sent w' = w_sent w" "w_committed w' = w_committed w" "w_db w' = w_db w"
    and "w_log w' = w_log w @ ms" "length ms \<le> length evs" "\<And>m. m \<in> set ms \<Longrightarrow> \<exists>ev \<in> set evs. publishes gl p ev m"
  shows "requeued gl p evs w w'"
  using assms by (intro requeuedI [where ms = ms and g = "\<lambda>r. r"]) (auto simp: requeued_row_def)

lemma requeued_refl: "w_keys w' = w_keys w \<Longrightarrow> w_sent w' = w_sent w \<Longrightarrow> w_committed w' = w_committed w \<Longrightarrow>
    w_db w' = w_db w \<Longrightarrow> w_log w' = w_log w \<Longrightarrow> requeued gl p evs w w'"
  by (rule requeued_log [where ms = "[]"]) auto

text \<open>Marking a row queued keeps its identifier, and marking it again overwrites the mark.\<close>

lemma put_status_twice [simp]: "put_status a t (put_status b u r) = put_status a t r"
  by (auto simp: put_status_def)

lemma put_status_id [simp]: "put_status a t r ''id'' = r ''id''"
  by (simp add: put_status_def)

lemma requeued_row_trans:
  "requeued_row gl p evs ms r r' \<Longrightarrow> requeued_row gl p evs' ms' r' r'' \<Longrightarrow>
   requeued_row gl p (evs @ evs') (ms @ ms') r r''"
  unfolding requeued_row_def by (elim disjE exE conjE; simp) blast+

lemma requeued_trans:
  assumes "requeued gl p evs w w1" "requeued gl p evs' w1 w2"
  shows "requeued gl p (evs @ evs') w w2"
proof -
  from assms obtain ms g ms' g' where r:
    "w_log w1 = w_log w @ ms" "length ms \<le> length evs" "\<forall>m \<in> set ms. \<exists>ev \<in> set evs. publishes gl p ev m"
    "w_db w1 = (w_db w)(''events'' := map g (w_db w ''events''))" "\<forall>r. requeued_row gl p evs ms r (g r)"
    "w_log w2 = w_log w1 @ ms'" "length ms' \<le> length evs'" "\<forall>m \<in> set ms'. \<exists>ev \<in> set evs'. publishes gl p ev m"
    "w_db w2 = (w_db w1)(''events'' := map g' (w_db w1 ''events''))" "\<forall>r. requeued_row gl p evs' ms' r (g' r)"
    unfolding requeued_def by blast
  have keys: "w_keys w2 = w_keys w" "w_sent w2 = w_sent w" "w_committed w2 = w_committed w"
    using assms by (simp_all add: requeued_def)
  show ?thesis
    by (rule requeuedI [OF keys, where ms = "ms @ ms'" and g = "g' \<circ> g"])
      (use r in \<open>auto intro: requeued_row_trans\<close>)
qed

context backend
begin

lemma republish_wp:
  assumes "uuid_in ty (ev_ID ev) = Some (ev_ID ev)"
    and "\<And>w'. requeued gl (ss_publisher s) [ev] w w' \<Longrightarrow> Q () w'"
  shows "wp P (republish gl s ev) Q w"
  unfolding republish_def wp_bind
proof (rule PublishEvent_wp, goal_cases)
  case (1 m)
  then have m: "publishes gl (ss_publisher s) ev m" by (auto simp: publishes_def)
  let ?w = "tick (tick w\<lparr>w_log := w_log w @ [m]\<rparr>)"
  have queued: "requeued gl (ss_publisher s) [ev] w (tick (?w\<lparr>w_db := set_rows ''events'' (ev_ID ev)
      (put_status EventStatusQueued now) (w_db w)\<rparr>))" for now
    using m by (intro requeuedI [where ms = "[m]" and g = "\<lambda>r. if r ''id'' = VText (ev_ID ev)
        then put_status EventStatusQueued now r else r"])
      (auto simp: set_rows_def update_rows_def requeued_row_def)
  have logged: "requeued gl (ss_publisher s) [ev] w (tick (?w\<lparr>w_db := w_db w\<rparr>))" "requeued gl (ss_publisher s) [ev] w (tick ?w)"
    using m by (auto intro!: requeued_log [where ms = "[m]"])
  show ?case
    by simp (rule EventRepo_UpdateStatus_wp; use assms(1) in \<open>auto intro!: assms(2) queued logged\<close>)
next
  case (2 e)
  then show ?case by (auto intro!: assms(2) requeued_refl)
next
  case (3 e m l)
  then have "publishes gl (ss_publisher s) ev m" by (auto simp: publishes_def)
  with 3 show ?case
    by (auto intro!: assms(2) intro: requeued_refl requeued_log [where ms = "[m]"])
qed

lemma for_each_republish_wp:
  assumes "\<And>ev. ev \<in> set evs \<Longrightarrow> uuid_in ty (ev_ID ev) = Some (ev_ID ev)"
    and "\<And>w'. requeued gl (ss_publisher s) evs w w' \<Longrightarrow> Q () w'"
  shows "wp P (for_each evs (republish gl s)) Q w"
  using assms
proof (induction evs arbitrary: w)
  case Nil
  then show ?case by (auto intro: requeued_refl)
next
  case (Cons ev evs)
  show ?case
    unfolding for_each.simps wp_bind
  proof (rule republish_wp)
    fix w1
    assume w1: "requeued gl (ss_publisher s) [ev] w w1"
    show "wp P (for_each evs (republish gl s)) Q w1"
      by (rule Cons.IH) (use Cons.prems requeued_trans [OF w1] in auto)
  qed (use Cons.prems in auto)
qed

lemma processRetryableEvents_wp:
  assumes "0 \<le> ss_batchSize s"
    and "\<And>r. r \<in> set (w_db w ''events'') \<Longrightarrow> event_row_ok r \<Longrightarrow>
      uuid_in ty (ev_ID (row_event r)) = Some (ev_ID (row_event r))"
    and "\<And>evs w'. due_batch (pgnow (w_tick w)) (ss_batchSize s) (w_db w) evs \<Longrightarrow>
      requeued gl (ss_publisher s) evs w w' \<Longrightarrow> Q None w'"
    and "\<And>e. Q (Some e) (tick w)"
  shows "wp P (processRetryableEvents gl s) Q w"
  unfolding processRetryableEvents_def wp_bind
proof (rule EventRepo_FindRetryable_wp [OF assms(1)], goal_cases)
  case (1 evs)
  have ids: "uuid_in ty (ev_ID ev) = Some (ev_ID ev)" if "ev \<in> set evs" for ev
  proof -
    from 1 obtain rs where rs: "mset rs = mset (filter (due (pgnow (w_tick w))) (w_db w ''events''))"
      "list_all event_row_ok (take (nat (ss_batchSize s)) rs)" "evs = map row_event (take (nat (ss_batchSize s)) rs)"
      by (auto simp: due_batch_def)
    have "set rs \<subseteq> set (w_db w ''events'')" using mset_eq_setD [OF rs(1)] by auto
    with that rs(2,3) show ?thesis by (auto simp: list_all_iff intro!: assms(2) dest: in_set_takeD)
  qed
  have ticked: "requeued gl (ss_publisher s) evs (tick w) w' \<Longrightarrow> requeued gl (ss_publisher s) evs w w'" for w'
    by (simp add: requeued_def)
  show ?case
  proof (cases "evs = []")
    case True
    then show ?thesis using assms(3) [OF 1 requeued_refl] by simp
  next
    case False
    then show ?thesis
      by simp (rule for_each_republish_wp [OF ids]; use 1 assms(3) ticked in auto)
  qed
next
  case (2 e)
  show ?case by (simp add: assms(4))
qed

end

subsection \<open>The rows of a tick\<close>

text \<open>The identifiers of a table are distinct and in the canonical form, as its key demands.\<close>

definition keyed :: "pgtypes \<Rightarrow> row list \<Rightarrow> bool" where
  "keyed ty rs \<longleftrightarrow> distinct (map (\<lambda>r. r ''id'') rs)
     \<and> (\<forall>r \<in> set rs. \<exists>u. r ''id'' = VText u \<and> uuid_in ty u = Some u)"

lemma keyed_unique: "keyed ty rs \<Longrightarrow> r \<in> set rs \<Longrightarrow> r' \<in> set rs \<Longrightarrow> r ''id'' = r' ''id'' \<Longrightarrow> r = r'"
  by (auto simp: keyed_def dest: inj_onD [of "\<lambda>r. r ''id''"] simp: distinct_map)

text \<open>
  What a tick may do at the time its query is answered: at most a hundred events whose retry has
  been due for longest are published, at most once each; a row that has changed is that of an
  event of the batch that was published, and it is marked queued.
\<close>

definition due_requeued :: "golib \<Rightarrow> Producer \<Rightarrow> time \<Rightarrow> world \<Rightarrow> world \<Rightarrow> bool" where
  "due_requeued gl p now w w' \<longleftrightarrow> w_keys w' = w_keys w \<and> w_sent w' = w_sent w \<and> (\<exists>evs ms g.
      (due_batch now 100 (w_db w) evs \<or> evs = [])
      \<and> w_log w' = w_log w @ ms \<and> length ms \<le> length evs \<and> length evs \<le> 100
      \<and> w_db w' = (w_db w)(''events'' := map g (w_db w ''events''))
      \<and> (\<forall>r \<in> set (w_db w ''events''). g r = r
           \<or> due now r \<and> row_event r \<in> set evs \<and> (\<exists>t. g r = put_status EventStatusQueued t r)
             \<and> (\<exists>m \<in> set ms. publishes gl p (row_event r) m)))"

lemma due_batch_rows:
  assumes "due_batch now limit db evs" "ev \<in> set evs"
  obtains r where "r \<in> set (db ''events'')" "due now r" "ev = row_event r" "r ''id'' = VText (ev_ID ev)"
proof -
  from assms(1) obtain rs where rs: "mset rs = mset (filter (due now) (db ''events''))"
    "list_all event_row_ok (take (nat limit) rs)" "evs = map row_event (take (nat limit) rs)"
    by (auto simp: due_batch_def)
  from rs(3) assms(2) obtain r where r: "r \<in> set (take (nat limit) rs)" "ev = row_event r" by auto
  have "event_row_ok r" using rs(2) r(1) by (simp add: list_all_iff)
  then have "r ''id'' = VText (ev_ID ev)"
    using r(2) by (cases "r ''id''") (auto simp: event_row_ok_def row_event_def)
  moreover have "r \<in> set (filter (due now) (db ''events''))"
    using mset_eq_setD [OF rs(1)] in_set_takeD [OF r(1)] by simp
  ultimately show thesis using r(2) by (intro that [of r]) simp_all
qed

lemma requeued_due:
  assumes "due_batch now 100 (w_db w) evs" "requeued gl p evs w w'" "keyed ty (w_db w ''events'')"
  shows "due_requeued gl p now w w'"
proof -
  from assms(2) obtain ms g where g: "w_log w' = w_log w @ ms" "length ms \<le> length evs"
    "w_db w' = (w_db w)(''events'' := map g (w_db w ''events''))" "\<And>r. requeued_row gl p evs ms r (g r)"
    unfolding requeued_def by blast
  have "g r = r \<or> due now r \<and> row_event r \<in> set evs \<and> (\<exists>t. g r = put_status EventStatusQueued t r)
      \<and> (\<exists>m \<in> set ms. publishes gl p (row_event r) m)" if r: "r \<in> set (w_db w ''events'')" for r
    using g(4) [of r] unfolding requeued_row_def
  proof (elim disjE exE conjE)
    fix t ev m
    assume ev: "ev \<in> set evs" "r ''id'' = VText (ev_ID ev)" and m: "m \<in> set ms" "publishes gl p ev m"
      and gr: "g r = put_status EventStatusQueued t r"
    from due_batch_rows [OF assms(1) ev(1)] obtain r' where r': "r' \<in> set (w_db w ''events'')" "due now r'"
      "ev = row_event r'" "r' ''id'' = VText (ev_ID ev)" .
    with keyed_unique [OF assms(3) r r'(1)] ev(2) have "r = r'" by simp
    with r' ev m gr show ?thesis by auto
  qed simp
  moreover have "length evs \<le> 100" using assms(1) by (auto simp: due_batch_def)
  ultimately show ?thesis
    using assms(1,2) g(1-3) unfolding due_requeued_def requeued_def by blast
qed

lemma due_requeued_none: "due_requeued gl p now w (tick w)"
  unfolding due_requeued_def by (intro conjI exI [of _ "[]"] exI [of _ "\<lambda>r. r"]) auto

end
