(* ===== verification/Dispatcher_Properties.thy ===== *)
theory Dispatcher_Properties
  imports Samples
begin

text \<open>
  What the dispatcher promises: the effect of one message and of any number of rounds, at most
  one sender at a time, and the limits of these promises shown by runs.
\<close>

subsection \<open>One message\<close>

text \<open>
  C1: handling a message never panics. Whatever Postgres, Redis and the endpoint answer, it
  sends at most one request, which carries the payload, signature and attempt number stored for
  the event; it writes at most one attempt record and one dead letter; and of the event it
  changes nothing, or marks it delivered or schedules the next attempt after a delivery was
  tried and attempts are left, or marks it failed when none are left or none was possible.
\<close>

theorem process_message_effect:
  assumes "backend P rt ty pgnow" "bases_ok (w_db w)"
  shows "wp P (processMessage gl s msg) (\<lambda>r w'. handled gl ty msg w w') w"
  by (rule backend.processMessage_wp [OF assms])

theorem process_message_effect_witness:
  "wp (sim (answering 500)) (processMessage sim_lib dispatcher (event_msg ''e''))
     (\<lambda>r w'. handled sim_lib sim_types (event_msg ''e'') queued_world w') queued_world"
  by (rule process_message_effect [OF sim_backend.backend_axioms])
    (simp add: bases_ok_def queued_world_def event_db_def tenant_row_def)

text \<open>
  A message that names a delivered or failed event, or no event, has no effect at all: no
  request, no key, no row, no message changes. Redelivery of a message is harmless once the
  event is resolved.
\<close>

theorem resolved_event_untouched:
  assumes "backend P rt ty pgnow" "bases_ok (w_db w)" "gl_UnmarshalMessage gl (km_Value msg) = Inr em"
    and "\<And>u r. uuid_in ty (em_EventID em) = Some u \<Longrightarrow> r \<in> set (rows_with (w_db w) ''events'' ''id'' u) \<Longrightarrow>
      resolved (text_of (r ''status''))"
  shows "wp P (processMessage gl s msg) (\<lambda>r w'. keys_changed {} w w') w"
  by (rule wp_mono [OF backend.processMessage_wp [OF assms(1,2)]])
    (use assms(3,4) in \<open>auto simp: handled_def row_event_def\<close>)

theorem resolved_event_untouched_witness:
  "wp (sim (answering 200)) (processMessage sim_lib dispatcher (event_msg ''e''))
     (\<lambda>r w'. keys_changed {} (queued_world\<lparr>w_db := event_db [event_row ''e'' EventStatusFailed 4 VNull]\<rparr>) w')
     (queued_world\<lparr>w_db := event_db [event_row ''e'' EventStatusFailed 4 VNull]\<rparr>)"
  by (rule resolved_event_untouched [OF sim_backend.backend_axioms])
    (auto simp: bases_ok_def event_db_def tenant_row_def sim_lib_def rows_with_def event_row_def
      split: if_splits)

subsection \<open>The loop\<close>

text \<open>The rows of the events the platform makes: five attempts at most, fewer than five made.\<close>

definition attempts_ok :: "database \<Rightarrow> bool" where
  "attempts_ok db \<longleftrightarrow> (\<forall>r \<in> set (db ''events''). r ''max_attempts'' = VInt 5
     \<and> (\<exists>n. r ''attempt_count'' = VInt n \<and> 0 \<le> n \<and> n < 5))"

lemma attempts_ok_set_rows:
  assumes "attempts_ok db" "r \<in> set (rows_with db ''events'' ''id'' u)" "event_effect (row_event r) tried f"
  shows "attempts_ok (set_rows ''events'' v f (db(''delivery_attempts'' := x, ''dead_letter_events'' := y)))"
proof -
  have f: "g ''max_attempts'' = VInt 5 \<and> (\<exists>n. g ''attempt_count'' = VInt n \<and> 0 \<le> n \<and> n < 5) \<Longrightarrow>
      f g ''max_attempts'' = VInt 5 \<and> (\<exists>n. f g ''attempt_count'' = VInt n \<and> 0 \<le> n \<and> n < 5)" for g
    using assms unfolding event_effect_def
    by (auto simp: put_status_def put_retry_def row_event_def rows_with_def attempts_ok_def)
  show ?thesis
    using assms(1) f unfolding attempts_ok_def set_rows_def update_rows_def by auto
qed

lemma handled_cases:
  assumes "handled gl ty msg w w'"
    and "w_db w' = w_db w \<Longrightarrow> thesis"
    and "\<And>u r tried f x y. r \<in> set (rows_with (w_db w) ''events'' ''id'' u) \<Longrightarrow>
      event_effect (row_event r) tried f \<Longrightarrow> w_db w' = set_rows ''events'' (ev_ID (row_event r)) f
        ((w_db w)(''delivery_attempts'' := x, ''dead_letter_events'' := y)) \<Longrightarrow> thesis"
  shows thesis
  using assms(1) unfolding handled_def
proof
  assume "keys_changed {} w w'"
  then show thesis by (intro assms(2)) (simp add: keys_changed_def)
next
  assume "\<exists>em u r. gl_UnmarshalMessage gl (km_Value msg) = Inr em \<and> uuid_in ty (em_EventID em) = Some u
      \<and> r \<in> set (rows_with (w_db w) ''events'' ''id'' u) \<and> event_row_ok r
      \<and> \<not> resolved (ev_Status (row_event r)) \<and> dispatch_effect (row_event r) w w'"
  then obtain u r where r: "r \<in> set (rows_with (w_db w) ''events'' ''id'' u)"
    and "dispatch_effect (row_event r) w w'" by blast
  then obtain tried f x y where "event_effect (row_event r) tried f"
    "w_db w' = set_rows ''events'' (ev_ID (row_event r)) f
      ((w_db w)(''delivery_attempts'' := x, ''dead_letter_events'' := y))"
    unfolding dispatch_effect_def by blast
  with r show thesis by (rule assms(3))
qed

lemma handled_keeps:
  assumes "handled gl ty msg w w'"
  shows "attempts_ok (w_db w) \<Longrightarrow> attempts_ok (w_db w')" "bases_ok (w_db w') = bases_ok (w_db w)"
  by (rule handled_cases [OF assms]; simp add: attempts_ok_set_rows)
    (rule handled_cases [OF assms]; simp add: set_rows_def bases_ok_def)

text \<open>
  C21: the dispatcher never stops on its own and no event exceeds its attempts: from a database
  in which every event has made fewer than its five attempts, any number of rounds of the
  loop, over any messages and any answers, runs without a panic and keeps it so.
\<close>

theorem dispatcher_attempts_bounded:
  assumes "backend P rt ty pgnow" "bases_ok (w_db w)" "attempts_ok (w_db w)"
  shows "wp P (dispatcher_Start gl s rounds) (\<lambda>r w'. attempts_ok (w_db w') \<and> bases_ok (w_db w')) w"
  using assms(2,3)
proof (induction rounds arbitrary: w)
  case 0
  then show ?case by simp
next
  case (Suc n)
  have handle: "wp P (processMessage gl s msg) (\<lambda>r w'. attempts_ok (w_db w') \<and> bases_ok (w_db w')) w1"
    if "attempts_ok (w_db w1)" "bases_ok (w_db w1)" for msg w1
    by (rule wp_mono [OF backend.processMessage_wp [OF assms(1) that(2)]]) (use that handled_keeps in auto)
  show ?case
    using Suc by (auto simp: dispatch_round_def wp_KafkaCommit split: sum.split option.split
        intro!: wp_mono [OF handle])
qed

theorem dispatcher_attempts_bounded_witness:
  "wp (sim ((answering 500)\<lparr>sc_fetch := \<lambda>n. Inr (event_msg ''e'')\<rparr>)) (dispatcher_Start sim_lib dispatcher 7)
     (\<lambda>r w'. attempts_ok (w_db w') \<and> bases_ok (w_db w')) queued_world"
  by (rule dispatcher_attempts_bounded [OF sim_backend.backend_axioms])
    (simp_all add: bases_ok_def attempts_ok_def queued_world_def event_db_def tenant_row_def event_row_def)

subsection \<open>Several workers\<close>

text \<open>
  C8: at most one worker at a time delivers an event. Any number of workers each handle any
  message, their requests to Postgres, Redis and the endpoint interleaved in any order; within
  the five minutes of the lock after their start, whatever fails, no two of them are both about
  to send a webhook of the same event.
\<close>

theorem one_sender_at_a_time:
  assumes "redis_server P rt"
    and "reachable (event_lock eid) P
      (map (\<lambda>msg. \<lparr>wk_prog = processMessage gl s msg, wk_held = None\<rparr>) msgs, w) (qs, u)"
    and "rt (w_tick u) < rt (w_tick w) + 300000"
    and "i < length qs" "about_to_send eid (wk_prog (qs ! i))"
    and "j < length qs" "about_to_send eid (wk_prog (qs ! j))"
  shows "i = j"
proof -
  have "expiry_ms dispatch_ttl = 300000" by (simp add: expiry_ms_def dispatch_ttl_def)
  then have ttl: "0 < expiry_ms dispatch_ttl" "rt (w_tick u) < rt (w_tick w) + expiry_ms dispatch_ttl"
    using assms(3) by simp_all
  have clients: "lock_clients P rt (expiry_ms dispatch_ttl)"
    using assms(1) ttl(1) by (simp add: lock_clients_def lock_clients_axioms_def)
  have "exclusive qs \<and> (\<forall>q \<in> set qs. disciplined (event_lock eid) (expiry_ms dispatch_ttl)
      (webhook_of eid) (wk_prog q) (wk_held q))"
    by (rule lock_clients.mutual_exclusion [OF clients assms(2) _ ttl(2)])
      (auto intro: processMessage_disciplined)
  then show ?thesis
    using assms(4-7) about_to_send_holding nth_mem unfolding exclusive_def by metis
qed


definition two_workers :: "gerr option worker list \<times> world" where
  "two_workers = (map (\<lambda>msg. \<lparr>wk_prog = processMessage sim_lib dispatcher msg, wk_held = None\<rparr>)
     [event_msg ''e'', event_msg ''e''], queued_world)"

lemma first_about_to_send:
  "(case run_schedule (event_lock ''e'') (sim (answering 200)) (replicate 8 0) two_workers of
     (qs, u) \<Rightarrow> length qs = 2 \<and> about_to_send ''e'' (wk_prog (qs ! 0)))"
  by code_simp

theorem one_sender_at_a_time_witness:
  "(case run_schedule (event_lock ''e'') (sim (answering 200)) (replicate 8 0) two_workers of
     (qs, u) \<Rightarrow> filter (\<lambda>i. about_to_send ''e'' (wk_prog (qs ! i))) [0, 1] = [0])"
proof -
  obtain qs u where run: "run_schedule (event_lock ''e'') (sim (answering 200)) (replicate 8 0) two_workers = (qs, u)"
    by force
  have "reachable (event_lock ''e'') (sim (answering 200)) two_workers (qs, u)"
    unfolding run [symmetric] by (rule run_schedule_reachable) (rule reach_start)
  note one_sender_at_a_time [OF sim_redis.redis_server_axioms this [unfolded two_workers_def], of 1 0]
  with first_about_to_send show ?thesis by (auto simp: run)
qed

subsection \<open>Limits\<close>

text \<open>The row of the event as it is read, and the run of the two workers one after the other.\<close>

lemma second_reads_event:
  "step (sim (answering 200)) (processMessage sim_lib dispatcher (event_msg ''e'')) queued_world =
     (process_event sim_lib dispatcher (row_event (event_row ''e'' EventStatusQueued 0 VNull)), tick queued_world)"
proof -
  have read: "pl_query (sim (answering 200)) (w_tick queued_world) q (w_db queued_world) =
      Inr [map (event_row ''e'' EventStatusQueued 0 VNull) eventColumns]"
    if "q = Select eventColumns ''events'' (Eq ''id'' (VText ''e'')) None None" for q
    unfolding that by code_simp
  have "event_Scan (map (event_row ''e'' EventStatusQueued 0 VNull) eventColumns) =
      Inr (row_event (event_row ''e'' EventStatusQueued 0 VNull))"
    by (simp add: event_Scan_row event_row_ok_def event_row_def)
  with read show ?thesis
    by (simp add: processMessage_def EventRepo_GetByID_def pg_QueryRow_def EventRepo_scanEvent_def sim_lib_def event_msg_def)
qed

lemma first_delivers:
  "case run (sim (answering 200)) (processMessage sim_lib dispatcher (event_msg ''e'')) (tick queued_world) of
     (r, w) \<Rightarrow> r = Returns None \<and> w_keys w (event_lock ''e'') = None
       \<and> w_keys w (cb_stateKey ''p'') = Some (RStr CBClosed, None)
       \<and> w_keys w (cache_key ''p'') = Some (RStr ''1https://x.io/hook'', Some 1700000060000)
       \<and> map (webhook_of ''e'') (w_sent w) = [True]
       \<and> map (\<lambda>r. r ''status'') (w_db w ''events'') = [VText EventStatusDelivered]"
  by code_simp

lemma second_sends:
  assumes "w_keys w (event_lock ''e'') = None"
    and "w_keys w (cb_stateKey ''p'') = Some (RStr CBClosed, None)"
    and "w_keys w (cache_key ''p'') = Some (RStr ''1https://x.io/hook'', Some 1700000060000)"
  shows "\<exists>m w'. steps (sim (answering 200)) 6
      (process_event sim_lib dispatcher (row_event (event_row ''e'' EventStatusQueued 0 VNull))) w = (m, w')
    \<and> map (webhook_of ''e'') (w_sent w') = map (webhook_of ''e'') (w_sent w) @ [True] \<and> w_db w' = w_db w"
  using assms
  by (simp add: process_event_def row_event_def event_row_def lock_Acquire_def redis_SetNX_def numeral_eq_Suc
      locked_part_def circuitBreakerService_Allow_def CB_Allow_def redis_Get_def live_def getEndpoint_def
      Let_def cache_Get_def deliver_event_def Deliver_def sim_lib_def CBClosed_def del: show_nat.simps)

text \<open>
  C32: the lock does not make delivery exactly-once. The status of the event is read before the
  lock is taken and not again under it: there is an interleaving of two workers, without any
  failure, in which the second reads the event, the first delivers it, marks it delivered and
  returns, and the second then takes the free lock and sends the webhook again.
\<close>

theorem stale_status_delivers_twice:
  "\<exists>ps w. reachable (event_lock ''e'') (sim (answering 200)) two_workers (ps, w)
     \<and> returned (wk_prog (ps ! 0)) = Some None
     \<and> map (webhook_of ''e'') (w_sent w) = [True, True]
     \<and> map (\<lambda>r. r ''status'') (w_db w ''events'') = [VText EventStatusDelivered]"
proof -
  let ?P = "sim (answering 200)"
  let ?key = "event_lock ''e''"
  let ?m = "processMessage sim_lib dispatcher (event_msg ''e'')"
  let ?rest = "process_event sim_lib dispatcher (row_event (event_row ''e'' EventStatusQueued 0 VNull))"
  let ?start = "\<lparr>wk_prog = ?m, wk_held = None\<rparr>"
  have c0: "two_workers = ([?start, ?start], queued_world)" by (simp add: two_workers_def)
  obtain r after_first where "run ?P ?m (tick queued_world) = (r, after_first)" by force
  with first_delivers have first: "run ?P ?m (tick queued_world) = (Returns None, after_first)"
    and free: "w_keys after_first ?key = None" "w_keys after_first (cb_stateKey ''p'') = Some (RStr CBClosed, None)"
      "w_keys after_first (cache_key ''p'') = Some (RStr ''1https://x.io/hook'', Some 1700000060000)"
    and once: "map (webhook_of ''e'') (w_sent after_first) = [True]"
      "map (\<lambda>r. r ''status'') (w_db after_first ''events'') = [VText EventStatusDelivered]" by auto
  obtain m w where second: "steps ?P 6 ?rest after_first = (m, w)"
    and sent: "map (webhook_of ''e'') (w_sent w) = [True, True]" "w_db w = w_db after_first"
    using second_sends [OF free] once(1) by auto
  obtain h1 where "reachable ?key ?P two_workers
      ([?start, ?start][1 := \<lparr>wk_prog = ?rest, wk_held = h1\<rparr>], tick queued_world)"
    using reachable_step [of ?key ?P two_workers "[?start, ?start]" queued_world 1] reach_start [of ?key ?P two_workers]
      second_reads_event c0 by auto
  then obtain h0 where "reachable ?key ?P two_workers
      ([\<lparr>wk_prog = Ret None, wk_held = h0\<rparr>, \<lparr>wk_prog = ?rest, wk_held = h1\<rparr>], after_first)"
    using reachable_run [of ?key ?P two_workers _ "tick queued_world" 0 None after_first] first by fastforce
  then obtain h2 where "reachable ?key ?P two_workers
      ([\<lparr>wk_prog = Ret None, wk_held = h0\<rparr>, \<lparr>wk_prog = m, wk_held = h2\<rparr>], w)"
    using reachable_steps [of ?key ?P two_workers _ after_first 1 6 m w] second by fastforce
  then show ?thesis
    using sent once(2) by (intro exI conjI) (assumption, simp_all add: returned_def)
qed

text \<open>
  The cache is not invalidated when an endpoint changes: an event is delivered to the old
  URL of an endpoint that has been moved and switched off in the database.
\<close>

theorem stale_cache_delivers_to_inactive:
  "(case run (sim (answering 200)) (processMessage sim_lib dispatcher (event_msg ''e''))
       (queued_world\<lparr>w_keys := [cache_key ''p'' \<mapsto> (RStr ''1https://old.io'', Some 1700000060000)],
          w_db := (event_db [event_row ''e'' EventStatusQueued 0 VNull])(''endpoints'' :=
            [(endpoint_row ''p'' ''t'')(''active'' := VBool False)])\<rparr>) of
     (r, w) \<Rightarrow> r = Returns None \<and> map rq_URL (w_sent w) = [''https://old.io'']
       \<and> map (\<lambda>r. r ''status'') (w_db w ''events'') = [VText EventStatusDelivered])"
  by code_simp

end
