(* ===== verification/Integrity.thy ===== *)
theory Integrity
  imports Ownership Scheduler Dispatcher_Properties
begin

text \<open>
  The invariant of the database, \<open>db_ok\<close>: events belong to the tenants of their endpoints, API
  keys name one tenant, tenants keep their limits, events their attempts, and identifiers are
  canonical and distinct. Each way in which the program changes the tables keeps it.
\<close>

definition keys_ok :: "pgtypes \<Rightarrow> database \<Rightarrow> bool" where
  "keys_ok ty db \<longleftrightarrow> (\<forall>r \<in> set (db ''tenants''). \<exists>u. r ''id'' = VText u \<and> uuid_in ty u = Some u)
     \<and> (\<forall>r \<in> set (db ''tenants''). \<forall>q \<in> set (db ''tenants''). r ''api_key'' = q ''api_key'' \<longrightarrow> r ''id'' = q ''id'')"

text \<open>Every row has the types that the code scans it with.\<close>

definition rows_typed :: "database \<Rightarrow> bool" where
  "rows_typed db \<longleftrightarrow> list_all event_row_ok (db ''events'') \<and> list_all endpoint_row_ok (db ''endpoints'')"

text \<open>What holds of the tables one by one.\<close>

definition tables_ok :: "pgtypes \<Rightarrow> database \<Rightarrow> bool" where
  "tables_ok ty db \<longleftrightarrow> tenants_ok db \<and> keys_ok ty db \<and> attempts_ok db \<and> keyed ty (db ''events'') \<and> rows_typed db"

definition db_ok :: "pgtypes \<Rightarrow> database \<Rightarrow> bool" where
  "db_ok ty db \<longleftrightarrow> owners_ok ty db \<and> tables_ok ty db"

lemma db_ok_owners: "db_ok ty db \<Longrightarrow> owners_ok ty db"
  by (simp add: db_ok_def)

lemma db_ok_tables: "db_ok ty db \<Longrightarrow> tables_ok ty db"
  by (simp add: db_ok_def)

lemma db_ok_parts:
  "db_ok ty db \<Longrightarrow> tenants_ok db" "db_ok ty db \<Longrightarrow> keys_ok ty db" "db_ok ty db \<Longrightarrow> attempts_ok db"
  "db_ok ty db \<Longrightarrow> keyed ty (db ''events'')" "db_ok ty db \<Longrightarrow> rows_typed db"
  by (simp_all add: db_ok_def tables_ok_def)

lemma tenants_bases: "tenants_ok db \<Longrightarrow> bases_ok db"
  by (auto simp: tenants_ok_def bases_ok_def tenant_ok_def)

lemma tables_ok_endpoints:
  assumes "tables_ok ty db" "db' ''tenants'' = db ''tenants''" "db' ''events'' = db ''events''"
    and "list_all endpoint_row_ok (db' ''endpoints'')"
  shows "tables_ok ty db'"
  using assms by (simp add: tables_ok_def tenants_ok_def keys_ok_def attempts_ok_def rows_typed_def)

lemma tables_ok_update_endpoint:
  assumes "tables_ok ty db"
  shows "tables_ok ty (set_rows ''endpoints'' u (put_endpoint ep) db)"
proof -
  have "endpoint_row_ok r \<Longrightarrow> endpoint_row_ok (put_endpoint ep r)" for r
    by (simp add: endpoint_row_ok_def put_endpoint_def opt_texts_def split: option.split)
  then have "list_all endpoint_row_ok (set_rows ''endpoints'' u (put_endpoint ep) db ''endpoints'')"
    using assms by (auto simp: tables_ok_def rows_typed_def set_rows_def update_rows_def list_all_iff)
  then show ?thesis by (intro tables_ok_endpoints [OF assms]) (simp_all add: set_rows_def)
qed

lemma keys_ok_map:
  assumes "keys_ok ty db" "\<And>r. g r ''id'' = r ''id''" "\<And>r. g r ''api_key'' = r ''api_key''"
    and "db' ''tenants'' = map g (db ''tenants'')"
  shows "keys_ok ty db'"
  using assms(1) by (simp add: keys_ok_def assms(2-4))

lemma tables_ok_update_tenant:
  assumes "tables_ok ty db" "tenant_refusal tn = None" "tenant_ok tn"
  shows "tables_ok ty (set_rows ''tenants'' u (put_tenant tn) db)"
proof -
  have "keys_ok ty (set_rows ''tenants'' u (put_tenant tn) db)"
    by (rule keys_ok_map [where db = db and g = "\<lambda>r. if r ''id'' = VText u then put_tenant tn r else r"])
      (use assms(1) in \<open>simp_all add: tables_ok_def set_rows_def update_rows_def put_tenant_def\<close>)
  then show ?thesis
    using assms tenants_ok_update [OF _ assms(2,3)]
    by (simp add: tables_ok_def attempts_ok_def rows_typed_def set_rows_def)
qed

lemma tables_ok_delete_endpoint:
  assumes "tables_ok ty db"
  shows "tables_ok ty (delete_endpoint u db)"
proof -
  have "keyed ty (filter p rs)" if "keyed ty rs" for p rs
    using that by (auto simp: keyed_def distinct_map inj_on_def)
  then show ?thesis
    using assms
    by (simp add: tables_ok_def tenants_ok_def keys_ok_def attempts_ok_def delete_endpoint_def
        rows_typed_def list_all_iff)
qed

lemma db_ok_update_endpoint: "db_ok ty db \<Longrightarrow> db_ok ty (set_rows ''endpoints'' u (put_endpoint ep) db)"
  by (simp add: db_ok_def tables_ok_update_endpoint owners_update_endpoint)

lemma db_ok_delete_endpoint: "db_ok ty db \<Longrightarrow> db_ok ty (delete_endpoint u db)"
  by (simp add: db_ok_def tables_ok_delete_endpoint owners_delete_endpoint)

text \<open>Marks on events: statuses and attempts change, identifiers do not.\<close>

definition keeps_ids :: "(row \<Rightarrow> row) \<Rightarrow> bool" where
  "keeps_ids h \<longleftrightarrow> (\<forall>r. \<forall>c \<in> {''id'', ''tenant_id'', ''endpoint_id''}. h r c = r c)"

definition keeps_attempts :: "(row \<Rightarrow> row) \<Rightarrow> bool" where
  "keeps_attempts h \<longleftrightarrow> (\<forall>r. \<forall>c \<in> {''max_attempts'', ''attempt_count''}. h r c = r c)"

lemma keyed_map: "keyed ty rs \<Longrightarrow> keeps_ids h \<Longrightarrow> keyed ty (map h rs)"
  by (simp add: keyed_def keeps_ids_def comp_def)

lemma tables_ok_mark_events:
  assumes "tables_ok ty db" "keeps_ids h" "attempts_ok db'" "\<And>r. event_row_ok r \<Longrightarrow> event_row_ok (h r)"
    and "db' ''tenants'' = db ''tenants''" "db' ''endpoints'' = db ''endpoints''" "db' ''events'' = map h (db ''events'')"
  shows "tables_ok ty db'"
  using assms keyed_map by (simp add: tables_ok_def tenants_ok_def keys_ok_def rows_typed_def list_all_iff)

lemma db_ok_mark_events:
  assumes "db_ok ty db" "keeps_ids h" "attempts_ok db'" "\<And>r. event_row_ok r \<Longrightarrow> event_row_ok (h r)"
    and "db' ''tenants'' = db ''tenants''" "db' ''endpoints'' = db ''endpoints''" "db' ''events'' = map h (db ''events'')"
  shows "db_ok ty db'"
proof -
  have "owners_ok ty db'"
    by (rule owners_map [where g = "\<lambda>r. r" and h = h]) (use assms in \<open>auto simp: db_ok_def keeps_ids_def\<close>)
  then show ?thesis using tables_ok_mark_events [OF db_ok_tables [OF assms(1)] assms(2-)] by (simp add: db_ok_def)
qed

lemma put_typed [simp]:
  "event_row_ok r \<Longrightarrow> event_row_ok (put_status st now r)"
  "event_row_ok r \<Longrightarrow> event_row_ok (put_retry st n at now r)"
  by (auto simp: event_row_ok_def put_status_def put_retry_def split: option.split)

lemma attempts_ok_map: "attempts_ok db \<Longrightarrow> keeps_attempts h \<Longrightarrow> db' ''events'' = map h (db ''events'') \<Longrightarrow> attempts_ok db'"
  by (simp add: attempts_ok_def keeps_attempts_def)

lemma tables_ok_set_rows:
  assumes "tables_ok ty db" "keeps_ids f" "\<And>r. event_row_ok r \<Longrightarrow> event_row_ok (f r)"
    and "attempts_ok (set_rows ''events'' u f db)"
  shows "tables_ok ty (set_rows ''events'' u f db)"
  by (rule tables_ok_mark_events [OF assms(1), where h = "\<lambda>r. if r ''id'' = VText u then f r else r"])
    (use assms in \<open>auto simp: set_rows_def update_rows_def keeps_ids_def\<close>)

lemma tables_ok_set_status:
  assumes "tables_ok ty db"
  shows "tables_ok ty (set_rows ''events'' u (put_status st now) db)"
proof (rule tables_ok_set_rows [OF assms])
  show "attempts_ok (set_rows ''events'' u (put_status st now) db)"
    using assms by (auto simp: tables_ok_def attempts_ok_def set_rows_def update_rows_def put_status_def)
qed (simp_all add: keeps_ids_def put_status_def [abs_def] event_row_ok_def)

lemma tables_ok_set_retry:
  assumes "tables_ok ty db" "0 \<le> n" "n < 5"
  shows "tables_ok ty (set_rows ''events'' u (put_retry st n at now) db)"
proof (rule tables_ok_set_rows [OF assms(1)])
  show "attempts_ok (set_rows ''events'' u (put_retry st n at now) db)"
    using assms by (auto simp: tables_ok_def attempts_ok_def set_rows_def update_rows_def put_retry_def)
qed (simp_all add: keeps_ids_def put_retry_def [abs_def] event_row_ok_def)

lemma db_ok_set_status: "db_ok ty db \<Longrightarrow> db_ok ty (set_rows ''events'' u (put_status st now) db)"
  using owners_update_event [of ty db "put_status st now" u]
  by (simp add: db_ok_def tables_ok_set_status put_status_def)

context pg_server
begin

lemma tables_ok_insert_endpoint:
  assumes "tables_ok ty db" "insert_row ty ''endpoints'' endpointColumns (endpoint_params ep) db = Inr r"
  shows "tables_ok ty (db(''endpoints'' := db ''endpoints'' @ [r]))"
  using insert_endpoint_row [OF assms(2)] assms(1)
  by (intro tables_ok_endpoints [OF assms(1)]) (simp_all add: tables_ok_def rows_typed_def)

lemma db_ok_insert_endpoint:
  assumes "db_ok ty db" "insert_row ty ''endpoints'' endpointColumns (endpoint_params ep) db = Inr r"
  shows "db_ok ty (db(''endpoints'' := db ''endpoints'' @ [r]))"
  using assms owners_insert_endpoint tables_ok_insert_endpoint by (simp add: db_ok_def)

lemma tables_ok_insert_event:
  assumes "tables_ok ty db" "insert_row ty ''events'' eventColumns (event_params ev) db = Inr r"
    and "ev_MaxAttempts ev = 5" "ev_AttemptCount ev = 0"
  shows "tables_ok ty (with_event r db)"
proof -
  from insert_event_row [OF assms(2)] obtain u where r: "event_row_ok r" "row_event r = stored_event ty ev"
    "r ''id'' = VText u" "uuid_in ty u = Some u" "rows_with db ''events'' ''id'' u = []"
    using uuid_canonical by auto
  have "ev_MaxAttempts (row_event r) = 5" "ev_AttemptCount (row_event r) = 0"
    unfolding r(2) using assms(3,4) by (simp_all add: stored_event_def)
  then have "r ''max_attempts'' = VInt 5 \<and> r ''attempt_count'' = VInt 0"
    using r(1) by (cases "r ''max_attempts''"; cases "r ''attempt_count''") (auto simp: event_row_ok_def row_event_def)
  moreover have "r ''id'' \<notin> (\<lambda>q. q ''id'') ` set (db ''events'')"
    using r(3,5) by (auto simp: rows_with_def filter_empty_conv)
  ultimately show ?thesis
    using assms(1) r(1,3,4)
    by (auto simp: rows_typed_def tables_ok_def with_event_def tenants_ok_def keys_ok_def attempts_ok_def keyed_def)
qed

lemma db_ok_insert_event:
  assumes "db_ok ty db" "insert_row ty ''events'' eventColumns (event_params ev) db = Inr r"
    and "may_send ty db tid input ep" "ev = new_event tid input sg now uuid"
  shows "db_ok ty (with_event r db)"
proof -
  have "owners_ok ty (with_event r db)"
    by (rule owners_insert_event(1) [OF db_ok_owners [OF assms(1)] assms(2,3)]) (simp_all add: assms(4) new_event_def)
  moreover have "tables_ok ty (with_event r db)"
    by (rule tables_ok_insert_event [OF db_ok_tables [OF assms(1)] assms(2)]) (simp_all add: assms(4) new_event_def)
  ultimately show ?thesis by (simp add: db_ok_def)
qed

lemma tables_ok_insert_tenant:
  assumes "tables_ok ty db" "insert_row ty ''tenants'' tenantColumns (tenant_params tn) db = Inr r" "tenant_ok tn"
  shows "tables_ok ty (db(''tenants'' := db ''tenants'' @ [r]))"
proof -
  from insert_tenant_row [OF assms(2)] obtain u where r: "r ''id'' = VText u" "uuid_in ty u = Some u"
    "r ''api_key'' = VText (tn_APIKey tn)" "rows_with db ''tenants'' ''api_key'' (tn_APIKey tn) = []"
    using uuid_canonical by auto
  have "q ''api_key'' \<noteq> r ''api_key'' \<and> r ''api_key'' \<noteq> q ''api_key''" if "q \<in> set (db ''tenants'')" for q
    using r(3,4) that by (auto simp: rows_with_def filter_empty_conv)
  then show ?thesis
    using assms(1) tenants_ok_insert [OF _ assms(2,3)] r(1,2)
    by (auto simp: tables_ok_def keys_ok_def attempts_ok_def rows_typed_def)
qed

lemma db_ok_insert_tenant:
  assumes "db_ok ty db" "insert_row ty ''tenants'' tenantColumns (tenant_params tn) db = Inr r" "tenant_ok tn"
  shows "db_ok ty (db(''tenants'' := db ''tenants'' @ [r]))"
  using assms tables_ok_insert_tenant owners_same [of ty db] by (simp add: db_ok_def)

end

end
