(* ===== verification/Life_Cycle.thy ===== *)
theory Life_Cycle
  imports Integrity
begin

text \<open>
  The life of an event, as a specification of its own: the phases an event goes through (its
  status and the attempts made), the steps between them, and the relation \<open>evolves\<close> between two
  databases in which every event has moved along these steps, kept its content, or is new and
  signed. The services and the workers are shown to refine it (theories \<open>Confinement\<close> and
  \<open>System\<close>).
\<close>

subsection \<open>Phases\<close>

type_synonym phase = "string \<times> int"

inductive phase_step :: "phase \<Rightarrow> phase \<Rightarrow> bool" where
  step_published: "phase_step (EventStatusPending, n) (EventStatusQueued, n)"
| step_delivered: "\<not> resolved s \<Longrightarrow> phase_step (s, n) (EventStatusDelivered, n)"
| step_postponed: "\<not> resolved s \<Longrightarrow> n + 1 < 5 \<Longrightarrow> phase_step (s, n) (EventStatusRetrying, n + 1)"
| step_given_up: "\<not> resolved s \<Longrightarrow> phase_step (s, n) (EventStatusFailed, n)"
| step_requeued: "phase_step (EventStatusRetrying, n) (EventStatusQueued, n)"

inductive_cases phase_stepE: "phase_step p q"

text \<open>How many steps are left to an event.\<close>

definition life_left :: "phase \<Rightarrow> nat" where
  "life_left p = (case p of (s, n) \<Rightarrow>
     if resolved s then 0
     else 2 * nat (4 - n) + (if s = EventStatusPending \<or> s = EventStatusRetrying then 2 else 1))"

lemma open_constants [simp]:
  "\<not> resolved EventStatusPending" "\<not> resolved EventStatusQueued" "\<not> resolved EventStatusRetrying"
  "resolved EventStatusDelivered" "resolved EventStatusFailed"
  "EventStatusQueued \<noteq> EventStatusPending" "EventStatusQueued \<noteq> EventStatusRetrying"
  by (simp_all add: resolved_def status_defs)

lemma phase_step_left: "phase_step p q \<Longrightarrow> life_left q < life_left p"
  by (induction rule: phase_step.induct) (auto simp: life_left_def)

lemma phase_steps_left: "phase_step\<^sup>*\<^sup>* p q \<Longrightarrow> life_left q \<le> life_left p \<and> (q \<noteq> p \<longrightarrow> life_left q < life_left p)"
  by (induction rule: rtranclp_induct) (auto dest: phase_step_left)

lemma phase_step_open: "phase_step p q \<Longrightarrow> \<not> resolved (fst p)"
  by (induction rule: phase_step.induct) auto

lemma phase_steps_resolved: "phase_step\<^sup>*\<^sup>* p q \<Longrightarrow> resolved (fst p) \<Longrightarrow> q = p"
  by (erule converse_rtranclpE) (auto dest: phase_step_open)

lemma phase_steps_attempts: "phase_step\<^sup>*\<^sup>* p q \<Longrightarrow> snd p \<le> snd q"
  by (induction rule: rtranclp_induct) (auto elim: phase_stepE)

text \<open>No event takes more than ten steps.\<close>

lemma phase_steps_bound: "(phase_step ^^ k) (EventStatusPending, 0) q \<Longrightarrow> k \<le> 10"
proof -
  have "(phase_step ^^ k) p q \<Longrightarrow> k + life_left q \<le> life_left p" for p q
  proof (induction k arbitrary: q)
    case (Suc k)
    then obtain r where "(phase_step ^^ k) p r" "phase_step r q" by auto
    with Suc.IH [of r] phase_step_left [of r q] show ?case by simp
  qed simp
  then show "(phase_step ^^ k) (EventStatusPending, 0) q \<Longrightarrow> k \<le> 10"
    by (fastforce simp: life_left_def)
qed

subsection \<open>Databases\<close>

text \<open>The events of a database, by identifier.\<close>

definition events_of :: "database \<Rightarrow> string \<Rightarrow> event option" where
  "events_of db u = (case rows_with db ''events'' ''id'' u of [] \<Rightarrow> None | r # rs \<Rightarrow> Some (row_event r))"

definition phase_of :: "event \<Rightarrow> phase" where
  "phase_of ev = (ev_Status ev, ev_AttemptCount ev)"

text \<open>What is decided when an event is accepted.\<close>

definition content :: "event \<Rightarrow> string \<times> string \<times> string \<times> string \<times> string" where
  "content ev = (ev_TenantID ev, ev_EndpointID ev, ev_EventType ev, ev_Payload ev, ev_Signature ev)"

text \<open>
  Where events come from: the inputs that were given to the service, and the times at which it
  may have signed them. An event carries the signature, under this secret, of the payload of
  such an input for its endpoint and its type, and the database holds the JSONB form of it.
\<close>

type_synonym origin = "CreateEventInput \<Rightarrow> time \<Rightarrow> bool"

definition signed_with :: "pgtypes \<Rightarrow> origin \<Rightarrow> string \<Rightarrow> event \<Rightarrow> bool" where
  "signed_with ty src secret ev \<longleftrightarrow> (\<exists>input t. src input t
     \<and> uuid_in ty (ci_EndpointID input) = Some (ev_EndpointID ev)
     \<and> ci_EventType input = ev_EventType ev \<and> jsonb_in ty (ci_Payload input) = Some (ev_Payload ev)
     \<and> ev_Signature ev = Signature_String (Sign (ci_Payload input) secret (unix_seconds t)))"

definition signed_for :: "pgtypes \<Rightarrow> origin \<Rightarrow> database \<Rightarrow> event \<Rightarrow> bool" where
  "signed_for ty src db ev \<longleftrightarrow> (\<exists>q \<in> set (db ''endpoints''). q ''id'' = VText (ev_EndpointID ev)
     \<and> signed_with ty src (text_of (q ''secret'')) ev)"

definition grows_to :: "pgtypes \<Rightarrow> origin \<Rightarrow> database \<Rightarrow> event option \<Rightarrow> event option \<Rightarrow> bool" where
  "grows_to ty src db before after \<longleftrightarrow> (case (before, after) of
     (Some ev, Some ev') \<Rightarrow> content ev' = content ev \<and> phase_step\<^sup>*\<^sup>* (phase_of ev) (phase_of ev')
   | (None, Some ev') \<Rightarrow> signed_for ty src db ev' \<and> phase_step\<^sup>*\<^sup>* (EventStatusPending, 0) (phase_of ev')
   | _ \<Rightarrow> True)"

text \<open>An endpoint keeps its secret; a new one has an identifier of its own.\<close>

definition secrets_kept :: "database \<Rightarrow> database \<Rightarrow> bool" where
  "secrets_kept db db' \<longleftrightarrow> (\<forall>q' \<in> set (db' ''endpoints'').
     (\<exists>q \<in> set (db ''endpoints''). q ''id'' = q' ''id'' \<and> q ''secret'' = q' ''secret'')
     \<or> (\<forall>q \<in> set (db ''endpoints''). q ''id'' \<noteq> q' ''id''))"

definition evolves :: "pgtypes \<Rightarrow> origin \<Rightarrow> database \<Rightarrow> database \<Rightarrow> bool" where
  "evolves ty src db db' \<longleftrightarrow>
     (\<forall>u. grows_to ty src db (events_of db u) (events_of db' u)) \<and> secrets_kept db db'"

lemma grows_to_same [simp]: "grows_to ty src db before before" "grows_to ty src db before None"
  by (simp_all add: grows_to_def split: option.split)

lemma secrets_kept_same: "db' ''endpoints'' = db ''endpoints'' \<Longrightarrow> secrets_kept db db'"
  by (auto simp: secrets_kept_def)

lemma evolves_same:
  "db' ''events'' = db ''events'' \<Longrightarrow> secrets_kept db db' \<Longrightarrow> evolves ty src db db'"
  by (simp add: evolves_def events_of_def rows_with_def)

lemma evolves_refl [simp]: "evolves ty src db db"
  by (rule evolves_same) (simp_all add: secrets_kept_same)

text \<open>With distinct identifiers the rows and the map are the same.\<close>

lemma events_of_row:
  assumes "keyed ty (db ''events'')" "r \<in> set (db ''events'')" "r ''id'' = VText u"
  shows "events_of db u = Some (row_event r)"
proof -
  obtain q qs where q: "rows_with db ''events'' ''id'' u = q # qs"
    using assms(2,3) by (cases "rows_with db ''events'' ''id'' u") (auto simp: rows_with_def filter_empty_conv)
  then have "q \<in> set (rows_with db ''events'' ''id'' u)" by simp
  then have "q = r" using keyed_unique [OF assms(1) _ assms(2), of q] assms(3) by (simp add: rows_with_def)
  with q show ?thesis by (simp add: events_of_def)
qed

lemma events_of_some:
  assumes "events_of db u = Some ev"
  obtains r where "r \<in> set (db ''events'')" "r ''id'' = VText u" "ev = row_event r"
proof -
  from assms obtain r rs where r: "rows_with db ''events'' ''id'' u = r # rs" "ev = row_event r"
    by (auto simp: events_of_def split: list.splits)
  then have "r \<in> set (rows_with db ''events'' ''id'' u)" by simp
  with r(2) show thesis by (intro that [of r]) (simp_all add: rows_with_def)
qed

lemma events_of_none: "events_of db u = None \<longleftrightarrow> (\<forall>r \<in> set (db ''events''). r ''id'' \<noteq> VText u)"
  by (simp add: events_of_def rows_with_def filter_empty_conv list.case_eq_if)

subsection \<open>What changes the tables\<close>

text \<open>Rows are marked in place.\<close>

lemma evolves_mark:
  assumes "keyed ty (db ''events'')" "keeps_ids h"
    and "db' ''events'' = map h (db ''events'')" "db' ''endpoints'' = db ''endpoints''"
    and "\<And>r. r \<in> set (db ''events'') \<Longrightarrow> content (row_event (h r)) = content (row_event r)
      \<and> phase_step\<^sup>*\<^sup>* (phase_of (row_event r)) (phase_of (row_event (h r)))"
  shows "evolves ty src db db'"
  unfolding evolves_def
proof (intro conjI allI)
  fix u
  have ids: "h r ''id'' = r ''id''" for r using assms(2) by (simp add: keeps_ids_def)
  show "grows_to ty src db (events_of db u) (events_of db' u)"
  proof (cases "events_of db' u")
    case (Some ev')
    then obtain r where r: "r \<in> set (db ''events'')" "r ''id'' = VText u" "ev' = row_event (h r)"
      by (rule events_of_some) (use assms(3) ids in auto)
    with Some events_of_row [where db = db, OF assms(1) r(1,2)] assms(5) [OF r(1)] show ?thesis by (simp add: grows_to_def)
  qed simp
qed (simp add: secrets_kept_same assms(4))

lemma evolves_set_rows:
  assumes "keyed ty (db ''events'')" "keeps_ids f"
    and "db' ''events'' = set_rows ''events'' u f db ''events''" "db' ''endpoints'' = db ''endpoints''"
    and "\<And>r. r \<in> set (db ''events'') \<Longrightarrow> r ''id'' = VText u \<Longrightarrow> content (row_event (f r)) = content (row_event r)
      \<and> phase_step\<^sup>*\<^sup>* (phase_of (row_event r)) (phase_of (row_event (f r)))"
  shows "evolves ty src db db'"
  by (rule evolves_mark [where db = db, OF assms(1), where h = "\<lambda>r. if r ''id'' = VText u then f r else r"])
    (use assms in \<open>auto simp: set_rows_def update_rows_def keeps_ids_def\<close>)

lemma content_put [simp]:
  "content (row_event (put_status st now r)) = content (row_event r)"
  "content (row_event (put_retry st n at now r)) = content (row_event r)"
  by (simp_all add: content_def row_event_def put_status_def put_retry_def)

lemma phase_put [simp]:
  "phase_of (row_event (put_status st now r)) = (st, ev_AttemptCount (row_event r))"
  "phase_of (row_event (put_retry st n at now r)) = (st, n)"
  by (simp_all add: phase_of_def row_event_def put_status_def put_retry_def)

text \<open>An endpoint and its events are deleted.\<close>

lemma evolves_delete_endpoint:
  assumes "keyed ty (db ''events'')"
  shows "evolves ty src db (delete_endpoint u db)"
  unfolding evolves_def
proof (intro conjI allI)
  fix v
  show "grows_to ty src db (events_of db v) (events_of (delete_endpoint u db) v)"
  proof (cases "events_of (delete_endpoint u db) v")
    case (Some ev')
    then obtain r where r: "r \<in> set (db ''events'')" "r ''id'' = VText v" "ev' = row_event r"
      by (rule events_of_some) (auto simp: delete_endpoint_def)
    with Some events_of_row [where db = db, OF assms r(1,2)] show ?thesis by simp
  qed simp
qed (auto simp: secrets_kept_def delete_endpoint_def)

lemma evolves_update_endpoint: "evolves ty src db (set_rows ''endpoints'' u (put_endpoint ep) db)"
  by (rule evolves_same) (auto simp: secrets_kept_def set_rows_def update_rows_def put_endpoint_def)

lemma evolves_insert_endpoint:
  assumes "insert_row ty ''endpoints'' endpointColumns (endpoint_params ep) db = Inr r"
  shows "evolves ty src db (db(''endpoints'' := db ''endpoints'' @ [r]))"
proof (rule evolves_same)
  from insert_endpoint_row [OF assms] obtain u where "r ''id'' = VText u" "rows_with db ''endpoints'' ''id'' u = []"
    by blast
  then have "\<forall>q \<in> set (db ''endpoints''). q ''id'' \<noteq> r ''id''" by (simp add: rows_with_def filter_empty_conv)
  then show "secrets_kept db (db(''endpoints'' := db ''endpoints'' @ [r]))" by (auto simp: secrets_kept_def)
qed simp

text \<open>An event is accepted.\<close>

lemma insert_event_payload:
  "insert_row ty ''events'' eventColumns (event_params ev) db = Inr r \<Longrightarrow>
     jsonb_in ty (ev_Payload ev) = Some (text_of (r ''payload''))"
  by (cases "ev_NextRetryAt ev")
    (auto simp: insert_row_def eventColumns_def event_params_def opt_time_def store_def row_simps
      split: sum.splits option.splits if_splits)

lemma new_event_signed:
  assumes "may_send ty db tid input ep" "signed_event clock tid input ep ev"
    and "insert_row ty ''events'' eventColumns (event_params ev) db = Inr r" "\<And>n. src input (clock n)"
  shows "signed_for ty src db (row_event r)" "phase_of (row_event r) = (EventStatusPending, 0)"
proof -
  from assms(2) obtain n now uuid where ev: "ev = new_event tid input
      (Signature_String (Sign (ci_Payload input) (ep_Secret ep) (unix_seconds (clock n)))) now uuid"
    by (auto simp: signed_event_def)
  note row = insert_event_row [OF assms(3)] insert_event_payload [OF assms(3)]
  from assms(1) obtain u q where q: "uuid_in ty (ci_EndpointID input) = Some u" "q \<in> set (db ''endpoints'')"
    "q ''id'' = VText u" "ep = row_endpoint q" by (auto simp: may_send_def rows_with_def)
  have "q ''id'' = VText (ev_EndpointID (row_event r))" using row(1) q(1,3) by (simp add: ev new_event_def stored_event_def)
  moreover have "signed_with ty src (text_of (q ''secret'')) (row_event r)"
    unfolding signed_with_def
    by (intro exI [of _ input] exI [of _ "clock n"] conjI assms(4))
      (use row q(1,4) in \<open>simp_all add: ev new_event_def stored_event_def row_endpoint_def\<close>)
  ultimately show "signed_for ty src db (row_event r)" using q(2) unfolding signed_for_def by blast
  show "phase_of (row_event r) = (EventStatusPending, 0)"
    using row(1) by (simp add: phase_of_def ev new_event_def stored_event_def)
qed

lemma evolves_create:
  assumes "keyed ty (db ''events'')" "may_send ty db tid input ep" "signed_event clock tid input ep ev"
    and "insert_row ty ''events'' eventColumns (event_params ev) db = Inr r"
    and "db' = with_event r db \<or> mark_queued ty ev (with_event r db) db'"
    and "\<And>n. src input (clock n)"
  shows "evolves ty src db db'"
  unfolding evolves_def
proof (intro conjI allI)
  note row = insert_event_row [OF assms(4)]
  define v where "v = the (uuid_in ty (ev_ID ev))"
  have v: "r ''id'' = VText v" "rows_with db ''events'' ''id'' v = []" using row by (simp_all add: v_def)
  then have fresh: "\<forall>q \<in> set (db ''events''). q ''id'' \<noteq> VText v" by (simp add: rows_with_def filter_empty_conv)
  obtain r' where r': "db' ''events'' = db ''events'' @ [r']" "r' = r \<or> (\<exists>t. r' = put_status EventStatusQueued t r)"
    "db' ''endpoints'' = db ''endpoints''"
    using assms(5)
  proof
    assume "db' = with_event r db"
    then show thesis by (intro that [of r]) (simp_all add: with_event_def)
  next
    assume "mark_queued ty ev (with_event r db) db'"
    then obtain t where t: "db' = set_rows ''events'' v (put_status EventStatusQueued t) (with_event r db)"
      by (auto simp: mark_queued_def v_def)
    have "map (\<lambda>q. if q ''id'' = VText v then put_status EventStatusQueued t q else q) (db ''events'') = db ''events''"
      using fresh by (auto intro!: map_idI)
    with t v(1) show thesis
      by (intro that [of "put_status EventStatusQueued t r"]) (auto simp: set_rows_def update_rows_def with_event_def)
  qed
  show "secrets_kept db db'" using r'(3) by (rule secrets_kept_same)
  have new: "signed_for ty src db (row_event r') \<and> phase_step\<^sup>*\<^sup>* (EventStatusPending, 0) (phase_of (row_event r'))"
  proof -
    note s = new_event_signed [where src = src, OF assms(2-4,6)]
    have "signed_for ty src db (row_event (put_status EventStatusQueued t r))" for t
      using s(1) by (simp add: signed_for_def signed_with_def row_event_def put_status_def)
    moreover have "phase_step (EventStatusPending, 0) (EventStatusQueued, ev_AttemptCount (row_event r))"
      using s(2) by (auto simp: phase_of_def intro: step_published)
    ultimately show ?thesis using r'(2) s by auto
  qed
  fix u
  show "grows_to ty src db (events_of db u) (events_of db' u)"
  proof (cases "u = v")
    case True
    have "r' ''id'' = VText v" using r'(2) v(1) by (auto simp: put_status_def)
    then have "rows_with db' ''events'' ''id'' v = [r']" using v(2) r'(1) by (simp add: rows_with_def)
    then have "events_of db' u = Some (row_event r')" by (simp add: events_of_def True)
    moreover have "events_of db u = None" using v(2) True by (simp add: events_of_def)
    ultimately show ?thesis using new by (simp add: grows_to_def)
  next
    case False
    have "r' ''id'' = VText v" using r'(2) v(1) by (auto simp: put_status_def)
    then have "events_of db' u = events_of db u" using False r'(1) by (simp add: events_of_def rows_with_def)
    then show ?thesis by simp
  qed
qed

text \<open>A message is handled.\<close>

lemma event_effect_phase:
  assumes "event_effect ev tried f" "\<not> resolved (ev_Status ev)" "ev_MaxAttempts ev = 5" "row_event r = ev"
  shows "content (row_event (f r)) = content ev \<and> phase_step\<^sup>*\<^sup>* (phase_of ev) (phase_of (row_event (f r)))"
proof (cases "f = (\<lambda>r. r)")
  case False
  then show ?thesis
    using assms unfolding event_effect_def
    by (auto simp: phase_of_def [of "row_event r"] intro!: r_into_rtranclp step_delivered step_postponed step_given_up)
qed (simp add: assms(4))

lemma evolves_handled:
  assumes "handled gl ty msg w w'" "keyed ty (w_db w ''events'')" "attempts_ok (w_db w)"
  shows "evolves ty src (w_db w) (w_db w')"
  using assms(1) unfolding handled_def
proof
  assume "keys_changed {} w w'"
  then show ?thesis by (simp add: keys_changed_def)
next
  assume "\<exists>em u r. gl_UnmarshalMessage gl (km_Value msg) = Inr em \<and> uuid_in ty (em_EventID em) = Some u
      \<and> r \<in> set (rows_with (w_db w) ''events'' ''id'' u) \<and> event_row_ok r
      \<and> \<not> resolved (ev_Status (row_event r)) \<and> dispatch_effect (row_event r) w w'"
  then obtain u r where r: "r \<in> set (w_db w ''events'')" "r ''id'' = VText u" "\<not> resolved (ev_Status (row_event r))"
    and "dispatch_effect (row_event r) w w'" by (auto simp: rows_with_def)
  then obtain tried f x y where f: "event_effect (row_event r) tried f"
    and db: "w_db w' = set_rows ''events'' (ev_ID (row_event r)) f
      ((w_db w)(''delivery_attempts'' := x, ''dead_letter_events'' := y))"
    unfolding dispatch_effect_def by blast
  have id: "ev_ID (row_event r) = u" using r(2) by (simp add: row_event_def)
  have five: "ev_MaxAttempts (row_event r) = 5" using assms(3) r(1) by (auto simp: attempts_ok_def row_event_def)
  show ?thesis
  proof (rule evolves_set_rows [where db = "w_db w", OF assms(2), where f = f and u = u])
    show "keeps_ids f" using f by (auto simp: event_effect_def keeps_ids_def put_status_def put_retry_def)
    fix q assume "q \<in> set (w_db w ''events'')" "q ''id'' = VText u"
    then have "q = r" using keyed_unique [OF assms(2)] r(1,2) by metis
    then show "content (row_event (f q)) = content (row_event q)
        \<and> phase_step\<^sup>*\<^sup>* (phase_of (row_event q)) (phase_of (row_event (f q)))"
      using event_effect_phase [OF f r(3) five refl] by simp
  qed (simp_all add: db id set_rows_def)
qed

text \<open>A batch is published again.\<close>

lemma evolves_requeued:
  assumes "due_batch now limit (w_db w) evs" "requeued gl p evs w w'" "keyed ty (w_db w ''events'')"
  shows "evolves ty src (w_db w) (w_db w')"
proof -
  from assms(2) obtain ms g where g: "w_db w' = (w_db w)(''events'' := map g (w_db w ''events''))"
    "\<And>r. requeued_row gl p evs ms r (g r)" by (auto simp: requeued_def)
  have "g r c = r c" if "c \<noteq> ''status''" "c \<noteq> ''updated_at''" for r c
    using g(2) [of r] that by (auto simp: requeued_row_def put_status_def)
  then have ids: "keeps_ids g" by (auto simp: keeps_ids_def)
  have "content (row_event (g r)) = content (row_event r)
      \<and> phase_step\<^sup>*\<^sup>* (phase_of (row_event r)) (phase_of (row_event (g r)))" if r: "r \<in> set (w_db w ''events'')" for r
    using g(2) [of r] unfolding requeued_row_def
  proof (elim disjE exE conjE)
    fix t ev m
    assume ev: "ev \<in> set evs" "r ''id'' = VText (ev_ID ev)" and gr: "g r = put_status EventStatusQueued t r"
    from due_batch_rows [OF assms(1) ev(1)] obtain r' where r': "r' \<in> set (w_db w ''events'')" "due now r'"
      "r' ''id'' = VText (ev_ID ev)" .
    with keyed_unique [OF assms(3) r r'(1)] ev(2) have "due now r" by simp
    then have "phase_of (row_event r) = (EventStatusRetrying, ev_AttemptCount (row_event r))"
      by (simp add: due_def phase_of_def row_event_def)
    then show ?thesis using step_requeued by (simp add: gr r_into_rtranclp)
  qed simp
  then show ?thesis by (intro evolves_mark [where db = "w_db w", OF assms(3) ids]) (simp_all add: g(1))
qed

end
