(* ===== verification/Confinement.thy ===== *)
theory Confinement
  imports Life_Cycle
begin

text \<open>
  What a call on behalf of a tenant can change: new tenants apart, only rows, keys and messages
  of that tenant. Each operation of the services is shown to stay within it.
\<close>

definition foreign :: "string \<Rightarrow> row list \<Rightarrow> row list" where
  "foreign tid rs = filter (\<lambda>r. r ''tenant_id'' \<noteq> VText tid) rs"

lemma foreign_append [simp]: "foreign tid (rs @ qs) = foreign tid rs @ foreign tid qs"
  by (simp add: foreign_def)

lemma foreign_own [simp]: "r ''tenant_id'' = VText tid \<Longrightarrow> foreign tid [r] = []"
  by (simp add: foreign_def)

lemma foreign_map:
  assumes "\<And>r. r \<in> set rs \<Longrightarrow> g r ''tenant_id'' = r ''tenant_id''"
    and "\<And>r. r \<in> set rs \<Longrightarrow> r ''tenant_id'' \<noteq> VText tid \<Longrightarrow> g r = r"
  shows "foreign tid (map g rs) = foreign tid rs"
  using assms by (induction rs) (auto simp: foreign_def)

lemma foreign_filter:
  assumes "\<And>r. r \<in> set rs \<Longrightarrow> \<not> p r \<Longrightarrow> r ''tenant_id'' = VText tid"
  shows "foreign tid (filter p rs) = foreign tid rs"
  using assms by (induction rs) (auto simp: foreign_def)

text \<open>
  Delivery attempts and dead letters go by their endpoint, or by their event: a tenant's are the
  rows that name one of its endpoints or events.
\<close>

definition concerns :: "string \<Rightarrow> database \<Rightarrow> row \<Rightarrow> bool" where
  "concerns tid db r \<longleftrightarrow>
     (\<exists>q \<in> set (db ''endpoints''). q ''tenant_id'' = VText tid \<and> r ''endpoint_id'' = q ''id'')
     \<or> (\<exists>e \<in> set (db ''events''). e ''tenant_id'' = VText tid \<and> r ''event_id'' = e ''id'')"

definition own_removed :: "string \<Rightarrow> database \<Rightarrow> row list \<Rightarrow> row list \<Rightarrow> bool" where
  "own_removed tid db rs rs' \<longleftrightarrow>
     (\<exists>keep. rs' = filter keep rs \<and> (\<forall>r \<in> set rs. \<not> keep r \<longrightarrow> concerns tid db r))"

lemma own_removed_same [simp]: "own_removed tid db rs rs"
  unfolding own_removed_def by (rule exI [of _ "\<lambda>_. True"]) simp

lemma own_removed_filter:
  "(\<And>r. \<not> keep r \<Longrightarrow> concerns tid db r) \<Longrightarrow> own_removed tid db rs (filter keep rs)"
  unfolding own_removed_def by blast

definition db_confined :: "string \<Rightarrow> database \<Rightarrow> database \<Rightarrow> bool" where
  "db_confined tid db db' \<longleftrightarrow> (\<exists>rs. db' ''tenants'' = db ''tenants'' @ rs)
     \<and> foreign tid (db' ''endpoints'') = foreign tid (db ''endpoints'')
     \<and> foreign tid (db' ''events'') = foreign tid (db ''events'')
     \<and> own_removed tid db (db ''delivery_attempts'') (db' ''delivery_attempts'')
     \<and> own_removed tid db (db ''dead_letter_events'') (db' ''dead_letter_events'')"

definition confined :: "string \<Rightarrow> world \<Rightarrow> world \<Rightarrow> bool" where
  "confined tid w w' \<longleftrightarrow> w_committed w' = w_committed w \<and> w_sent w' = w_sent w
     \<and> (\<forall>k. k \<noteq> rl_key tid \<longrightarrow> w_keys w' k = w_keys w k)
     \<and> (\<exists>ms. w_log w' = w_log w @ ms \<and> (\<forall>m \<in> set ms. km_Key m = tid))
     \<and> db_confined tid (w_db w) (w_db w')"

lemma db_confined_refl [simp]: "db_confined tid db db"
  by (simp add: db_confined_def)

text \<open>Only the table of the events changes.\<close>

lemma db_confined_events:
  "db' = db(''events'' := rs) \<Longrightarrow> foreign tid rs = foreign tid (db ''events'') \<Longrightarrow> db_confined tid db db'"
  by (simp add: db_confined_def)

lemma confined_keys: "keys_changed {rl_key tid} w w' \<Longrightarrow> confined tid w w'"
  by (auto simp: keys_changed_def confined_def)

lemma confined_keys_trans:
  "keys_changed {rl_key tid} u v \<Longrightarrow> confined tid v w \<Longrightarrow> confined tid u w"
  by (simp add: keys_changed_def confined_def)

lemma confined_nothing: "keys_changed {} w w' \<Longrightarrow> confined tid w w'"
  by (rule confined_keys) (auto simp: keys_changed_def)

lemma confined_refl [simp]: "confined tid w w"
  by (simp add: confined_nothing)

lemma confined_tick [simp]: "confined tid w (tick w') \<longleftrightarrow> confined tid w w'" "confined tid (tick w) w' \<longleftrightarrow> confined tid w w'"
  by (simp_all add: confined_def)

lemma confined_only_db: "only_db w w' \<Longrightarrow> db_confined tid (w_db w) (w_db w') \<Longrightarrow> confined tid w w'"
  by (auto simp: only_db_def confined_def)

text \<open>
  The invariant is kept as well, and events and endpoints evolve as specified: together this is
  what every call of the API does.
\<close>

definition own_effect :: "pgtypes \<Rightarrow> origin \<Rightarrow> string \<Rightarrow> world \<Rightarrow> world \<Rightarrow> bool" where
  "own_effect ty src tid w w' \<longleftrightarrow> confined tid w w'
     \<and> (db_ok ty (w_db w) \<longrightarrow> db_ok ty (w_db w') \<and> evolves ty src (w_db w) (w_db w'))"

lemma own_effect_simps [simp]:
  "own_effect ty src tid w (tick w') = own_effect ty src tid w w'"
  "own_effect ty src tid (tick w) w' = own_effect ty src tid w w'"
  by (simp_all add: own_effect_def)

lemma own_effect_refl [simp]: "own_effect ty src tid w w"
  using confined_nothing [of w w] by (simp add: own_effect_def)

lemma own_effect_keys: "keys_changed {rl_key tid} w w' \<Longrightarrow> own_effect ty src tid w w'"
  by (auto simp: own_effect_def confined_keys keys_changed_def)

lemma own_effect_keys_trans:
  "keys_changed {rl_key tid} u v \<Longrightarrow> own_effect ty src tid v w \<Longrightarrow> own_effect ty src tid u w"
proof -
  assume k: "keys_changed {rl_key tid} u v" and "own_effect ty src tid v w"
  then show ?thesis
    using confined_keys_trans [OF k] by (simp add: own_effect_def keys_changed_def)
qed

lemma own_effect_read: "only_db w w' \<Longrightarrow> w_db w' = w_db w \<Longrightarrow> own_effect ty src tid w w'"
  by (simp add: own_effect_def confined_only_db)

lemma own_effectI:
  assumes "only_db w w'" "db_confined tid (w_db w) (w_db w')" "db_ok ty (w_db w) \<Longrightarrow> db_ok ty (w_db w')"
    and "db_ok ty (w_db w) \<Longrightarrow> evolves ty src (w_db w) (w_db w')"
  shows "own_effect ty src tid w w'"
  using assms by (simp add: own_effect_def confined_only_db)

lemma db_ok_keyed: "db_ok ty db \<Longrightarrow> keyed ty (db ''events'')"
  by (simp add: db_ok_def tables_ok_def)

text \<open>The rows an identifier names belong to one tenant.\<close>

lemma owned_rows:
  assumes "owners_ok ty db" "owned_row ty db eid tid u r" "q \<in> set (db ''endpoints'')" "q ''id'' = VText u"
  shows "q ''tenant_id'' = VText tid"
proof -
  from assms(2) have r: "r \<in> set (db ''endpoints'')" "r ''id'' = VText u" "ep_TenantID (row_endpoint r) = tid"
    by (auto simp: owned_row_def rows_with_def)
  with assms(1,3,4) have "q = r" unfolding owners_ok_def by metis
  moreover from assms(1) r(1) obtain t where "r ''tenant_id'' = VText t" unfolding owners_ok_def by blast
  ultimately show ?thesis using r(3) by (simp add: row_endpoint_def)
qed

lemma update_confined:
  assumes "owners_ok ty db" "owned_row ty db eid tid u r"
  shows "db_confined tid db (set_rows ''endpoints'' u (put_endpoint ep) db)"
proof -
  have "foreign tid (map (\<lambda>q. if q ''id'' = VText u then put_endpoint ep q else q) (db ''endpoints''))
      = foreign tid (db ''endpoints'')"
    by (rule foreign_map) (auto simp: put_endpoint_def owned_rows [OF assms])
  then show ?thesis by (simp add: db_confined_def set_rows_def update_rows_def)
qed

lemma delete_confined:
  assumes "owners_ok ty db" "owned_row ty db eid tid u r"
  shows "db_confined tid db (delete_endpoint u db)"
proof -
  have r: "r \<in> set (db ''endpoints'')" "r ''id'' = VText u" using assms(2) by (auto simp: owned_row_def rows_with_def)
  have "foreign tid (filter (\<lambda>r. r ''id'' \<noteq> VText u) (db ''endpoints'')) = foreign tid (db ''endpoints'')"
    by (rule foreign_filter) (use owned_rows [OF assms] in auto)
  moreover have "foreign tid (filter (\<lambda>r. r ''endpoint_id'' \<noteq> VText u) (db ''events'')) = foreign tid (db ''events'')"
    by (rule foreign_filter) (use owners_event [OF assms(1) _ r(1)] owned_rows [OF assms r] r(2) in auto)
  moreover have named: "concerns tid db q" if "q ''endpoint_id'' = VText u" for q
    using that r owned_rows [OF assms r] unfolding concerns_def by auto
  then have "own_removed tid db (db ''dead_letter_events'') (delete_endpoint u db ''dead_letter_events'')"
    unfolding delete_endpoint_def by (simp, intro own_removed_filter) auto
  moreover have "concerns tid db q" if "q ''event_id'' \<in> (\<lambda>e. e ''id'') ` set (rows_with db ''events'' ''endpoint_id'' u)" for q
    using that owners_event [OF assms(1) _ r(1)] owned_rows [OF assms r] r(2)
    unfolding concerns_def by (auto simp: rows_with_def)
  then have "own_removed tid db (db ''delivery_attempts'') (delete_endpoint u db ''delivery_attempts'')"
    unfolding delete_endpoint_def using named by (simp, intro own_removed_filter) auto
  ultimately show ?thesis by (simp add: db_confined_def delete_endpoint_def)
qed

subsection \<open>The services\<close>

context backend
begin

lemma endpointService_Create_own:
  assumes "uuid_in ty tid = Some tid"
  shows "wp P (endpointService_Create gl tid input) (\<lambda>r w'. own_effect ty src tid w w') w"
proof -
  have created: "db_confined tid (w_db w) (w_db w') \<and> (db_ok ty (w_db w) \<longrightarrow> db_ok ty (w_db w'))
      \<and> evolves ty src (w_db w) (w_db w')"
    if c: "endpoint_created gl P ty tid input w ep w'" for ep w'
  proof -
    from c obtain r where r: "insert_row ty ''endpoints'' endpointColumns (endpoint_params ep) (w_db w) = Inr r"
      "w_db w' = (w_db w)(''endpoints'' := w_db w ''endpoints'' @ [r])" "ep_TenantID ep = tid"
      by (auto simp: endpoint_created_def new_endpoint_def)
    from insert_endpoint_row [OF r(1)] r(3) assms have "r ''tenant_id'' = VText tid" by auto
    with r show ?thesis using db_ok_insert_endpoint [OF _ r(1)] evolves_insert_endpoint [OF r(1)] by (simp add: db_confined_def)
  qed
  show ?thesis
    by (rule wp_mono [OF only_db_frame [OF _ endpointService_Create_wp]])
      (use created in \<open>fastforce split: sum.splits prod.splits intro: own_effectI own_effect_read\<close>)+
qed

lemma endpointService_Update_own:
  assumes "db_ok ty (w_db w)"
  shows "wp P (endpointService_Update gl eid tid input) (\<lambda>r w'. own_effect ty src tid w w') w"
proof -
  have updated: "own_effect ty src tid w w'"
    if "endpoint_updated gl ty eid tid input w ep w'" "only_db w w'" for ep w'
  proof -
    from that(1) obtain u r where "owned_row ty (w_db w) eid tid u r"
      "w_db w' = set_rows ''endpoints'' u (put_endpoint ep) (w_db w)" unfolding endpoint_updated_def by blast
    then show ?thesis
      using update_confined [OF db_ok_owners [OF assms]] db_ok_update_endpoint that(2)
      by (intro own_effectI) (auto intro: evolves_update_endpoint)
  qed
  show ?thesis
    by (rule wp_mono [OF only_db_frame [OF _ endpointService_Update_wp]])
      (use updated in \<open>fastforce split: sum.splits intro: own_effect_read\<close>)+
qed

lemma endpointService_Delete_own:
  assumes "db_ok ty (w_db w)"
  shows "wp P (endpointService_Delete eid tid) (\<lambda>r w'. own_effect ty src tid w w') w"
proof -
  have deleted: "own_effect ty src tid w w'"
    if "owned_row ty (w_db w) eid tid u r" "w_db w' = delete_endpoint u (w_db w)" "only_db w w'" for u r w'
    using delete_confined [OF db_ok_owners [OF assms] that(1)] db_ok_delete_endpoint that(2,3)
      evolves_delete_endpoint [where db = "w_db w", OF db_ok_keyed [OF assms]] by (intro own_effectI) auto
  show ?thesis
    by (rule wp_mono [OF only_db_frame [OF _ endpointService_Delete_wp]])
      (use deleted in \<open>auto intro: own_effect_read\<close>)
qed

lemma tenantService_Create_own:
  "wp P (tenantService_Create input) (\<lambda>r w'. own_effect ty src tid w w') w"
proof -
  have created: "own_effect ty src tid w w'" if "tenant_created P ty input w tn w'" "only_db w w'" for tn w'
    using that(2)
  proof (rule own_effectI)
    from that(1) obtain r where "w_db w' = (w_db w)(''tenants'' := w_db w ''tenants'' @ [r])"
      "insert_row ty ''tenants'' tenantColumns (tenant_params tn) (w_db w) = Inr r" "tenant_ok tn"
      by (auto simp: tenant_created_def tenant_input_accepted_iff new_tenant_ok)
    then show "db_confined tid (w_db w) (w_db w')" "db_ok ty (w_db w) \<Longrightarrow> db_ok ty (w_db w')"
        "evolves ty src (w_db w) (w_db w')"
      by (auto simp: db_confined_def intro: db_ok_insert_tenant intro!: evolves_same secrets_kept_same)
  qed
  show ?thesis
    by (rule wp_mono [OF only_db_frame [OF _ tenantService_Create_wp]])
      (use created in \<open>fastforce split: sum.splits prod.splits intro: own_effect_read\<close>)+
qed

lemma own_reads: "pg_only False m \<Longrightarrow> wp P m (\<lambda>r w'. own_effect ty src tid w w') w"
  by (rule wp_mono [OF pg_reads_wp [where v = w]])
    (auto intro: own_effect_keys keys_changed_mono)

lemma RateLimiter_Allow_own: "wp P (RateLimiter_Allow rl tid limit) (\<lambda>r w'. keys_changed {rl_key tid} w w') w"
  unfolding RateLimiter_Allow_def pipe_Exec_def
  by (auto intro!: redis_pipe_frame [where S = "{rl_key tid}" and v = w] keys_changed_tickI
      simp: rcmd_key_def split: sum.split)

lemma create_outcome_own:
  assumes "db_ok ty (w_db w)" "create_outcome ty clock gl p tid input w r w'" "\<And>n. src input (clock n)"
  shows "own_effect ty src tid w w'"
proof -
  have stored: "db_confined tid (w_db w) db' \<and> db_ok ty db' \<and> evolves ty src (w_db w) db'"
    if "may_send ty (w_db w) tid input ep" "signed_event clock tid input ep ev"
      "insert_row ty ''events'' eventColumns (event_params ev) (w_db w) = Inr row"
      "db' = with_event row (w_db w) \<or> mark_queued ty ev (with_event row (w_db w)) db'" for ep ev row db'
  proof -
    from that(2) have ev: "ev_TenantID ev = tid" "ev_EndpointID ev = ci_EndpointID input"
      by (auto simp: signed_event_def new_event_def)
    from that(2) have "\<exists>sg now uuid. ev = new_event tid input sg now uuid" by (auto simp: signed_event_def)
    then have ok: "db_ok ty (with_event row (w_db w))" using db_ok_insert_event [OF assms(1) that(3,1)] by blast
    note own = owners_insert_event [OF db_ok_owners [OF assms(1)] that(3,1) ev]
    have new: "db_confined tid (w_db w) (with_event row (w_db w))"
      by (rule db_confined_events [OF with_event_def]) (use own(2) in simp)
    have "evolves ty src (w_db w) db'"
      by (rule evolves_create [where clock = clock and input = input, OF db_ok_keyed [OF assms(1)] that]) (rule assms(3))
    moreover from that(4) have "db_confined tid (w_db w) db' \<and> db_ok ty db'"
    proof
      assume "db' = with_event row (w_db w)"
      with ok new show "db_confined tid (w_db w) db' \<and> db_ok ty db'" by simp
    next
      assume "mark_queued ty ev (with_event row (w_db w)) db'"
      then obtain u now where u: "uuid_in ty (ev_ID ev) = Some u"
        and db': "db' = set_rows ''events'' u (put_status EventStatusQueued now) (with_event row (w_db w))"
        by (auto simp: mark_queued_def)
      have "q ''tenant_id'' = VText tid" if "q \<in> set (with_event row (w_db w) ''events'')" "q ''id'' = VText u" for q
        using that u own(2) insert_event_row [OF \<open>insert_row _ _ _ _ _ = _\<close>]
        by (auto simp: with_event_def rows_with_def filter_empty_conv)
      then have "foreign tid (db' ''events'') = foreign tid (with_event row (w_db w) ''events'')"
        unfolding db' set_rows_def update_rows_def by (simp, intro foreign_map) (auto simp: put_status_def)
      then have "foreign tid (db' ''events'') = foreign tid (w_db w ''events'')"
        using own(2) by (simp add: with_event_def)
      then have "db_confined tid (w_db w) db'"
        by (intro db_confined_events [where rs = "db' ''events''"]) (simp_all add: db' set_rows_def with_event_def)
      moreover have "db_ok ty db'"
        unfolding db' by (rule db_ok_set_status [OF ok])
      ultimately show "db_confined tid (w_db w) db' \<and> db_ok ty db'" by blast
    qed
    ultimately show ?thesis by simp
  qed
  have key: "km_Key m = tid" if "published_event gl p ev m" "signed_event clock tid input ep ev" for ev ep m
    using that by (auto simp: published_event_def published_def signed_event_def new_event_def)
  have frame: "w_committed w' = w_committed w" "w_sent w' = w_sent w" "w_keys w' = w_keys w"
    using assms(2) by (simp_all add: create_outcome_def unchanged_def)
  have result: "own_effect ty src tid w w'"
    if "db_confined tid (w_db w) (w_db w') \<and> db_ok ty (w_db w') \<and> evolves ty src (w_db w) (w_db w')"
    "w_log w' = w_log w \<or> (\<exists>m. km_Key m = tid \<and> w_log w' = w_log w @ [m])"
    using that frame by (auto simp: own_effect_def confined_def)
  show ?thesis
  proof (cases r)
    case (Inl e)
    with assms show ?thesis using stored by (intro result) (auto simp: create_outcome_def)
  next
    case (Inr ev)
    with assms obtain ep ev0 row where e: "may_send ty (w_db w) tid input ep" "signed_event clock tid input ep ev0"
      "insert_row ty ''events'' eventColumns (event_params ev0) (w_db w) = Inr row"
      "w_db w' = with_event row (w_db w) \<or> mark_queued ty ev0 (with_event row (w_db w)) (w_db w')"
      "w_log w' = w_log w \<or> (\<exists>m. published_event gl p ev0 m \<and> w_log w' = w_log w @ [m])"
      unfolding create_outcome_def by (simp, elim conjE exE disjE) blast+
    show ?thesis using stored [OF e(1-4)] e(5) key [OF _ e(2)] by (intro result) auto
  qed
qed

lemma eventService_Create_own:
  "db_ok ty (w_db w) \<Longrightarrow> (\<And>n. src input (pl_now P n)) \<Longrightarrow>
     wp P (eventService_Create gl p tid input) (\<lambda>r w'. own_effect ty src tid w w') w"
  by (rule wp_mono [OF eventService_Create_wp]) (rule create_outcome_own)

end

end
