(* ===== verification/Api_Isolation.thy ===== *)
theory Api_Isolation
  imports Api_Samples Confinement
begin

text \<open>
  Tenants are isolated: what a request does, through the whole stack of middleware and routes,
  stays with the tenant whose key it carries.
\<close>

subsection \<open>Authentication\<close>

text \<open>The key, if any tenant has it, is the tenant's.\<close>

definition key_owner :: "pgtypes \<Rightarrow> database \<Rightarrow> string \<Rightarrow> string \<Rightarrow> bool" where
  "key_owner ty db key tid \<longleftrightarrow> uuid_in ty tid = Some tid
     \<and> (\<forall>r \<in> set (rows_with db ''tenants'' ''api_key'' key). r ''id'' = VText tid)"

text \<open>The pings of the readiness probe change nothing, whatever they answer.\<close>

definition pings_harmless :: "platform \<Rightarrow> Server \<Rightarrow> bool" where
  "pings_harmless P s \<longleftrightarrow> (\<forall>w. wp P (sv_pool_Ping s) (\<lambda>r w'. keys_changed {} w w') w
     \<and> wp P (sv_redis_Ping s) (\<lambda>r w'. keys_changed {} w w') w)"

lemma Ready_frame:
  assumes "pings_harmless P s"
  shows "wp P (HealthHandler_Ready (sv_pool_Ping s) (sv_redis_Ping s) ctx rq) (\<lambda>rs w'. keys_changed {} w w') w"
proof -
  have redis: "wp P (sv_redis_Ping s) (\<lambda>r w'. keys_changed {} w w') w1" if "keys_changed {} w w1" for w1
    by (rule wp_mono [where Q = "\<lambda>r w'. keys_changed {} w1 w'"])
      (use assms in \<open>auto simp: pings_harmless_def intro: keys_changed_trans [OF that]\<close>)
  show ?thesis
    unfolding HealthHandler_Ready_def wp_bind
    by (rule wp_mono [where Q = "\<lambda>r w'. keys_changed {} w w'"])
      (use assms redis in \<open>auto simp: pings_harmless_def split: option.split\<close>)
qed

context pg_server
begin

lemma tenantService_GetByAPIKey_wp:
  assumes "\<And>r. r \<in> set (rows_with (w_db w) ''tenants'' ''api_key'' key) \<Longrightarrow> tenant_row_ok r \<Longrightarrow>
      Q (Inr (row_tenant r)) (tick w)"
    and "\<And>e. Q (Inl e) (tick w)"
  shows "wp P (tenantService_GetByAPIKey key) Q w"
  unfolding tenantService_GetByAPIKey_def wp_bind
  by (rule TenantRepo_GetByAPIKey_wp) (use assms in auto)

lemma Auth_wp:
  assumes "\<And>r. r \<in> set (rows_with (w_db w) ''tenants'' ''api_key'' (extractAPIKey rq)) \<Longrightarrow> tenant_row_ok r \<Longrightarrow>
      wp P (nxt (Some (row_tenant r)) rq) Q (tick w)"
    and "\<And>msg w'. keys_changed {} w w' \<Longrightarrow> Q (response_Error 401 msg) w'"
  shows "wp P (Auth tenantService_GetByAPIKey nxt ctx rq) Q w"
  unfolding Auth_def Let_def
  by (auto simp: assms keys_changed_tickI intro!: tenantService_GetByAPIKey_wp)

end

text \<open>What a request asks to send, and when it may have been signed: where its new event comes from.\<close>

definition asked :: "platform \<Rightarrow> apilib \<Rightarrow> api_request \<Rightarrow> origin" where
  "asked P al rq input t \<longleftrightarrow> ar_Method rq = ''POST''
     \<and> (\<exists>req. al_CreateEvent al (ar_Body rq) = Inr req \<and> input = event_input req) \<and> (\<exists>n. t = pl_now P n)"

subsection \<open>Effects\<close>

lemma Ready_wp:
  assumes "pings_harmless P s" "\<And>msg w'. Q (response_Error 503 msg) w'"
    and "\<And>w'. Q (response_JSON 200 (MapBody [(''status'', ''ready'')])) w'"
  shows "wp P (HealthHandler_Ready (sv_pool_Ping s) (sv_redis_Ping s) ctx rq) Q w"
proof -
  have "wp P (sv_redis_Ping s) R w1" "wp P (sv_pool_Ping s) R w1" if "\<And>a w'. R a w'" for R w1
    using assms(1) that unfolding pings_harmless_def by (blast intro: wp_mono)+
  then show ?thesis using assms(2,3) by (simp add: HealthHandler_Ready_def split: option.split)
qed

context backend
begin

lemma EndpointHandler_own:
  assumes "db_ok ty (w_db w)" "tn_ID tn = tid" "uuid_in ty tid = Some tid"
  shows "wp P (EndpointHandler_Create al (Some tn) rq) (\<lambda>rs w'. own_effect ty src tid w w') w"
    "wp P (EndpointHandler_List al (Some tn) rq) (\<lambda>rs w'. own_effect ty src tid w w') w"
    "wp P (EndpointHandler_Get al eid (Some tn) rq) (\<lambda>rs w'. own_effect ty src tid w w') w"
    "wp P (EndpointHandler_Update al eid (Some tn) rq) (\<lambda>rs w'. own_effect ty src tid w w') w"
    "wp P (EndpointHandler_Delete eid (Some tn) rq) (\<lambda>rs w'. own_effect ty src tid w w') w"
  using endpointService_Create_own endpointService_Update_own endpointService_Delete_own assms
  by (auto simp: EndpointHandler_Create_def EndpointHandler_List_def EndpointHandler_Get_def
      EndpointHandler_Update_def EndpointHandler_Delete_def Let_def own_reads split: sum.split)

lemma EventHandler_own:
  assumes "db_ok ty (w_db w)" "tn_ID tn = tid"
  shows "ar_Method rq = ''POST'' \<Longrightarrow>
      wp P (EventHandler_Create al p (Some tn) rq) (\<lambda>rs w'. own_effect ty (asked P al rq) tid w w') w"
    "wp P (EventHandler_List al (Some tn) rq) (\<lambda>rs w'. own_effect ty src tid w w') w"
    "wp P (EventHandler_Get al eid (Some tn) rq) (\<lambda>rs w'. own_effect ty src tid w w') w"
  using assms
  by (auto simp: EventHandler_Create_def EventHandler_List_def EventHandler_Get_def Let_def own_reads asked_def
      split: sum.split intro!: eventService_Create_own)

lemma TenantHandler_own:
  "wp P (TenantHandler_Create al None rq) (\<lambda>rs w'. own_effect ty src tid w w') w"
  "wp P (TenantHandler_GetMe al None rq) (\<lambda>rs w'. own_effect ty src tid w w') w"
  "wp P (TenantHandler_UpdateMe al None rq) (\<lambda>rs w'. own_effect ty src tid w w') w"
  using tenantService_Create_own
  by (auto simp: TenantHandler_Create_def TenantHandler_GetMe_def TenantHandler_UpdateMe_def split: sum.split)

lemma RateLimit_own:
  assumes "tn_ID tn = tid" "db_ok ty (w_db w)"
    and "\<And>w1. db_ok ty (w_db w1) \<Longrightarrow> wp P (nxt (Some tn) rq) (\<lambda>rs w'. own_effect ty src tid w1 w') w1"
  shows "wp P (RateLimit rl nxt (Some tn) rq) (\<lambda>rs w'. own_effect ty src tid w w') w"
proof -
  have nxt: "wp P (nxt (Some tn) rq) (\<lambda>rs w'. own_effect ty src tid w w') w1" if k: "keys_changed {rl_key tid} w w1" for w1
  proof -
    have "db_ok ty (w_db w1)" using assms(2) k by (simp add: keys_changed_def)
    from assms(3) [OF this] show ?thesis
      by (rule wp_mono) (rule own_effect_keys_trans [OF k])
  qed
  show ?thesis
    unfolding RateLimit_def
    by simp (rule wp_mono [OF RateLimiter_Allow_own [where tid = tid, folded assms(1)]];
      use nxt in \<open>auto simp: own_effect_keys assms(1) split: sum.split\<close>)
qed

lemma route_own:
  assumes "db_ok ty (w_db w)" "key_owner ty (w_db w) (extractAPIKey rq) tid" "pings_harmless P s"
  shows "wp P (route s None rq) (\<lambda>rs w'. own_effect ty (asked P (sv_lib s) rq) tid w w') w"
proof -
  let ?src = "asked P (sv_lib s) rq"
  have row: "tn_ID (row_tenant r) = tid" if "r \<in> set (rows_with (w_db w) ''tenants'' ''api_key'' (extractAPIKey rq))" for r
    using assms(2) that by (auto simp: key_owner_def row_tenant_def)
  have uuid: "uuid_in ty tid = Some tid" using assms(2) by (simp add: key_owner_def)
  have auth: "wp P (Auth tenantService_GetByAPIKey nxt None rq) (\<lambda>rs w'. own_effect ty ?src tid w w') w"
    if "\<And>tn w1. tn_ID tn = tid \<Longrightarrow> db_ok ty (w_db w1) \<Longrightarrow> wp P (nxt (Some tn) rq) (\<lambda>rs w'. own_effect ty ?src tid w1 w') w1"
    for nxt
    by (rule Auth_wp) (use that [OF row, of _ "tick w"] assms(1) in
      \<open>auto intro: own_effect_keys keys_changed_mono\<close>)
  have endpoints: "wp P (EndpointHandler_Routes mux al path (Some tn) rq) (\<lambda>rs w'. own_effect ty ?src tid w1 w') w1"
    if "tn_ID tn = tid" "db_ok ty (w_db w1)" for mux al path tn w1
    using EndpointHandler_own [OF that(2,1) uuid]
    by (auto simp: EndpointHandler_Routes_def by_method_def split: option.split prod.split)
  have events: "wp P (events_router s path (Some tn) rq) (\<lambda>rs w'. own_effect ty ?src tid w1 w') w1"
    if "tn_ID tn = tid" "db_ok ty (w_db w1)" for path tn w1
    unfolding events_router_def
    by (rule RateLimit_own [OF that]) (use EventHandler_own [OF _ that(1)] in
      \<open>auto simp: EventHandler_Routes_def by_method_def split: option.split prod.split\<close>)
  have authed: "wp P (Auth tenantService_GetByAPIKey (EndpointHandler_Routes mux al path) None rq) (\<lambda>rs w'. own_effect ty ?src tid w w') w"
    "wp P (Auth tenantService_GetByAPIKey (events_router s path) None rq) (\<lambda>rs w'. own_effect ty ?src tid w w') w" for mux al path
    by (rule auth, rule endpoints; assumption) (rule auth, rule events; assumption)
  have tenants: "wp P (TenantHandler_Routes mux al path None rq) (\<lambda>rs w'. own_effect ty ?src tid w w') w" for mux al path
    using TenantHandler_own by (auto simp: TenantHandler_Routes_def by_method_def split: option.split)
  have v1: "wp P (api_v1 s path None rq) (\<lambda>rs w'. own_effect ty ?src tid w w') w" for path
    unfolding api_v1_def
    using tenants authed by (auto split: option.split prod.split)
  have ready: "wp P (HealthHandler_Ready (sv_pool_Ping s) (sv_redis_Ping s) None rq) (\<lambda>rs w'. own_effect ty ?src tid w w') w"
    by (rule wp_mono [OF Ready_frame [OF assms(3)]]) (auto intro: own_effect_keys keys_changed_mono)
  show ?thesis
    unfolding route_def using v1 ready
    by (auto simp: by_method_def HealthHandler_Live_def split: option.split prod.split)
qed

end

lemma ServeHTTP_wp:
  assumes "ar_Method rq = ''OPTIONS'' \<Longrightarrow>
      Q (cors_headers \<lparr>as_Status = 204, as_Headers = [], as_Body = NoBody\<rparr>, None) w"
    and "ar_Method rq \<noteq> ''OPTIONS'' \<Longrightarrow> wp P (route s None rq) (\<lambda>rs w'. \<forall>log. lg_Status log = as_Status rs \<longrightarrow>
      Q (cors_headers rs, Some log) (tick w')) (tick w)"
  shows "wp P (ServeHTTP s rq) Q w"
proof (cases "ar_Method rq = ''OPTIONS''")
  case True
  with assms(1) show ?thesis by (simp add: ServeHTTP_def setupRouter_def CORS_def)
next
  case False
  from assms(2) [OF this] False show ?thesis
    by (simp add: ServeHTTP_def setupRouter_def CORS_def Logging_def) (erule wp_mono; simp)
qed

lemma cors_headers_simps [simp]:
  "as_Status (cors_headers rs) = as_Status rs" "as_Body (cors_headers rs) = as_Body rs"
  by (simp_all add: cors_headers_def)

lemma queued_db_ok: "db_ok sim_types (w_db queued_world)"
  by (simp add: db_ok_def tables_ok_def owners_ok_def keys_ok_def tenants_ok_def tenant_ok_def tenant_row_ok_def
      row_tenant_def attempts_ok_def keyed_def rows_typed_def event_row_ok_def endpoint_row_ok_def sample_defs)

context backend
begin

lemma ServeHTTP_own:
  assumes "db_ok ty (w_db w)" "pings_harmless P s" "key_owner ty (w_db w) (extractAPIKey rq) tid"
  shows "wp P (ServeHTTP s rq)
    (\<lambda>res w'. confined tid w w' \<and> db_ok ty (w_db w') \<and> evolves ty (asked P (sv_lib s) rq) (w_db w) (w_db w')) w"
proof (rule ServeHTTP_wp)
  show "confined tid w w \<and> db_ok ty (w_db w) \<and> evolves ty (asked P (sv_lib s) rq) (w_db w) (w_db w)"
    using assms(1) confined_nothing [of w w] by simp
  have "wp P (route s None rq) (\<lambda>rs w'. own_effect ty (asked P (sv_lib s) rq) tid (tick w) w') (tick w)"
    by (rule route_own) (use assms in simp_all)
  then show "wp P (route s None rq) (\<lambda>rs w'. \<forall>log. lg_Status log = as_Status rs \<longrightarrow>
      confined tid w (tick w') \<and> db_ok ty (w_db (tick w')) \<and> evolves ty (asked P (sv_lib s) rq) (w_db w) (w_db (tick w'))) (tick w)"
    by (rule wp_mono) (use assms(1) in \<open>simp add: own_effect_def\<close>)
qed

end

text \<open>
  C4: tenants are isolated. A request, whatever it asks and whatever fails, is answered and
  changes nothing of another tenant than the one whose key it carries: no endpoint and no event
  of another's; delivery attempts and dead letters are only removed, and only those that name an
  endpoint or an event of the tenant; no Redis key but the tenant's own window of the rate
  limiter is written, every message written to Kafka is the tenant's, nothing is committed and
  no webhook is sent; no existing tenant is changed, at most new ones are added. And the database
  keeps its invariant, in which every event belongs to the tenant of its endpoint.
\<close>

theorem tenant_isolation:
  assumes "backend P rt ty pgnow" "db_ok ty (w_db w)" "pings_harmless P s"
    and "key_owner ty (w_db w) (extractAPIKey rq) tid"
  shows "wp P (ServeHTTP s rq) (\<lambda>res w'. confined tid w w' \<and> db_ok ty (w_db w')) w"
  by (rule wp_mono [OF backend.ServeHTTP_own [OF assms]]) simp

theorem tenant_isolation_witness:
  "wp (sim (answering 200)) (ServeHTTP sample_server (sample_request ''POST'' ''/api/v1/events''))
     (\<lambda>res w'. confined ''t'' queued_world w' \<and> db_ok sim_types (w_db w')) queued_world"
  by (rule tenant_isolation [OF sim_backend.backend_axioms queued_db_ok])
    (simp_all add: key_owner_def pings_harmless_def sample_defs)

end
