(* ===== verification/System.thy ===== *)
theory System
  imports Api_Isolation
begin

text \<open>
  The platform as a whole: requests to the API, messages handled by a dispatcher and ticks of
  the scheduler follow one another in any order, on any platform that obeys the laws of the
  services. The invariant of the database holds in every state they reach, and none of them
  ever panics.
\<close>

record deployment =
  dp_server :: Server
  dp_lib :: golib
  dp_dispatcher :: DispatcherService
  dp_scheduler :: SchedulerService

text \<open>The three processes (\<^verbatim>\<open>cmd/api\<close>, \<^verbatim>\<open>cmd/dispatcher\<close>, \<^verbatim>\<open>cmd/scheduler\<close>): one request, message or batch.\<close>

datatype activity = ApiRequest api_request | Message kmessage | Tick

definition task :: "deployment \<Rightarrow> activity \<Rightarrow> unit prog" where
  "task d a = (case a of
       ApiRequest rq \<Rightarrow> bind (ServeHTTP (dp_server d) rq) (\<lambda>_. Ret ())
     | Message m \<Rightarrow> bind (processMessage (dp_lib d) (dp_dispatcher d) m) (\<lambda>_. Ret ())
     | Tick \<Rightarrow> bind (processRetryableEvents (dp_lib d) (dp_scheduler d)) (\<lambda>_. Ret ()))"

definition perform :: "platform \<Rightarrow> deployment \<Rightarrow> activity \<Rightarrow> world \<Rightarrow> unit outcome \<times> world" where
  "perform P d a w = run P (task d a) w"

text \<open>Between two activities time passes and keys of Redis expire or are changed by others.\<close>

inductive reached :: "platform \<Rightarrow> deployment \<Rightarrow> world \<Rightarrow> activity list \<Rightarrow> world \<Rightarrow> bool" for P d w0 where
  reached_start: "reached P d w0 [] w0"
| reached_wait: "reached P d w0 as w \<Longrightarrow> w_db w' = w_db w \<Longrightarrow> reached P d w0 as w'"
| reached_act: "reached P d w0 as w \<Longrightarrow> perform P d a w = (r, w') \<Longrightarrow> reached P d w0 (as @ [a]) w'"

text \<open>The invariant is kept and the events evolve: what every activity does to the tables.\<close>

definition kept :: "pgtypes \<Rightarrow> origin \<Rightarrow> world \<Rightarrow> world \<Rightarrow> bool" where
  "kept ty src w w' \<longleftrightarrow> db_ok ty (w_db w') \<and> evolves ty src (w_db w) (w_db w')"

text \<open>New events come from the activity's own request, and from nothing else.\<close>

definition origin_of :: "platform \<Rightarrow> deployment \<Rightarrow> activity \<Rightarrow> origin" where
  "origin_of P d a = (case a of
       ApiRequest rq \<Rightarrow> asked P (sv_lib (dp_server d)) rq
     | Message m \<Rightarrow> (\<lambda>_ _. False)
     | Tick \<Rightarrow> (\<lambda>_ _. False))"

lemma kept_ok: "kept ty src w w' \<Longrightarrow> db_ok ty (w_db w')"
  by (simp add: kept_def)

context backend
begin

text \<open>Some tenant is the owner of every key: the one that has it, or any at all.\<close>

lemma some_owner: "keys_ok ty db \<Longrightarrow> \<exists>tid. key_owner ty db key tid"
proof (cases "rows_with db ''tenants'' ''api_key'' key")
  case Nil
  then show ?thesis using uuid_generated by (auto simp: key_owner_def)
next
  case (Cons r rs)
  assume ok: "keys_ok ty db"
  have r: "r \<in> set (db ''tenants'')" "r ''api_key'' = VText key"
    using Cons by (auto simp: rows_with_def filter_eq_Cons_iff)
  then obtain u where "r ''id'' = VText u" "uuid_in ty u = Some u" using ok by (auto simp: keys_ok_def)
  have "q ''id'' = VText u" if "q \<in> set (rows_with db ''tenants'' ''api_key'' key)" for q
  proof -
    from that have "q \<in> set (db ''tenants'')" "q ''api_key'' = r ''api_key''" using r(2) by (simp_all add: rows_with_def)
    then have "q ''id'' = r ''id''" using ok r(1) unfolding keys_ok_def by blast
    with \<open>r ''id'' = VText u\<close> show ?thesis by simp
  qed
  then have "key_owner ty db key u" using \<open>uuid_in ty u = Some u\<close> by (simp add: key_owner_def)
  then show ?thesis ..
qed

lemma handled_ok:
  assumes ok: "db_ok ty (w_db w)" and h: "handled gl ty msg w w'"
  shows "db_ok ty (w_db w')"
proof -
  have att: "attempts_ok (w_db w')" using handled_keeps(1) [OF h] ok by (simp add: db_ok_def tables_ok_def)
  show ?thesis
  proof (rule handled_cases [OF h])
    fix u r tried f x y
    assume f: "event_effect (row_event r) tried f" and db: "w_db w' = set_rows ''events'' (ev_ID (row_event r)) f
      ((w_db w)(''delivery_attempts'' := x, ''dead_letter_events'' := y))"
    have "keeps_ids f" using f by (auto simp: event_effect_def keeps_ids_def put_status_def put_retry_def)
    then have ids: "keeps_ids (\<lambda>q. if q ''id'' = VText (ev_ID (row_event r)) then f q else q)"
      by (simp add: keeps_ids_def)
    have "event_row_ok q \<Longrightarrow> event_row_ok (f q)" for q using f by (auto simp: event_effect_def)
    then have "event_row_ok q \<Longrightarrow> event_row_ok (if q ''id'' = VText (ev_ID (row_event r)) then f q else q)" for q
      by simp
    from db_ok_mark_events [OF ok ids att this] show ?thesis by (simp add: db set_rows_def update_rows_def)
  qed (use ok in simp)
qed

lemma message_keeps:
  assumes "db_ok ty (w_db w)"
  shows "wp P (processMessage gl s msg) (\<lambda>r w'. kept ty src w w') w"
proof (rule wp_mono [OF processMessage_wp])
  show "bases_ok (w_db w)" using assms tenants_bases by (simp add: db_ok_def tables_ok_def)
  show "kept ty src w w'" if "handled gl ty msg w w'" for r w'
    using handled_ok [OF assms that] evolves_handled [OF that db_ok_keyed [OF assms]] assms
    by (simp add: kept_def db_ok_def tables_ok_def)
qed

lemma tick_keeps: "db_ok ty (w_db w) \<Longrightarrow> 0 \<le> ss_batchSize s \<Longrightarrow>
    wp P (processRetryableEvents gl s) (\<lambda>r w'. kept ty src w w') w"
proof (rule processRetryableEvents_wp [where Q = "\<lambda>r w'. kept ty src w w'"], goal_cases)
  case (2 r)
  then obtain u where "r ''id'' = VText u" "uuid_in ty u = Some u" by (auto simp: db_ok_def tables_ok_def keyed_def)
  then show ?case by (simp add: row_event_def)
next
  case (3 evs w')
  then obtain ms g where g: "w_db w' = (w_db w)(''events'' := map g (w_db w ''events''))"
    "\<And>r. requeued_row gl (ss_publisher s) evs ms r (g r)" by (auto simp: requeued_def)
  have "g r c = r c" if "c \<noteq> ''status''" "c \<noteq> ''updated_at''" for r c
    using g(2) [of r] that by (auto simp: requeued_row_def put_status_def)
  then have "keeps_ids g" "keeps_attempts g" by (auto simp: keeps_ids_def keeps_attempts_def)
  moreover have "attempts_ok (w_db w')"
    by (rule attempts_ok_map [OF _ \<open>keeps_attempts g\<close>, of "w_db w"]) (use 3(1) g(1) in \<open>simp_all add: db_ok_def tables_ok_def\<close>)
  moreover have "event_row_ok r \<Longrightarrow> event_row_ok (g r)" for r
    using g(2) [of r] by (auto simp: requeued_row_def)
  ultimately have "db_ok ty (w_db w')"
    by (intro db_ok_mark_events [OF 3(1), of g]) (simp_all add: g(1))
  then show ?case using evolves_requeued [OF 3(3,4) db_ok_keyed [OF 3(1)]] by (simp add: kept_def)
qed (simp_all add: kept_def)

lemma request_keeps:
  assumes "db_ok ty (w_db w)" "pings_harmless P s"
  shows "wp P (ServeHTTP s rq) (\<lambda>res w'. kept ty (asked P (sv_lib s) rq) w w') w"
proof -
  obtain tid where "key_owner ty (w_db w) (extractAPIKey rq) tid"
    using some_owner assms(1) by (auto simp: db_ok_def tables_ok_def)
  from ServeHTTP_own [OF assms this] show ?thesis by (rule wp_mono) (simp add: kept_def)
qed

lemma perform_keeps:
  assumes "db_ok ty (w_db w)" "pings_harmless P (dp_server d)" "0 \<le> ss_batchSize (dp_scheduler d)"
    and "perform P d a w = (r, w')"
  shows "r = Returns () \<and> kept ty (origin_of P d a) w w'"
proof -
  have "wp P (task d a) (\<lambda>r w'. kept ty (origin_of P d a) w w') w"
    using request_keeps message_keeps tick_keeps assms(1-3)
    by (simp add: task_def origin_of_def split: activity.split)
  from wp_run [OF this assms(4) [unfolded perform_def]] show ?thesis by simp
qed

lemma reached_keeps:
  assumes "reached P d w0 as w" "db_ok ty (w_db w0)" "pings_harmless P (dp_server d)" "0 \<le> ss_batchSize (dp_scheduler d)"
  shows "db_ok ty (w_db w)"
  using assms(1)
proof induction
  case (reached_act as w a r w')
  then show ?case using perform_keeps assms(3,4) unfolding kept_def by blast
qed (use assms(2) in simp_all)

end

text \<open>
  C5: the platform keeps its invariant and never panics. From a database with the invariant
  (the empty one has it), whatever requests are made, messages handled and batches of retries
  published, in whatever order, and whatever fails in between: events belong to the tenants of
  their endpoints, keys to one tenant, tenants keep their limits and events their five
  attempts; and the next activity returns.
\<close>

theorem platform_invariant:
  assumes "backend P rt ty pgnow" "db_ok ty (w_db w0)" "pings_harmless P (dp_server d)"
    and "0 \<le> ss_batchSize (dp_scheduler d)" "reached P d w0 as w" "perform P d a w = (r, w')"
  shows "db_ok ty (w_db w) \<and> r = Returns () \<and> db_ok ty (w_db w')"
  using backend.reached_keeps [OF assms(1,5,2-4)] backend.perform_keeps [OF assms(1) _ assms(3,4,6)] kept_ok by blast

lemma db_ok_empty: "db_ok ty (\<lambda>t. [])"
  by (simp add: db_ok_def tables_ok_def owners_ok_def tenants_ok_def keys_ok_def attempts_ok_def keyed_def rows_typed_def)

text \<open>The processes as their \<^verbatim>\<open>main\<close> functions assemble them.\<close>

definition api_main :: "chi \<Rightarrow> apilib \<Rightarrow> gerr option prog \<Rightarrow> gerr option prog \<Rightarrow> api_response \<Rightarrow> Server" where
  "api_main mux al pool_Ping redis_Ping metrics =
     NewServer mux al \<lparr>pr_topic = TopicEvents\<rparr> NewRateLimiterRepo pool_Ping redis_Ping metrics"

definition dispatcher_main :: DispatcherService where
  "dispatcher_main = NewDispatcherService (NewCircuitBreakerRepo 5 60000000000)"

definition scheduler_main :: SchedulerService where
  "scheduler_main = NewSchedulerService \<lparr>pr_topic = TopicEvents\<rparr>"

definition sample_deployment :: deployment where
  "sample_deployment = \<lparr>dp_server = api_main sim_chi sim_apilib (Ret None) (Ret None) (ch_NotFound sim_chi),
     dp_lib = sim_lib, dp_dispatcher = dispatcher_main, dp_scheduler = scheduler_main\<rparr>"

theorem platform_invariant_witness:
  "(case perform (sim (answering 200)) sample_deployment (Message (event_msg ''e'')) queued_world of (r1, w1) \<Rightarrow>
    case perform (sim (answering 200)) sample_deployment (ApiRequest (sample_request ''POST'' ''/api/v1/events'')) w1 of
      (r2, w2) \<Rightarrow> r2 = Returns () \<and> db_ok sim_types (w_db w2))"
proof -
  obtain r1 w1 where 1: "perform (sim (answering 200)) sample_deployment (Message (event_msg ''e'')) queued_world = (r1, w1)"
    by (rule prod.exhaust)
  obtain r2 w2 where 2: "perform (sim (answering 200)) sample_deployment
      (ApiRequest (sample_request ''POST'' ''/api/v1/events'')) w1 = (r2, w2)" by (rule prod.exhaust)
  have "pings_harmless P (dp_server sample_deployment)" "0 \<le> ss_batchSize (dp_scheduler sample_deployment)" for P
    by (simp_all add: sample_deployment_def api_main_def scheduler_main_def NewSchedulerService_def pings_harmless_def)
  from platform_invariant [OF sim_backend.backend_axioms queued_db_ok this
      reached_act [OF reached_start 1] 2] 1 2
  show ?thesis by simp
qed

text \<open>
  C39: events, endpoints and tenants can be read. In every state the platform reaches, each row of
  these three tables has the types that its repository scans it with, so scanning never fails
  and gives the row's values.
\<close>

theorem reached_rows_scan:
  assumes "backend P rt ty pgnow" "db_ok ty (w_db w0)" "pings_harmless P (dp_server d)"
    and "0 \<le> ss_batchSize (dp_scheduler d)" "reached P d w0 as w"
  shows "(\<forall>r \<in> set (w_db w ''events''). event_Scan (map r eventColumns) = Inr (row_event r))
    \<and> (\<forall>r \<in> set (w_db w ''endpoints''). endpoint_Scan (map r endpointColumns) = Inr (row_endpoint r))
    \<and> (\<forall>r \<in> set (w_db w ''tenants''). tenant_Scan (map r tenantColumns) = Inr (row_tenant r))"
  using backend.reached_keeps [OF assms(1,5,2-4)]
  by (simp add: db_ok_def tables_ok_def rows_typed_def tenants_ok_def list_all_iff event_Scan_row endpoint_Scan_row tenant_Scan_row)

theorem reached_rows_scan_witness:
  "(case perform (sim (answering 200)) sample_deployment Tick queued_world of (r, w) \<Rightarrow>
     list_all (\<lambda>r. event_Scan (map r eventColumns) = Inr (row_event r)) (w_db w ''events''))"
proof -
  obtain r w where 1: "perform (sim (answering 200)) sample_deployment Tick queued_world = (r, w)"
    by (rule prod.exhaust)
  have "pings_harmless P (dp_server sample_deployment)" "0 \<le> ss_batchSize (dp_scheduler sample_deployment)" for P
    by (simp_all add: sample_deployment_def api_main_def scheduler_main_def NewSchedulerService_def pings_harmless_def)
  from reached_rows_scan [OF sim_backend.backend_axioms queued_db_ok this reached_act [OF reached_start 1]] 1
  show ?thesis by (simp add: list_all_iff)
qed

subsection \<open>Shutting down\<close>

text \<open>
  The world after some rounds of a worker's loop. A loop ends in the first round that stops; a
  round of the dispatcher stops when the reader returns an error and the context is cancelled
  by then, one of the scheduler when its \<^verbatim>\<open>select\<close> takes the cancelled context.
\<close>

definition after_rounds :: "platform \<Rightarrow> bool prog \<Rightarrow> nat \<Rightarrow> world \<Rightarrow> world" where
  "after_rounds P m i w = ((\<lambda>v. snd (run P m v)) ^^ i) w"

lemma after_rounds_Suc: "after_rounds P m (Suc i) w = after_rounds P m i (snd (run P m w))"
  by (simp add: after_rounds_def funpow_Suc_right del: funpow.simps)

lemma after_rounds_0 [simp]: "after_rounds P m 0 w = w"
  by (simp add: after_rounds_def)

text \<open>Each round takes time.\<close>

lemma after_rounds_tick:
  assumes "\<And>v. w_tick v < w_tick (snd (run P m v))"
  shows "w_tick w + i \<le> w_tick (after_rounds P m i w)"
proof (induction i arbitrary: w)
  case (Suc i)
  from Suc [of "snd (run P m w)"] assms [of w] show ?case by (simp add: after_rounds_Suc)
qed simp

text \<open>A loop whose rounds return and keep an invariant ends in the first round that stops.\<close>

lemma loop_ends:
  assumes zero: "L 0 = Ret False" and suc: "\<And>n. L (Suc n) = bind m (\<lambda>go. if go then L n else Ret True)"
    and round: "\<And>v. I v \<Longrightarrow> wp P m (\<lambda>go v'. I v') v"
  shows "I w \<Longrightarrow> wp P (L n) (\<lambda>stopped w'. (stopped \<longleftrightarrow> (\<exists>i<n. fst (run P m (after_rounds P m i w)) = Returns False)) \<and> I w') w"
proof (induction n arbitrary: w)
  case (Suc n)
  obtain go v where r: "run P m w = (Returns go, v)" "I v"
    using round [OF Suc.prems] by (auto simp: wp_iff)
  have split: "(\<exists>i < Suc n. fst (run P m (after_rounds P m i w)) = Returns False) \<longleftrightarrow>
      \<not> go \<or> (\<exists>i<n. fst (run P m (after_rounds P m i v)) = Returns False)"
    unfolding Ex_less_Suc2 by (simp add: r after_rounds_Suc)
  show ?case
  proof (cases go)
    case True
    with Suc.IH [OF r(2)] show ?thesis by (simp add: suc wp_def r(1) run_bind split split: prod.splits outcome.splits)
  next
    case False
    then show ?thesis using r(2) by (simp add: suc wp_def r(1) run_bind split)
  qed
qed (simp add: zero)

lemma dispatch_round_stops:
  "fst (run P (dispatch_round gl s) v) = Returns False \<longleftrightarrow>
     (\<exists>e. pl_fetch P (w_tick v) = Inl e) \<and> pl_cancelled P (Suc (w_tick v))"
  by (cases "pl_fetch P (w_tick v)")
    (simp_all add: dispatch_round_def run_bind ans_commit_def split: prod.splits outcome.splits option.splits)

lemma scheduler_tick_stops: "fst (run P (scheduler_tick gl s) v) = Returns False \<longleftrightarrow> pl_cancelled P (w_tick v)"
  by (simp add: scheduler_tick_def run_bind split: prod.splits outcome.splits)

lemma rounds_take_time:
  "w_tick v < w_tick (snd (run P (dispatch_round gl s) v))" "w_tick v < w_tick (snd (run P (scheduler_tick gl sc) v))"
proof -
  have later: "w_tick v < w_tick (snd (run P m (tick v)))" for m :: "bool prog"
    using run_tick_mono [of P m "tick v"] by (cases "run P m (tick v)") simp
  show "w_tick v < w_tick (snd (run P (dispatch_round gl s) v))" unfolding dispatch_round_def run.simps by (rule later)
  show "w_tick v < w_tick (snd (run P (scheduler_tick gl sc) v))" unfolding scheduler_tick_def run.simps by (rule later)
qed

lemma wp_later: "wp P m Q w \<Longrightarrow> wp P m (\<lambda>a w'. Q a w' \<and> w_tick w \<le> w_tick w') w"
  by (auto simp: wp_iff dest: run_tick_mono)

context backend
begin

lemma dispatch_round_ok: "db_ok ty (w_db v) \<Longrightarrow> wp P (dispatch_round gl s) (\<lambda>go v'. db_ok ty (w_db v')) v"
  unfolding dispatch_round_def
  by (auto simp: wp_KafkaCommit split: sum.split option.split
      intro!: wp_mono [OF message_keeps [where src = "\<lambda>_ _. False"]] dest: kept_ok)

lemma scheduler_tick_ok:
  "0 \<le> ss_batchSize s \<Longrightarrow> db_ok ty (w_db v) \<Longrightarrow> wp P (scheduler_tick gl s) (\<lambda>go v'. db_ok ty (w_db v')) v"
  unfolding scheduler_tick_def
  by (auto intro!: wp_mono [OF tick_keeps [where src = "\<lambda>_ _. False"]] dest: kept_ok)

lemma dispatcher_loop:
  "db_ok ty (w_db w) \<Longrightarrow> wp P (dispatcher_Start gl s n) (\<lambda>stopped w'. (stopped \<longleftrightarrow>
     (\<exists>i<n. fst (run P (dispatch_round gl s) (after_rounds P (dispatch_round gl s) i w)) = Returns False))
     \<and> db_ok ty (w_db w')) w"
  by (rule loop_ends [where I = "\<lambda>v. db_ok ty (w_db v)"]) (simp_all add: dispatch_round_ok)

lemma scheduler_loop:
  "0 \<le> ss_batchSize s \<Longrightarrow> db_ok ty (w_db w) \<Longrightarrow> wp P (scheduler_Start gl s n) (\<lambda>stopped w'. (stopped \<longleftrightarrow>
     (\<exists>i<n. fst (run P (scheduler_tick gl s) (after_rounds P (scheduler_tick gl s) i w)) = Returns False))
     \<and> db_ok ty (w_db w')) w"
  by (rule loop_ends [where I = "\<lambda>v. db_ok ty (w_db v)"]) (simp_all add: scheduler_tick_ok)

end

text \<open>A script whose context is cancelled after nine requests.\<close>

definition closing :: script where
  "closing = (answering 200)\<lparr>sc_fetch := \<lambda>n. if n < 9 then Inr (event_msg ''e'') else Inl sim_error,
     sc_cancelled := \<lambda>n. 9 \<le> n\<rparr>"

end
