(* ===== verification/Processes.thy ===== *)
theory Processes
  imports System Config
begin

text \<open>
  The processes themselves: \<^verbatim>\<open>cmd/api\<close>, \<^verbatim>\<open>cmd/dispatcher\<close> and \<^verbatim>\<open>cmd/scheduler\<close>, from the
  loading of the settings to the exit code, with the files that open their connections
  (\<^verbatim>\<open>postgres/db.go\<close>, \<^verbatim>\<open>redis/client.go\<close>, \<^verbatim>\<open>kafka/consumer.go\<close>, \<^verbatim>\<open>telemetry/tracing.go\<close>) and
  their logger (\<^verbatim>\<open>pkg/logger\<close>). What the libraries answer while a process starts is a parameter,
  \<open>syslib\<close>; the work between start and end is the \<open>prog\<close> of the worker, run on a platform.
\<close>

subsection \<open>The life of a process\<close>

datatype log_level = LevelDebug | LevelInfo | LevelWarn | LevelError

text \<open>The settings of the reader and the writer of Kafka (times in nanoseconds).\<close>

datatype acks = RequireNone | RequireOne | RequireAll

datatype balancer = Hash | OtherBalancer

record ReaderConfig =
  rc_Brokers :: "string list"
  rc_Topic :: string
  rc_GroupID :: string
  rc_MinBytes :: int
  rc_MaxBytes :: int

record WriterConfig =
  wc_Addr :: "string list"
  wc_Topic :: string
  wc_Balancer :: balancer
  wc_BatchTimeout :: int
  wc_WriteTimeout :: int
  wc_ReadTimeout :: int
  wc_RequiredAcks :: acks

datatype resource = Tracing "string option" | Pool | RedisConn | Reader ReaderConfig | Writer WriterConfig

datatype act = Printed log_level string "gerr option" | Opened resource | Closed resource

record process =
  pc_trace :: "act list"          \<comment> \<open>oldest first\<close>
  pc_deferred :: "resource list"  \<comment> \<open>the last deferred call first\<close>
  pc_world :: world

text \<open>
  A part of \<^verbatim>\<open>main\<close> goes on with a value, has called \<^verbatim>\<open>os.Exit\<close>, has panicked, or is still
  in its loop.
\<close>

datatype 'a going = Going 'a | OsExit int | Crashed string | Running

type_synonym 'a proc = "process \<Rightarrow> 'a going \<times> process"

definition proc_ret :: "'a \<Rightarrow> 'a proc" where
  "proc_ret a = (\<lambda>st. (Going a, st))"

definition proc_bind :: "'a proc \<Rightarrow> ('a \<Rightarrow> 'b proc) \<Rightarrow> 'b proc" where
  "proc_bind m f = (\<lambda>st. case m st of
       (Going a, st') \<Rightarrow> f a st'
     | (OsExit c, st') \<Rightarrow> (OsExit c, st')
     | (Crashed s, st') \<Rightarrow> (Crashed s, st')
     | (Running, st') \<Rightarrow> (Running, st'))"

definition os_Exit :: "int \<Rightarrow> 'a proc" where
  "os_Exit c = (\<lambda>st. (OsExit c, st))"

definition emit :: "act \<Rightarrow> unit proc" where
  "emit a = (\<lambda>st. (Going (), st\<lparr>pc_trace := pc_trace st @ [a]\<rparr>))"

definition defer_close :: "resource \<Rightarrow> unit proc" where
  "defer_close r = (\<lambda>st. (Going (), st\<lparr>pc_deferred := r # pc_deferred st\<rparr>))"

definition work :: "platform \<Rightarrow> 'a prog \<Rightarrow> 'a proc" where
  "work P m = (\<lambda>st. case run P m (pc_world st) of
       (Returns a, w) \<Rightarrow> (Going a, st\<lparr>pc_world := w\<rparr>)
     | (Panics s, w) \<Rightarrow> (Crashed s, st\<lparr>pc_world := w\<rparr>))"

text \<open>
  The end: the deferred calls run, last first, when \<^verbatim>\<open>main\<close> returns and when it panics (exit
  code 2), and are skipped by \<^verbatim>\<open>os.Exit\<close>.
\<close>

datatype ending = Ended int | Unfinished

definition run_deferred :: "process \<Rightarrow> process" where
  "run_deferred st = st\<lparr>pc_trace := pc_trace st @ map Closed (pc_deferred st), pc_deferred := []\<rparr>"

definition finish :: "unit going \<times> process \<Rightarrow> ending \<times> process" where
  "finish e = (case e of
       (Going u, st) \<Rightarrow> (Ended 0, run_deferred st)
     | (OsExit c, st) \<Rightarrow> (Ended c, st)
     | (Crashed s, st) \<Rightarrow> (Ended 2, run_deferred st)
     | (Running, st) \<Rightarrow> (Unfinished, st))"

definition exec_main :: "unit proc \<Rightarrow> world \<Rightarrow> ending \<times> process" where
  "exec_main m w = finish (m \<lparr>pc_trace = [], pc_deferred = [], pc_world = w\<rparr>)"

subsection \<open>Logger\<close>

record Logger =
  lg_Level :: log_level
  lg_AddSource :: bool

definition logger_New :: "Config \<Rightarrow> Logger" where
  "logger_New cfg =
     \<lparr>lg_Level =
        (if cf_LogLevel cfg = ''debug'' then LevelDebug
         else if cf_LogLevel cfg = ''warn'' then LevelWarn
         else if cf_LogLevel cfg = ''error'' then LevelError
         else LevelInfo),
      lg_AddSource = (cf_Environment cfg = ''development'')\<rparr>"

text \<open>\<^verbatim>\<open>slog\<close> orders the levels by these numbers and drops a line below the handler's level.\<close>

fun level_number :: "log_level \<Rightarrow> int" where
  "level_number LevelDebug = -4"
| "level_number LevelInfo = 0"
| "level_number LevelWarn = 4"
| "level_number LevelError = 8"

definition log_line :: "Logger \<Rightarrow> log_level \<Rightarrow> string \<Rightarrow> gerr option \<Rightarrow> unit proc" where
  "log_line lg lv msg err =
     (if level_number (lg_Level lg) \<le> level_number lv then emit (Printed lv msg err) else proc_ret ())"

lemma errors_are_logged: "log_line (logger_New cfg) LevelError msg err = emit (Printed LevelError msg err)"
  by (simp add: log_line_def logger_New_def)

lemma level_le: "level_number lv \<le> 8"
  by (cases lv) simp_all

text \<open>\<^verbatim>\<open>log.Error(msg, err); os.Exit(1)\<close>.\<close>

definition fatal :: "Logger \<Rightarrow> string \<Rightarrow> gerr \<Rightarrow> 'a proc" where
  "fatal lg msg err = proc_bind (log_line lg LevelError msg (Some err)) (\<lambda>_. os_Exit 1)"

subsection \<open>Connections\<close>

record syslib =
  sl_env :: environment
  sl_otlp_New :: "string \<Rightarrow> gerr option"            \<comment> \<open>\<^verbatim>\<open>otlptracegrpc.New\<close>, by endpoint\<close>
  sl_resource_New :: "string \<Rightarrow> gerr option"        \<comment> \<open>\<^verbatim>\<open>sdkresource.New\<close>, by service\<close>
  sl_pg_ParseConfig :: "string \<Rightarrow> gerr option"
  sl_pg_NewWithConfig :: "string \<Rightarrow> gerr option"
  sl_pg_Ping :: "string \<Rightarrow> gerr option"
  sl_redis_ParseURL :: "string \<Rightarrow> gerr option"
  sl_redis_Ping :: "string \<Rightarrow> gerr option"
  sl_net_Listen :: "string \<Rightarrow> gerr option"          \<comment> \<open>\<^verbatim>\<open>net.Listen\<close> on an address\<close>
  sl_grpc_Serve :: "gerr option"                   \<comment> \<open>how the gRPC server ends before the signal, if it does\<close>
  sl_http_serve :: "Server \<Rightarrow> world \<Rightarrow> gerr option \<times> world"  \<comment> \<open>\<^verbatim>\<open>ListenAndServe\<close> until it fails or the signal comes\<close>
  sl_http_Shutdown :: "gerr option"

text \<open>The shutdown function is that of the exporter, or one that does nothing.\<close>

definition InitTracerProvider :: "syslib \<Rightarrow> string \<Rightarrow> string \<Rightarrow> Logger \<Rightarrow> (gerr + resource) proc" where
  "InitTracerProvider sl endpoint serviceName lg =
     (if endpoint = ''''
      then proc_bind (log_line lg LevelInfo ''OTLP endpoint not configured, tracing disabled'' None)
        (\<lambda>_. proc_ret (Inr (Tracing None)))
      else case sl_otlp_New sl endpoint of
        Some err \<Rightarrow> proc_ret (Inl (Wrapf ''create OTLP exporter: '' err ''''))
      | None \<Rightarrow> (case sl_resource_New sl serviceName of
          Some err \<Rightarrow> proc_ret (Inl (Wrapf ''create resource: '' err ''''))
        | None \<Rightarrow>
            proc_bind (emit (Opened (Tracing (Some endpoint)))) (\<lambda>_.
            proc_bind (log_line lg LevelInfo ''tracing initialized'' None) (\<lambda>_.
            proc_ret (Inr (Tracing (Some endpoint)))))))"

definition NewPool :: "syslib \<Rightarrow> string \<Rightarrow> (gerr + resource) proc" where
  "NewPool sl dbURL = (case sl_pg_ParseConfig sl dbURL of
       Some err \<Rightarrow> proc_ret (Inl (Wrapf ''parse db config: '' err ''''))
     | None \<Rightarrow> (case sl_pg_NewWithConfig sl dbURL of
         Some err \<Rightarrow> proc_ret (Inl (Wrapf ''create pool: '' err ''''))
       | None \<Rightarrow> proc_bind (emit (Opened Pool)) (\<lambda>_. case sl_pg_Ping sl dbURL of
           Some err \<Rightarrow> proc_bind (emit (Closed Pool)) (\<lambda>_. proc_ret (Inl (Wrapf ''ping db: '' err '''')))
         | None \<Rightarrow> proc_ret (Inr Pool))))"

definition redis_NewClient :: "syslib \<Rightarrow> string \<Rightarrow> (gerr + resource) proc" where
  "redis_NewClient sl redisURL = (case sl_redis_ParseURL sl redisURL of
       Some err \<Rightarrow> proc_ret (Inl (Wrapf ''parse redis url: '' err ''''))
     | None \<Rightarrow> proc_bind (emit (Opened RedisConn)) (\<lambda>_. case sl_redis_Ping sl redisURL of
         Some err \<Rightarrow> proc_bind (emit (Closed RedisConn)) (\<lambda>_. proc_ret (Inl (Wrapf ''ping redis: '' err '''')))
       | None \<Rightarrow> proc_ret (Inr RedisConn)))"

text \<open>The reader and the writers of Kafka are made without an answer of the broker.\<close>

definition NewConsumer :: "string list \<Rightarrow> string \<Rightarrow> string \<Rightarrow> resource proc" where
  "NewConsumer brokers topic groupID =
     (let r = Reader \<lparr>rc_Brokers = brokers, rc_Topic = topic, rc_GroupID = groupID,
                rc_MinBytes = 10000, rc_MaxBytes = 10000000\<rparr>
      in proc_bind (emit (Opened r)) (\<lambda>_. proc_ret r))"

definition NewProducer :: "string list \<Rightarrow> string \<Rightarrow> resource proc" where
  "NewProducer brokers topic =
     (let w = Writer \<lparr>wc_Addr = brokers, wc_Topic = topic, wc_Balancer = Hash,
                wc_BatchTimeout = 10000000, wc_WriteTimeout = 10000000000, wc_ReadTimeout = 10000000000,
                wc_RequiredAcks = RequireOne\<rparr>
      in proc_bind (emit (Opened w)) (\<lambda>_. proc_ret w))"

text \<open>What the dispatcher uses of its reader; a round of its loop is made of these calls.\<close>

definition FetchMessage :: "(gerr + kmessage) prog" where
  "FetchMessage = KafkaFetch Ret"

definition CommitMessages :: "kmessage \<Rightarrow> gerr option prog" where
  "CommitMessages msg = KafkaCommit msg Ret"

lemma dispatch_round_consumer:
  "dispatch_round gl s = bind FetchMessage (\<lambda>f. case f of
     Inl err \<Rightarrow> Cancelled (\<lambda>stop. Ret (\<not> stop))
   | Inr msg \<Rightarrow> bind (processMessage gl s msg) (\<lambda>err. bind (CommitMessages msg) (\<lambda>cerr. Ret True)))"
  by (simp add: dispatch_round_def FetchMessage_def CommitMessages_def cong: sum.case_cong)

subsection \<open>Main functions\<close>

text \<open>The common pattern: make it, or log and exit; then defer its release.\<close>

definition acquire :: "Logger \<Rightarrow> string \<Rightarrow> (gerr + resource) proc \<Rightarrow> unit proc" where
  "acquire lg msg m = proc_bind m (\<lambda>r. case r of
       Inl err \<Rightarrow> fatal lg msg err
     | Inr res \<Rightarrow> defer_close res)"

definition load_config :: "syslib \<Rightarrow> Config proc" where
  "load_config sl = (case Load (sl_env sl) of
       Inl err \<Rightarrow> proc_bind (emit (Printed LevelError ''failed to load config'' (Some err))) (\<lambda>_. os_Exit 1)
     | Inr cfg \<Rightarrow> proc_ret cfg)"

definition acquire_tracer :: "syslib \<Rightarrow> Config \<Rightarrow> unit proc" where
  "acquire_tracer sl cfg = acquire (logger_New cfg) ''failed to init tracer''
     (InitTracerProvider sl (cf_OTLPEndpoint cfg) (cf_ServiceName cfg) (logger_New cfg))"

definition acquire_pool :: "syslib \<Rightarrow> Config \<Rightarrow> unit proc" where
  "acquire_pool sl cfg = acquire (logger_New cfg) ''failed to connect to database'' (NewPool sl (cf_DBURL cfg))"

definition acquire_redis :: "syslib \<Rightarrow> Config \<Rightarrow> unit proc" where
  "acquire_redis sl cfg = acquire (logger_New cfg) ''failed to connect to redis'' (redis_NewClient sl (cf_RedisURL cfg))"

definition open_writer :: "Config \<Rightarrow> string \<Rightarrow> unit proc" where
  "open_writer cfg topic = proc_bind (NewProducer [cf_KafkaBrokers cfg] topic) defer_close"

definition open_reader :: "Config \<Rightarrow> string \<Rightarrow> string \<Rightarrow> unit proc" where
  "open_reader cfg topic groupID = proc_bind (NewConsumer [cf_KafkaBrokers cfg] topic groupID) defer_close"

text \<open>
  The loops of the workers return \<^verbatim>\<open>nil\<close> when they return; \<^verbatim>\<open>main\<close> looks at the error and goes on
  to its last line. While they have not returned the process is running. Beside them a goroutine
  waits for the signal, prints a line and cancels the context; \<open>signalled\<close> says whether it has
  when the loop is last watched, and it has when the loop has returned.
\<close>

definition context_Canceled :: gerr where
  "context_Canceled = PlainErr ''context canceled''"

definition Start_result :: "bool prog \<Rightarrow> gerr option option prog" where
  "Start_result loop = bind loop (\<lambda>stopped. Ret (if stopped then Some None else None))"

definition work_loop :: "platform \<Rightarrow> bool \<Rightarrow> Logger \<Rightarrow> string \<Rightarrow> string \<Rightarrow> bool prog \<Rightarrow> unit proc" where
  "work_loop P signalled lg shutting failed loop =
     proc_bind (work P (Start_result loop)) (\<lambda>result.
     proc_bind (if signalled \<or> result \<noteq> None then log_line lg LevelInfo shutting None else proc_ret ()) (\<lambda>_.
     case result of
       None \<Rightarrow> (\<lambda>st. (Running, st))
     | Some None \<Rightarrow> proc_ret ()
     | Some (Some err) \<Rightarrow> if \<not> errors_is err context_Canceled then fatal lg failed err else proc_ret ()))"

definition dispatcher_process :: "syslib \<Rightarrow> golib \<Rightarrow> platform \<Rightarrow> bool \<Rightarrow> nat \<Rightarrow> unit proc" where
  "dispatcher_process sl gl P signalled rounds =
     proc_bind (load_config sl) (\<lambda>loaded.
     let cfg = loaded\<lparr>cf_ServiceName := ''webhook-dispatcher''\<rparr> in
     proc_bind (acquire_tracer sl cfg) (\<lambda>_.
     proc_bind (acquire_pool sl cfg) (\<lambda>_.
     proc_bind (acquire_redis sl cfg) (\<lambda>_.
     proc_bind (open_reader cfg TopicEvents ''dispatcher-group'') (\<lambda>_.
     proc_bind (open_writer cfg TopicRetries) (\<lambda>_.
     proc_bind (work_loop P signalled (logger_New cfg) ''shutting down dispatcher'' ''dispatcher error''
       (dispatcher_Start gl dispatcher_main rounds)) (\<lambda>_.
     log_line (logger_New cfg) LevelInfo ''dispatcher stopped gracefully'' None)))))))"

definition scheduler_process :: "syslib \<Rightarrow> golib \<Rightarrow> platform \<Rightarrow> bool \<Rightarrow> nat \<Rightarrow> unit proc" where
  "scheduler_process sl gl P signalled ticks =
     proc_bind (load_config sl) (\<lambda>loaded.
     let cfg = loaded\<lparr>cf_ServiceName := ''webhook-scheduler''\<rparr> in
     proc_bind (acquire_tracer sl cfg) (\<lambda>_.
     proc_bind (acquire_pool sl cfg) (\<lambda>_.
     proc_bind (open_writer cfg TopicEvents) (\<lambda>_.
     proc_bind (work_loop P signalled (logger_New cfg) ''shutting down scheduler'' ''scheduler error''
       (scheduler_Start gl scheduler_main ticks)) (\<lambda>_.
     log_line (logger_New cfg) LevelInfo ''scheduler stopped gracefully'' None)))))"

text \<open>
  The API runs its two servers as goroutines beside \<^verbatim>\<open>main\<close>, which waits for the signal. A goroutine
  is a list of steps, each with the rest after it; the steps of all are taken in the order given,
  \<open>0\<close> for \<^verbatim>\<open>main\<close>. The process ends with \<^verbatim>\<open>main\<close>, or when one of them calls \<^verbatim>\<open>os.Exit\<close>; it is
  running when the order is used up.
\<close>

datatype goroutine = Done | Step "process \<Rightarrow> goroutine going \<times> process"

fun goroutines :: "nat list \<Rightarrow> goroutine \<Rightarrow> goroutine list \<Rightarrow> unit proc" where
  "goroutines order Done gs = proc_ret ()"
| "goroutines [] (Step m) gs = (\<lambda>st. (Running, st))"
| "goroutines (0 # order) (Step m) gs = proc_bind m (\<lambda>main. goroutines order main gs)"
| "goroutines (Suc i # order) (Step m) gs =
     (if i < length gs then
        (case gs ! i of
           Done \<Rightarrow> goroutines order (Step m) gs
         | Step g \<Rightarrow> proc_bind g (\<lambda>rest. goroutines order (Step m) (gs[i := rest])))
      else goroutines order (Step m) gs)"

definition StartGRPCServer :: "syslib \<Rightarrow> string \<Rightarrow> Logger \<Rightarrow> (gerr option \<Rightarrow> goroutine) \<Rightarrow> goroutine" where
  "StartGRPCServer sl port lg k = (case sl_net_Listen sl ('':'' @ port) of
       Some err \<Rightarrow> k (Some (Wrapf ''grpc listen: '' err ''''))
     | None \<Rightarrow> Step (proc_bind (log_line lg LevelInfo ''starting gRPC server'' None) (\<lambda>_.
         proc_ret (Step (proc_ret (k (sl_grpc_Serve sl)))))))"

text \<open>Its failure is only logged; that of the HTTP server ends the process.\<close>

definition serve_grpc :: "syslib \<Rightarrow> Config \<Rightarrow> goroutine" where
  "serve_grpc sl cfg = StartGRPCServer sl (cf_GRPCPort cfg) (logger_New cfg) (\<lambda>r. case r of
       Some err \<Rightarrow> Step (proc_bind (log_line (logger_New cfg) LevelError ''grpc server error'' (Some err)) (\<lambda>_. proc_ret Done))
     | None \<Rightarrow> Done)"

definition listen_http :: "syslib \<Rightarrow> Config \<Rightarrow> Server \<Rightarrow> goroutine" where
  "listen_http sl cfg srv = Step (\<lambda>st.
     case sl_http_serve sl srv (pc_world st) of
       (None, w) \<Rightarrow> (Going Done, st\<lparr>pc_world := w\<rparr>)
     | (Some err, w) \<Rightarrow> fatal (logger_New cfg) ''server error'' err (st\<lparr>pc_world := w\<rparr>))"

definition serve_http :: "syslib \<Rightarrow> Config \<Rightarrow> Server \<Rightarrow> goroutine" where
  "serve_http sl cfg srv =
     Step (proc_bind (log_line (logger_New cfg) LevelInfo ''starting api server'' None) (\<lambda>_.
       proc_ret (listen_http sl cfg srv)))"

definition stopped_http :: "Config \<Rightarrow> goroutine" where
  "stopped_http cfg =
     Step (proc_bind (log_line (logger_New cfg) LevelInfo ''server stopped gracefully'' None) (\<lambda>_. proc_ret Done))"

definition close_http :: "syslib \<Rightarrow> Config \<Rightarrow> goroutine" where
  "close_http sl cfg = Step (case sl_http_Shutdown sl of
       Some err \<Rightarrow> fatal (logger_New cfg) ''server forced to shutdown'' err
     | None \<Rightarrow> proc_ret (stopped_http cfg))"

definition shut_down_http :: "syslib \<Rightarrow> Config \<Rightarrow> goroutine" where
  "shut_down_http sl cfg =
     Step (proc_bind (log_line (logger_New cfg) LevelInfo ''shutting down server'' None) (\<lambda>_.
       proc_ret (close_http sl cfg)))"

definition api_process :: "syslib \<Rightarrow> Server \<Rightarrow> nat list \<Rightarrow> unit proc" where
  "api_process sl srv order =
     proc_bind (load_config sl) (\<lambda>cfg.
     proc_bind (acquire_tracer sl cfg) (\<lambda>_.
     proc_bind (acquire_pool sl cfg) (\<lambda>_.
     proc_bind (acquire_redis sl cfg) (\<lambda>_.
     proc_bind (open_writer cfg TopicEvents) (\<lambda>_.
     goroutines order (shut_down_http sl cfg) [serve_http sl cfg srv, serve_grpc sl cfg])))))"

subsection \<open>Starting up\<close>

text \<open>What is open after some acts, the last opened first; the tracer that does nothing holds nothing.\<close>

fun still_open :: "act list \<Rightarrow> resource list \<Rightarrow> resource list" where
  "still_open [] rs = rs"
| "still_open (Opened r # tr) rs = still_open tr (r # rs)"
| "still_open (Closed r # tr) rs = still_open tr (remove1 r rs)"
| "still_open (Printed lv msg err # tr) rs = still_open tr rs"

lemma still_open_append [simp]: "still_open (tr @ tr') rs = still_open tr' (still_open tr rs)"
  by (induction tr rs rule: still_open.induct) auto

definition held :: "process \<Rightarrow> resource list" where
  "held st = still_open (pc_trace st) []"

definition tracked :: "process \<Rightarrow> bool" where
  "tracked st \<longleftrightarrow> held st = filter (\<lambda>r. r \<noteq> Tracing None) (pc_deferred st)"

definition reports_error :: "process \<Rightarrow> bool" where
  "reports_error st \<longleftrightarrow> (\<exists>tr msg err. pc_trace st = tr @ [Printed LevelError msg (Some err)])"

text \<open>
  A part of the start: it touches no service's state, keeps track of what it opens, and goes on
  exactly when \<open>ok\<close>; otherwise it reports an error and exits with 1.
\<close>

definition starts :: "'a proc \<Rightarrow> bool \<Rightarrow> bool" where
  "starts m ok \<longleftrightarrow> (\<forall>st. tracked st \<longrightarrow> (case m st of (r, st') \<Rightarrow>
     tracked st' \<and> pc_world st' = pc_world st
     \<and> (if ok then \<exists>a. r = Going a else r = OsExit 1 \<and> reports_error st')))"

text \<open>A connection: made and handed over, or not made and nothing left open.\<close>

definition connects :: "(gerr + resource) proc \<Rightarrow> bool \<Rightarrow> bool" where
  "connects m ok \<longleftrightarrow> (\<forall>st. case m st of (r, st') \<Rightarrow>
     pc_world st' = pc_world st \<and> pc_deferred st' = pc_deferred st
     \<and> (if ok then \<exists>res. r = Going (Inr res) \<and> held st' = (if res = Tracing None then [] else [res]) @ held st
        else (\<exists>e. r = Going (Inl e)) \<and> held st' = held st))"

named_theorems proc_defs
lemmas [proc_defs] = proc_ret_def proc_bind_def os_Exit_def emit_def defer_close_def log_line_def

lemma proc_bind_ret [simp]: "proc_bind (proc_ret a) f = f a"
  by (simp add: proc_bind_def proc_ret_def)

lemma starts_bind:
  assumes "starts m ok1" "\<And>a. starts (f a) ok2"
  shows "starts (proc_bind m f) (ok1 \<and> ok2)"
  unfolding starts_def
proof (intro allI impI)
  fix st assume tr: "tracked st"
  obtain r st1 where m: "m st = (r, st1)" by (rule prod.exhaust)
  have 1: "tracked st1 \<and> pc_world st1 = pc_world st
      \<and> (if ok1 then \<exists>a. r = Going a else r = OsExit 1 \<and> reports_error st1)"
    using assms(1) tr m by (auto simp: starts_def)
  show "case proc_bind m f st of (r, st') \<Rightarrow> tracked st' \<and> pc_world st' = pc_world st
      \<and> (if ok1 \<and> ok2 then \<exists>a. r = Going a else r = OsExit 1 \<and> reports_error st')"
  proof (cases ok1)
    case True
    with 1 obtain a where a: "r = Going a" by auto
    from spec [OF assms(2) [of a, unfolded starts_def], of st1] 1 True show ?thesis
      by (auto simp: proc_bind_def m a split: prod.splits)
  qed (use 1 in \<open>auto simp: proc_bind_def m\<close>)
qed

lemma starts_log: "starts (log_line lg lv msg err) True"
  by (auto simp: starts_def tracked_def held_def proc_defs)

lemma starts_fatal: "starts (fatal (logger_New cfg) msg err) False"
  by (auto simp: starts_def tracked_def held_def reports_error_def fatal_def errors_are_logged emit_def proc_bind_def os_Exit_def)

lemma starts_defer:
  assumes "connects m ok"
  shows "starts (acquire (logger_New cfg) msg m) ok"
  unfolding starts_def
proof (intro allI impI)
  fix st assume tr: "tracked st"
  obtain r st1 where m: "m st = (r, st1)" by (rule prod.exhaust)
  note made = spec [OF assms [unfolded connects_def], of st, unfolded m prod.case]
  show "case acquire (logger_New cfg) msg m st of (r, st') \<Rightarrow> tracked st' \<and> pc_world st' = pc_world st
      \<and> (if ok then \<exists>a. r = Going a else r = OsExit 1 \<and> reports_error st')"
  proof (cases ok)
    case True
    with made tr show ?thesis
      by (auto simp: acquire_def proc_bind_def m defer_close_def tracked_def held_def)
  next
    case False
    with made obtain e where e: "r = Going (Inl e)" by auto
    from False made tr have "tracked st1" by (simp add: tracked_def)
    with spec [OF starts_fatal [of cfg msg e, unfolded starts_def], of st1] False made show ?thesis
      by (auto simp: acquire_def proc_bind_def m e split: prod.splits)
  qed
qed

text \<open>When each connection is made.\<close>

definition tracer_ok :: "syslib \<Rightarrow> Config \<Rightarrow> bool" where
  "tracer_ok sl cfg \<longleftrightarrow> cf_OTLPEndpoint cfg = ''''
     \<or> sl_otlp_New sl (cf_OTLPEndpoint cfg) = None \<and> sl_resource_New sl (cf_ServiceName cfg) = None"

definition pool_ok :: "syslib \<Rightarrow> Config \<Rightarrow> bool" where
  "pool_ok sl cfg \<longleftrightarrow> sl_pg_ParseConfig sl (cf_DBURL cfg) = None
     \<and> sl_pg_NewWithConfig sl (cf_DBURL cfg) = None \<and> sl_pg_Ping sl (cf_DBURL cfg) = None"

definition redis_ok :: "syslib \<Rightarrow> Config \<Rightarrow> bool" where
  "redis_ok sl cfg \<longleftrightarrow> sl_redis_ParseURL sl (cf_RedisURL cfg) = None \<and> sl_redis_Ping sl (cf_RedisURL cfg) = None"

lemma InitTracerProvider_connects:
  "connects (InitTracerProvider sl (cf_OTLPEndpoint cfg) (cf_ServiceName cfg) lg) (tracer_ok sl cfg)"
  by (auto simp: connects_def InitTracerProvider_def tracer_ok_def held_def proc_defs split: option.split)

lemma NewPool_connects: "connects (NewPool sl (cf_DBURL cfg)) (pool_ok sl cfg)"
  by (auto simp: connects_def NewPool_def pool_ok_def held_def proc_defs split: option.split)

lemma redis_NewClient_connects: "connects (redis_NewClient sl (cf_RedisURL cfg)) (redis_ok sl cfg)"
  by (auto simp: connects_def redis_NewClient_def redis_ok_def held_def proc_defs split: option.split)

lemma starts_acquire:
  "starts (acquire_tracer sl cfg) (tracer_ok sl cfg)" "starts (acquire_pool sl cfg) (pool_ok sl cfg)"
  "starts (acquire_redis sl cfg) (redis_ok sl cfg)"
  unfolding acquire_tracer_def acquire_pool_def acquire_redis_def
  by (rule starts_defer InitTracerProvider_connects NewPool_connects redis_NewClient_connects)+

lemma starts_open: "starts (open_writer c t) True" "starts (open_reader c t g) True"
  by (auto simp: starts_def open_writer_def open_reader_def NewProducer_def NewConsumer_def Let_def tracked_def held_def proc_defs)

lemma starts_cases:
  assumes "starts m ok" "tracked st"
  obtains a st1 where ok "m st = (Going a, st1)" "tracked st1" "pc_world st1 = pc_world st"
  | st1 where "\<not> ok" "m st = (OsExit 1, st1)" "tracked st1" "pc_world st1 = pc_world st" "reports_error st1"
proof -
  obtain r st1 where m: "m st = (r, st1)" by (rule prod.exhaust)
  with assms have "tracked st1 \<and> pc_world st1 = pc_world st
      \<and> (if ok then \<exists>a. r = Going a else r = OsExit 1 \<and> reports_error st1)"
    by (auto simp: starts_def)
  with m that show ?thesis by (cases ok) auto
qed

lemma held_run_deferred: "tracked st \<Longrightarrow> held (run_deferred st) = []"
proof -
  have "still_open (map Closed ds) (filter (\<lambda>r. r \<noteq> Tracing None) ds) = []" for ds
    by (induction ds) (auto simp: remove1_idem)
  then show "tracked st \<Longrightarrow> ?thesis" by (simp add: held_def tracked_def run_deferred_def)
qed

lemma tracked_start: "tracked \<lparr>pc_trace = [], pc_deferred = [], pc_world = w\<rparr>"
  by (simp add: tracked_def held_def)

lemma run_deferred_world [simp]: "pc_world (run_deferred st) = pc_world st"
  by (simp add: run_deferred_def)

text \<open>The part of \<^verbatim>\<open>main\<close> before the work, for the three processes.\<close>

lemma proc_bind_assoc: "proc_bind (proc_bind m f) g = proc_bind m (\<lambda>a. proc_bind (f a) g)"
  by (rule ext) (auto simp: proc_bind_def split: prod.splits going.splits)

definition ready :: "syslib \<Rightarrow> Config \<Rightarrow> bool" where
  "ready sl cfg \<longleftrightarrow> tracer_ok sl cfg \<and> pool_ok sl cfg \<and> redis_ok sl cfg"

definition dispatcher_ready :: "syslib \<Rightarrow> bool" where
  "dispatcher_ready sl = (case Load (sl_env sl) of
     Inl e \<Rightarrow> False | Inr cfg \<Rightarrow> ready sl (cfg\<lparr>cf_ServiceName := ''webhook-dispatcher''\<rparr>))"

definition scheduler_ready :: "syslib \<Rightarrow> bool" where
  "scheduler_ready sl = (case Load (sl_env sl) of
     Inl e \<Rightarrow> False
   | Inr cfg \<Rightarrow> (let c = cfg\<lparr>cf_ServiceName := ''webhook-scheduler''\<rparr> in tracer_ok sl c \<and> pool_ok sl c))"

definition api_ready :: "syslib \<Rightarrow> bool" where
  "api_ready sl = (case Load (sl_env sl) of Inl e \<Rightarrow> False | Inr cfg \<Rightarrow> ready sl cfg)"

lemma starts_load: "starts (load_config sl) (\<exists>cfg. Load (sl_env sl) = Inr cfg)"
  by (auto simp: starts_def load_config_def proc_defs tracked_def held_def reports_error_def  split: sum.split)

text \<open>A worker ends as its loop does, once it has started.\<close>

definition worker_ending :: "platform \<Rightarrow> bool prog \<Rightarrow> world \<Rightarrow> ending \<times> world" where
  "worker_ending P loop w = (case run P loop w of
     (Returns stopped, w') \<Rightarrow> (if stopped then Ended 0 else Unfinished, w')
   | (Panics s, w') \<Rightarrow> (Ended 2, w'))"

lemma worker_finishes:
  assumes "tracked st"
  shows "case finish (proc_bind (work_loop P sig (logger_New cfg) sh fl loop) (\<lambda>_. log_line (logger_New cfg) LevelInfo msg None) st) of (e, st') \<Rightarrow>
    (e, pc_world st') = worker_ending P loop (pc_world st) \<and> (e = Unfinished \<or> held st' = [])"
proof -
  have t: "tracked (st\<lparr>pc_world := w\<rparr>)" "tracked (st\<lparr>pc_world := w, pc_trace := pc_trace st @ [Printed lv m er]\<rparr>)"
    "tracked (st\<lparr>pc_world := w, pc_trace := pc_trace st @ [Printed lv m er, Printed lv' m' er']\<rparr>)" for w lv m er lv' m' er'
    using assms by (simp_all add: tracked_def held_def)
  show ?thesis
  proof (cases "run P loop (pc_world st)")
    case (Pair r w')
    then show ?thesis
      using t by (cases r)
        (auto simp: work_loop_def work_def Start_result_def run_bind worker_ending_def finish_def proc_defs held_run_deferred)
  qed
qed

lemma worker_main:
  assumes start: "starts m ok" and later: "\<And>a. f a = proc_bind (work_loop P sig (logger_New cfg) sh fl loop) (\<lambda>_. log_line (logger_New cfg) LevelInfo msg None)"
  shows "case exec_main (proc_bind m f) w of (e, st) \<Rightarrow>
    if ok then (e, pc_world st) = worker_ending P loop w \<and> (e = Unfinished \<or> held st = [])
    else e = Ended 1 \<and> reports_error st \<and> pc_world st = w"
  using start tracked_start [of w]
proof (cases rule: starts_cases)
  case (1 a st1)
  with worker_finishes [OF 1(3), where P = P and sig = sig and cfg = cfg and sh = sh and fl = fl and loop = loop and msg = msg] show ?thesis
    by (simp add: exec_main_def proc_bind_def [of m] later)
next
  case (2 st1)
  then show ?thesis by (simp add: exec_main_def proc_bind_def finish_def)
qed

lemma dispatcher_main_ending:
  "case exec_main (dispatcher_process sl gl P sig n) w of (e, st) \<Rightarrow>
    if dispatcher_ready sl then (e, pc_world st) = worker_ending P (dispatcher_Start gl dispatcher_main n) w
      \<and> (e = Unfinished \<or> held st = [])
    else e = Ended 1 \<and> reports_error st \<and> pc_world st = w"
proof (cases "Load (sl_env sl)")
  case (Inl e)
  then show ?thesis
    by (simp add: dispatcher_process_def load_config_def dispatcher_ready_def exec_main_def finish_def
      proc_defs reports_error_def)
next
  case (Inr loaded)
  let ?c = "loaded\<lparr>cf_ServiceName := ''webhook-dispatcher''\<rparr>"
  have s: "starts (proc_bind (acquire_tracer sl ?c) (\<lambda>_. proc_bind (acquire_pool sl ?c) (\<lambda>_. proc_bind (acquire_redis sl ?c)
     (\<lambda>_. proc_bind (open_reader ?c TopicEvents ''dispatcher-group'') (\<lambda>_. open_writer ?c TopicRetries)))))
     (tracer_ok sl ?c \<and> pool_ok sl ?c \<and> redis_ok sl ?c \<and> True \<and> True)"
    by (intro starts_bind starts_acquire starts_open)
  show ?thesis
    using worker_main [OF s refl, where P = P and loop = "dispatcher_Start gl dispatcher_main n"
      and cfg = ?c and msg = "''dispatcher stopped gracefully''" and w = w and sig = sig
      and sh = "''shutting down dispatcher''" and fl = "''dispatcher error''"] Inr
    by (simp add: dispatcher_process_def load_config_def dispatcher_ready_def ready_def proc_bind_assoc Let_def)
qed

lemma scheduler_main_ending:
  "case exec_main (scheduler_process sl gl P sig n) w of (e, st) \<Rightarrow>
    if scheduler_ready sl then (e, pc_world st) = worker_ending P (scheduler_Start gl scheduler_main n) w
      \<and> (e = Unfinished \<or> held st = [])
    else e = Ended 1 \<and> reports_error st \<and> pc_world st = w"
proof (cases "Load (sl_env sl)")
  case (Inl e)
  then show ?thesis
    by (simp add: scheduler_process_def load_config_def scheduler_ready_def exec_main_def finish_def
      proc_defs reports_error_def)
next
  case (Inr loaded)
  let ?c = "loaded\<lparr>cf_ServiceName := ''webhook-scheduler''\<rparr>"
  have s: "starts (proc_bind (acquire_tracer sl ?c) (\<lambda>_. proc_bind (acquire_pool sl ?c) (\<lambda>_. open_writer ?c TopicEvents)))
     (tracer_ok sl ?c \<and> pool_ok sl ?c \<and> True)"
    by (intro starts_bind starts_acquire starts_open)
  show ?thesis
    using worker_main [OF s refl, where P = P and loop = "scheduler_Start gl scheduler_main n"
      and cfg = ?c and msg = "''scheduler stopped gracefully''" and w = w and sig = sig
      and sh = "''shutting down scheduler''" and fl = "''scheduler error''"] Inr
    by (simp add: scheduler_process_def load_config_def scheduler_ready_def proc_bind_assoc Let_def)
qed

text \<open>A goroutine that only writes to the log.\<close>

inductive only_logs :: "goroutine \<Rightarrow> bool" where
  logs_done: "only_logs Done"
| logs_on: "only_logs g \<Longrightarrow> only_logs (Step (proc_ret g))"
| logs_line: "only_logs g \<Longrightarrow> only_logs (Step (proc_bind (log_line lg lv msg err) (\<lambda>_. proc_ret g)))"

lemma serve_grpc_logs: "only_logs (serve_grpc sl cfg)"
  by (auto simp: serve_grpc_def StartGRPCServer_def intro!: only_logs.intros split: option.split)

lemma only_logs_step:
  assumes "only_logs (Step m)"
  obtains g tr where "only_logs g" "\<And>st. tracked st \<Longrightarrow> tracked (tr st)" "\<And>st. pc_world (tr st) = pc_world st"
    "\<And>st. m st = (Going g, tr st)"
  using assms
proof cases
  case (logs_on g)
  then show thesis by (intro that [of g "\<lambda>st. st"]) (simp_all add: proc_ret_def)
next
  case (logs_line g lg lv msg err)
  then show thesis
    by (intro that [of g "\<lambda>st. if level_number (lg_Level lg) \<le> level_number lv
          then st\<lparr>pc_trace := pc_trace st @ [Printed lv msg err]\<rparr> else st"])
      (auto simp: proc_defs tracked_def held_def)
qed

text \<open>The other steps: a line of the log, the two calls that can fail, and the end.\<close>

lemma tracked_line [simp]:
  "tracked (st\<lparr>pc_trace := pc_trace st @ [Printed lv msg err]\<rparr>) = tracked st" "tracked (st\<lparr>pc_world := w\<rparr>) = tracked st"
  by (simp_all add: tracked_def held_def)

lemma fatal_ends:
  "fatal (logger_New cfg) msg err st = (OsExit 1, st\<lparr>pc_trace := pc_trace st @ [Printed LevelError msg (Some err)]\<rparr>)"
  by (simp add: fatal_def errors_are_logged proc_bind_def emit_def os_Exit_def)

lemma log_then:
  obtains st' where "proc_bind (log_line lg lv msg err) f st = f () st'" "tracked st \<longrightarrow> tracked st'" "pc_world st' = pc_world st"
  by (rule that [of "if level_number (lg_Level lg) \<le> level_number lv
      then st\<lparr>pc_trace := pc_trace st @ [Printed lv msg err]\<rparr> else st"]) (simp_all add: proc_defs)

text \<open>
  What the end of the API tells: \<open>turns\<close> are the steps \<^verbatim>\<open>main\<close> has left.
\<close>

definition api_end :: "syslib \<Rightarrow> Server \<Rightarrow> world \<Rightarrow> nat list \<Rightarrow> nat \<Rightarrow> ending \<times> process \<Rightarrow> bool" where
  "api_end sl srv w order turns = (\<lambda>(e, st).
     pc_world st \<in> {w, snd (sl_http_serve sl srv w)}
     \<and> (e = Unfinished \<and> count_list order 0 < turns
        \<or> e = Ended 0 \<and> held st = [] \<and> sl_http_Shutdown sl = None
        \<or> e = Ended 1 \<and> reports_error st \<and> (fst (sl_http_serve sl srv w) \<noteq> None \<or> sl_http_Shutdown sl \<noteq> None)))"

definition main_turns :: "syslib \<Rightarrow> Config \<Rightarrow> goroutine \<Rightarrow> nat \<Rightarrow> bool" where
  "main_turns sl cfg g turns \<longleftrightarrow> g = shut_down_http sl cfg \<and> turns = 3 \<or> g = close_http sl cfg \<and> turns = 2
     \<or> g = stopped_http cfg \<and> turns = 1 \<and> sl_http_Shutdown sl = None
     \<or> g = Done \<and> turns = 0 \<and> sl_http_Shutdown sl = None"

definition http_at :: "syslib \<Rightarrow> Config \<Rightarrow> Server \<Rightarrow> world \<Rightarrow> goroutine \<Rightarrow> world \<Rightarrow> bool" where
  "http_at sl cfg srv w g v \<longleftrightarrow> (g = serve_http sl cfg srv \<or> g = listen_http sl cfg srv) \<and> v = w
     \<or> g = Done \<and> v = snd (sl_http_serve sl srv w)"

lemma main_step:
  assumes "main_turns sl cfg (Step m) turns" "tracked st"
  obtains g st' where "m st = (Going g, st')" "main_turns sl cfg g (turns - 1)" "tracked st'" "pc_world st' = pc_world st" "0 < turns"
  | st' where "m st = (OsExit 1, st')" "reports_error st'" "pc_world st' = pc_world st" "sl_http_Shutdown sl \<noteq> None"
proof -
  from assms(1) consider "Step m = shut_down_http sl cfg" "turns = 3" | "Step m = close_http sl cfg" "turns = 2"
    | "Step m = stopped_http cfg" "turns = 1" "sl_http_Shutdown sl = None" by (auto simp: main_turns_def)
  then show thesis
  proof cases
    case 1
    obtain st' where r: "m st = (Going (close_http sl cfg), st')" "tracked st'" "pc_world st' = pc_world st"
      using log_then [of "logger_New cfg" LevelInfo "''shutting down server''" None "\<lambda>_. proc_ret (close_http sl cfg)" st] 1 assms(2)
      by (auto simp: shut_down_http_def proc_ret_def)
    show thesis by (rule that(1) [OF r(1) _ r(2,3)]) (use 1(2) in \<open>simp_all add: main_turns_def\<close>)
  next
    case 2
    show thesis
    proof (cases "sl_http_Shutdown sl")
      case None
      then show thesis using 2 assms(2) by (intro that(1)) (auto simp: close_http_def proc_ret_def main_turns_def)
    next
      case (Some err)
      show thesis
        by (rule that(2) [of "st\<lparr>pc_trace := pc_trace st @ [Printed LevelError ''server forced to shutdown'' (Some err)]\<rparr>"])
          (use Some 2 in \<open>auto simp: close_http_def fatal_ends reports_error_def\<close>)
    qed
  next
    case 3
    obtain st' where r: "m st = (Going Done, st')" "tracked st'" "pc_world st' = pc_world st"
      using log_then [of "logger_New cfg" LevelInfo "''server stopped gracefully''" None "\<lambda>_. proc_ret Done" st] 3 assms(2)
      by (auto simp: stopped_http_def proc_ret_def)
    show thesis by (rule that(1) [OF r(1) _ r(2,3)]) (use 3(2,3) in \<open>simp_all add: main_turns_def\<close>)
  qed
qed

lemma http_step:
  assumes "http_at sl cfg srv w (Step m) (pc_world st)" "tracked st"
  obtains g st' where "m st = (Going g, st')" "http_at sl cfg srv w g (pc_world st')" "tracked st'"
  | st' where "m st = (OsExit 1, st')" "reports_error st'" "pc_world st' = snd (sl_http_serve sl srv w)"
      "fst (sl_http_serve sl srv w) \<noteq> None"
proof -
  from assms(1) have v: "pc_world st = w" by (simp add: http_at_def)
  from assms(1) consider "Step m = serve_http sl cfg srv" | "Step m = listen_http sl cfg srv" by (auto simp: http_at_def)
  then show thesis
  proof cases
    case 1
    obtain st' where r: "m st = (Going (listen_http sl cfg srv), st')" "tracked st'" "pc_world st' = pc_world st"
      using log_then [of "logger_New cfg" LevelInfo "''starting api server''" None "\<lambda>_. proc_ret (listen_http sl cfg srv)" st] 1 assms(2)
      by (auto simp: serve_http_def proc_ret_def)
    show thesis by (rule that(1) [OF r(1) _ r(2)]) (use v r(3) in \<open>simp add: http_at_def\<close>)
  next
    case 2
    obtain r w' where r: "sl_http_serve sl srv w = (r, w')" by (rule prod.exhaust)
    show thesis
    proof (cases r)
      case None
      show thesis
        by (rule that(1) [of Done "st\<lparr>pc_world := w'\<rparr>"])
          (use None 2 r v assms(2) in \<open>simp_all add: listen_http_def http_at_def\<close>)
    next
      case (Some err)
      show thesis
        by (rule that(2) [of "st\<lparr>pc_world := w', pc_trace := pc_trace st @ [Printed LevelError ''server error'' (Some err)]\<rparr>"])
          (use Some 2 r v in \<open>auto simp: listen_http_def fatal_ends reports_error_def\<close>)
    qed
  qed
qed

lemma api_end_shorter: "api_end sl srv w order turns e \<Longrightarrow> 0 < i \<Longrightarrow> api_end sl srv w (i # order) turns e"
  by (auto simp: api_end_def)

lemma goroutines_end:
  assumes "main_turns sl cfg main turns" "http_at sl cfg srv w http (pc_world st)" "only_logs grpc" "tracked st"
  shows "api_end sl srv w order turns (finish (goroutines order main [http, grpc] st))"
  using assms
proof (induction order arbitrary: main turns http grpc st)
  case Nil
  then show ?case
    by (cases main) (auto simp: api_end_def finish_def proc_ret_def main_turns_def http_at_def held_run_deferred
      shut_down_http_def close_http_def stopped_http_def)
next
  case (Cons i order)
  show ?case
  proof (cases main)
    case Done
    with Cons.prems show ?thesis
      by (auto simp: api_end_def finish_def proc_ret_def main_turns_def http_at_def held_run_deferred
        shut_down_http_def close_http_def stopped_http_def)
  next
    case (Step m)
    consider "i = 0" | "i = 1" | "i = 2" | j where "i = Suc j" "2 \<le> j" by (cases i; fastforce)
    then show ?thesis
    proof cases
      case 1
      from Cons.prems(1,4) [unfolded Step] show ?thesis
      proof (cases rule: main_step)
        case (1 g st')
        have "api_end sl srv w order (turns - 1) (finish (goroutines order g [http, grpc] st'))"
          by (rule Cons.IH [OF 1(2) _ Cons.prems(3) 1(3)]) (use Cons.prems(2) 1(4) in simp)
        then show ?thesis using 1(1,5) \<open>i = 0\<close> Step by (auto simp: proc_bind_def api_end_def)
      next
        case (2 st')
        then show ?thesis using Cons.prems(2) \<open>i = 0\<close> Step
          by (auto simp: proc_bind_def finish_def api_end_def http_at_def)
      qed
    next
      case 2
      show ?thesis
      proof (cases http)
        case Done
        then show ?thesis using Cons.IH [OF Cons.prems] 2 Step by (auto intro: api_end_shorter)
      next
        case (Step h)
        from Cons.prems(2,4) [unfolded Step] show ?thesis
        proof (cases rule: http_step)
          case (1 g st')
          from Cons.IH [OF Cons.prems(1) 1(2) Cons.prems(3) 1(3)] 1(1) show ?thesis
            using \<open>main = Step m\<close> \<open>i = 1\<close> Step by (auto simp: proc_bind_def intro: api_end_shorter)
        next
          case (2 st')
          then show ?thesis using \<open>main = Step m\<close> \<open>i = 1\<close> Step by (auto simp: proc_bind_def finish_def api_end_def)
        qed
      qed
    next
      case 3
      show ?thesis
      proof (cases grpc)
        case Done
        then show ?thesis using Cons.IH [OF Cons.prems] 3 Step by (auto simp: numeral_2_eq_2 intro: api_end_shorter)
      next
        case (Step l)
        from Cons.prems(3) [unfolded Step] obtain g tr where g: "only_logs g" "\<And>st. tracked st \<Longrightarrow> tracked (tr st)"
          "\<And>st. pc_world (tr st) = pc_world st" "\<And>st. l st = (Going g, tr st)" by (rule only_logs_step) blast
        have "api_end sl srv w order turns (finish (goroutines order main [http, g] (tr st)))"
          by (rule Cons.IH [OF Cons.prems(1) _ g(1) g(2) [OF Cons.prems(4)]]) (use Cons.prems(2) g(3) in simp)
        then show ?thesis using \<open>main = Step m\<close> \<open>i = 2\<close> Step g(4)
          by (auto simp: numeral_2_eq_2 proc_bind_def intro: api_end_shorter)
      qed
    next
      case 4
      then show ?thesis using Cons.IH [OF Cons.prems] Step by (auto intro: api_end_shorter)
    qed
  qed
qed

lemma starts_end:
  assumes "starts m ok"
    and "\<And>a st. tracked st \<Longrightarrow> pc_world st = w \<Longrightarrow> api_end sl srv w order 3 (finish (f a st))"
  shows "case exec_main (proc_bind m f) w of (e, st) \<Rightarrow>
    if ok then api_end sl srv w order 3 (e, st) else e = Ended 1 \<and> reports_error st \<and> pc_world st = w"
  using assms(1) tracked_start [of w]
proof (cases rule: starts_cases)
  case (1 a st1)
  with assms(2) [of st1 a] show ?thesis by (simp add: exec_main_def proc_bind_def)
next
  case (2 st1)
  then show ?thesis by (simp add: exec_main_def proc_bind_def finish_def)
qed

lemma api_main_ending:
  "case exec_main (api_process sl srv order) w of (e, st) \<Rightarrow>
    if api_ready sl then api_end sl srv w order 3 (e, st)
    else e = Ended 1 \<and> reports_error st \<and> pc_world st = w"
proof (cases "Load (sl_env sl)")
  case (Inl e)
  then show ?thesis
    by (simp add: api_process_def load_config_def api_ready_def exec_main_def finish_def proc_defs reports_error_def)
next
  case (Inr cfg)
  have s: "starts (proc_bind (acquire_tracer sl cfg) (\<lambda>_. proc_bind (acquire_pool sl cfg) (\<lambda>_. proc_bind (acquire_redis sl cfg)
     (\<lambda>_. open_writer cfg TopicEvents)))) (tracer_ok sl cfg \<and> pool_ok sl cfg \<and> redis_ok sl cfg \<and> True)"
    by (intro starts_bind starts_acquire starts_open)
  have "api_end sl srv w order 3 (finish (goroutines order (shut_down_http sl cfg) [serve_http sl cfg srv, serve_grpc sl cfg] st))"
    if "tracked st" "pc_world st = w" for st
    by (rule goroutines_end [where cfg = cfg]) (use that in \<open>simp_all add: main_turns_def http_at_def serve_grpc_logs\<close>)
  from starts_end [where f = "\<lambda>_. goroutines order (shut_down_http sl cfg) [serve_http sl cfg srv, serve_grpc sl cfg]", OF s this] show ?thesis
    by (simp add: api_process_def load_config_def Inr api_ready_def ready_def proc_bind_assoc)
qed

text \<open>
  C22: a process works only when it is connected. If a setting is missing or a connection cannot be
  made, it reports the error and exits with 1 before it has touched any service. A worker that is
  connected ends as its loop does, and when it ends everything it opened is closed. The connected
  API, in whatever order its goroutines run, is still running, at most until main has taken the
  three steps after the signal; or has ended with 0 and everything closed; or it reports that its
  listener or its shutdown failed and exits with 1, which skips what was deferred. The services
  it has touched are those of the listener.
\<close>

theorem process_works_connected:
  "(case exec_main (dispatcher_process sl gl P sig n) w of (e, st) \<Rightarrow>
     if dispatcher_ready sl then (e, pc_world st) = worker_ending P (dispatcher_Start gl dispatcher_main n) w
       \<and> (e = Unfinished \<or> held st = [])
     else e = Ended 1 \<and> reports_error st \<and> pc_world st = w)
   \<and> (case exec_main (scheduler_process sl gl P sig n) w of (e, st) \<Rightarrow>
     if scheduler_ready sl then (e, pc_world st) = worker_ending P (scheduler_Start gl scheduler_main n) w
       \<and> (e = Unfinished \<or> held st = [])
     else e = Ended 1 \<and> reports_error st \<and> pc_world st = w)
   \<and> (case exec_main (api_process sl srv order) w of (e, st) \<Rightarrow>
     if api_ready sl then pc_world st \<in> {w, snd (sl_http_serve sl srv w)}
       \<and> (e = Unfinished \<and> count_list order 0 < 3
          \<or> e = Ended 0 \<and> held st = [] \<and> sl_http_Shutdown sl = None
          \<or> e = Ended 1 \<and> reports_error st \<and> \<not> (fst (sl_http_serve sl srv w) = None \<and> sl_http_Shutdown sl = None))
     else e = Ended 1 \<and> reports_error st \<and> pc_world st = w)"
  using api_main_ending [where sl = sl and srv = srv and order = order and w = w]
  by (intro conjI dispatcher_main_ending scheduler_main_ending) (auto simp: api_end_def split: prod.splits if_splits)

text \<open>
  What \<^verbatim>\<open>os.Exit\<close> leaves open: a process whose database does not answer exits without the
  deferred shutdown of its tracer, so the spans it holds are lost.
\<close>

lemma failed_start_drops_spans:
  assumes "Load (sl_env sl) = Inr cfg" "cf_OTLPEndpoint cfg \<noteq> ''''"
    and "sl_otlp_New sl (cf_OTLPEndpoint cfg) = None" "sl_resource_New sl ''webhook-scheduler'' = None"
    and "sl_pg_ParseConfig sl (cf_DBURL cfg) = None" "sl_pg_NewWithConfig sl (cf_DBURL cfg) = None"
    and "sl_pg_Ping sl (cf_DBURL cfg) = Some err"
  shows "held (snd (exec_main (scheduler_process sl gl P sig n) w)) = [Tracing (Some (cf_OTLPEndpoint cfg))]"
  using assms by (auto simp: scheduler_process_def load_config_def acquire_tracer_def acquire_pool_def acquire_def
    InitTracerProvider_def NewPool_def fatal_def level_le exec_main_def finish_def held_def Let_def proc_defs)

lemma ended_as:
  "(case x of (e, st) \<Rightarrow> if ok then (e, pc_world st) = y \<and> (e = Unfinished \<or> held st = []) else bad e st) \<Longrightarrow>
     ok \<Longrightarrow> y = (c, w') \<Longrightarrow> db_ok ty (w_db w') \<Longrightarrow>
   (case x of (e, st) \<Rightarrow> e = c \<and> (e = Unfinished \<or> held st = []) \<and> db_ok ty (w_db (pc_world st)))"
  by (cases x) simp

text \<open>
  C23: workers run until they are told to stop, and then end cleanly. On services that obey their
  laws, whatever fails, from a database with the invariant, a dispatcher and a scheduler that could
  connect are, after any number of rounds, either still running, or have ended with exit code 0 and
  closed everything they opened; they never end otherwise. The dispatcher has ended exactly when
  in one of the rounds the reader returned an error and the context was cancelled by then, the
  scheduler exactly when its select took the cancelled context in one of them. The invariant
  of the database holds.
\<close>

theorem workers_end_cleanly:
  assumes "backend P rt ty pgnow" "db_ok ty (w_db w)" "dispatcher_ready sl" "scheduler_ready sl"
  shows "(case exec_main (dispatcher_process sl gl P sig n) w of (e, st) \<Rightarrow>
      e = (if \<exists>i<n. let k = w_tick (after_rounds P (dispatch_round gl dispatcher_main) i w)
             in (\<exists>err. pl_fetch P k = Inl err) \<and> pl_cancelled P (Suc k) then Ended 0 else Unfinished)
      \<and> (e = Unfinished \<or> held st = []) \<and> db_ok ty (w_db (pc_world st)))
    \<and> (case exec_main (scheduler_process sl gl P sig n) w of (e, st) \<Rightarrow>
      e = (if \<exists>i<n. pl_cancelled P (w_tick (after_rounds P (scheduler_tick gl scheduler_main) i w))
           then Ended 0 else Unfinished)
      \<and> (e = Unfinished \<or> held st = []) \<and> db_ok ty (w_db (pc_world st)))"
proof -
  have ends: "\<exists>w'. worker_ending P loop w = (if c then Ended 0 else Unfinished, w') \<and> db_ok ty (w_db w')"
    if "wp P loop (\<lambda>stopped w'. (stopped \<longleftrightarrow> c) \<and> db_ok ty (w_db w')) w" for loop c
    using that by (auto simp: wp_iff worker_ending_def)
  have size: "0 \<le> ss_batchSize scheduler_main" by (simp add: scheduler_main_def NewSchedulerService_def)
  obtain w1 where d: "worker_ending P (dispatcher_Start gl dispatcher_main n) w
      = (if \<exists>i<n. let k = w_tick (after_rounds P (dispatch_round gl dispatcher_main) i w)
           in (\<exists>err. pl_fetch P k = Inl err) \<and> pl_cancelled P (Suc k) then Ended 0 else Unfinished, w1)" "db_ok ty (w_db w1)"
    using ends [OF backend.dispatcher_loop [OF assms(1,2)], of gl dispatcher_main n]
    unfolding dispatch_round_stops Let_def by blast
  obtain w2 where s: "worker_ending P (scheduler_Start gl scheduler_main n) w
      = (if \<exists>i<n. pl_cancelled P (w_tick (after_rounds P (scheduler_tick gl scheduler_main) i w))
         then Ended 0 else Unfinished, w2)" "db_ok ty (w_db w2)"
    using ends [OF backend.scheduler_loop [OF assms(1) size assms(2)], of gl n] unfolding scheduler_tick_stops by blast
  show ?thesis
    by (intro conjI ended_as [OF dispatcher_main_ending assms(3) d] ended_as [OF scheduler_main_ending assms(4) s])
qed

text \<open>A machine on which every service answers, with no setting in the environment.\<close>

definition plain_syslib :: syslib where
  "plain_syslib = \<lparr>sl_env = (\<lambda>name. None), sl_otlp_New = (\<lambda>u. None), sl_resource_New = (\<lambda>s. None),
     sl_pg_ParseConfig = (\<lambda>u. None), sl_pg_NewWithConfig = (\<lambda>u. None), sl_pg_Ping = (\<lambda>u. None),
     sl_redis_ParseURL = (\<lambda>u. None), sl_redis_Ping = (\<lambda>u. None), sl_net_Listen = (\<lambda>a. None),
     sl_grpc_Serve = None, sl_http_serve = (\<lambda>srv w. (None, w)), sl_http_Shutdown = None\<rparr>"

lemma plain_syslib_ready: "dispatcher_ready plain_syslib" "scheduler_ready plain_syslib"
  by (simp_all add: dispatcher_ready_def scheduler_ready_def plain_syslib_def ready_def tracer_ok_def pool_ok_def
    redis_ok_def Load_def Config_validate_def getEnv_def)

theorem workers_end_cleanly_witness:
  "fst (exec_main (dispatcher_process plain_syslib sim_lib (sim closing) True 10) queued_world) = Ended 0
    \<and> fst (exec_main (scheduler_process plain_syslib sim_lib (sim closing) True 10) queued_world) = Ended 0
    \<and> fst (exec_main (scheduler_process plain_syslib sim_lib (sim closing) False 0) queued_world) = Unfinished"
proof -
  let ?d = "\<lambda>i. w_tick (after_rounds (sim closing) (dispatch_round sim_lib dispatcher_main) i queued_world)"
  let ?s = "\<lambda>i. w_tick (after_rounds (sim closing) (scheduler_tick sim_lib scheduler_main) i queued_world)"
  have late: "9 \<le> ?d 9" "9 \<le> ?s 9"
    using after_rounds_tick [OF rounds_take_time(1), of queued_world 9] after_rounds_tick [OF rounds_take_time(2), of queued_world 9]
    by (meson add_leE)+
  have stop: "pl_cancelled (sim closing) n" "\<exists>e. pl_fetch (sim closing) n = Inl e" if "9 \<le> n" for n
    using that by (simp_all add: closing_def sim_def)
  have d: "\<exists>i<10. let k = ?d i in (\<exists>err. pl_fetch (sim closing) k = Inl err) \<and> pl_cancelled (sim closing) (Suc k)"
    unfolding Let_def by (rule exI [of _ 9]) (use stop late le_SucI in auto)
  have s: "\<exists>i<10. pl_cancelled (sim closing) (?s i)" by (rule exI [of _ 9]) (use stop late in auto)
  note clean = workers_end_cleanly [OF sim_backend.backend_axioms queued_db_ok plain_syslib_ready, where gl = sim_lib and s1 = closing]
  from clean [where sig = True and n = 10] clean [where sig = False and n = 0] d s show ?thesis
    by (simp add: case_prod_beta del: eval_nat_numeral)
qed

subsection \<open>Migration tool\<close>

text \<open>
  \<^verbatim>\<open>cmd/migrate\<close>: the library applies the files of \<^verbatim>\<open>migrations\<close>; the tool chooses the direction,
  takes \<^verbatim>\<open>ErrNoChange\<close> for success, and exits with 1 (\<^verbatim>\<open>log.Fatalf\<close>) otherwise.
\<close>

record migratelib =
  mg_New :: "string \<Rightarrow> string \<Rightarrow> gerr option"
  mg_Up :: "gerr option"
  mg_Down :: "gerr option"
  mg_ErrNoChange :: gerr

definition migrate_main :: "migratelib \<Rightarrow> string \<Rightarrow> string \<Rightarrow> string \<Rightarrow> int \<times> string" where
  "migrate_main mg direction dbURL path =
     (case mg_New mg path dbURL of
        Some err \<Rightarrow> (1, ''failed to create migrate instance: '' @ err_msg err)
      | None \<Rightarrow>
          if direction = ''up'' then
            (case mg_Up mg of
               Some err \<Rightarrow> if err \<noteq> mg_ErrNoChange mg then (1, ''failed to run migrations up: '' @ err_msg err)
                 else (0, ''migrations applied successfully'')
             | None \<Rightarrow> (0, ''migrations applied successfully''))
          else if direction = ''down'' then
            (case mg_Down mg of
               Some err \<Rightarrow> if err \<noteq> mg_ErrNoChange mg then (1, ''failed to run migrations down: '' @ err_msg err)
                 else (0, ''migrations rolled back successfully'')
             | None \<Rightarrow> (0, ''migrations rolled back successfully''))
          else (1, ''invalid direction: '' @ direction @ '' (use 'up' or 'down')''))"

lemma migrate_again_succeeds:
  "mg_New mg path url = None \<Longrightarrow> mg_Up mg = Some (mg_ErrNoChange mg) \<Longrightarrow> fst (migrate_main mg ''up'' url path) = 0"
  by (simp add: migrate_main_def)

subsection \<open>Kafka settings and connectivity check\<close>

record kafka_Config =
  kc_Brokers :: "string list"
  kc_Topic :: string

definition BrokerString :: "kafka_Config \<Rightarrow> string" where
  "BrokerString c = fmt_slice (kc_Brokers c)"

text \<open>
  \<^verbatim>\<open>cmd/kafka-test\<close>: what it prints, line by line; dialling the leader of a partition is the
  library's. It exits with 0 either way.
\<close>

definition kafka_test_main :: "(string \<Rightarrow> string \<Rightarrow> int \<Rightarrow> gerr option) \<Rightarrow> string list" where
  "kafka_test_main DialLeader =
     ''Testing Kafka connectivity on localhost:9092...'' #
     (case DialLeader ''localhost:9092'' ''webhook.events'' 0 of
        Some err \<Rightarrow> [''FAILED: '' @ err_msg err]
      | None \<Rightarrow> [''SUCCESS: Connected to Kafka!''])"

end
