(* ===== verification/Histories.thy ===== *)
theory Histories
  imports System
begin

text \<open>
  What holds of every history of the platform: each event goes through its life cycle and ends,
  its content never changes, and every webhook that is ever sent carries a signature under the
  secret of the event's endpoint.
\<close>

subsection \<open>The life of an event\<close>

text \<open>
  C2: the platform refines the life cycle. In every state the platform reaches, any further
  request, message or batch, whatever fails in it, does to each event what the specification
  allows: an event that is new is pending or on its way from there, comes from the request that was
  made and carries the signature, with the secret of its endpoint, of the payload the request
  asked to send; one that was there keeps its content and has moved along the steps of that
  cycle, or has been deleted. A message or a batch makes no new event.
\<close>

theorem life_cycle_refinement:
  assumes "backend P rt ty pgnow" "db_ok ty (w_db w0)" "pings_harmless P (dp_server d)"
    and "0 \<le> ss_batchSize (dp_scheduler d)" "reached P d w0 as w" "perform P d a w = (r, w')"
  shows "grows_to ty (origin_of P d a) (w_db w) (events_of (w_db w) u) (events_of (w_db w') u)"
  using backend.perform_keeps [OF assms(1) backend.reached_keeps [OF assms(1,5,2-4)] assms(3,4,6)]
  by (simp add: kept_def evolves_def)

lemma sample_deployment_ok [simp]:
  "pings_harmless P (dp_server sample_deployment)" "0 \<le> ss_batchSize (dp_scheduler sample_deployment)"
  by (simp_all add: sample_deployment_def api_main_def scheduler_main_def NewSchedulerService_def pings_harmless_def)

theorem life_cycle_refinement_witness:
  "(case perform (sim (answering 200)) sample_deployment (Message (event_msg ''e'')) queued_world of (r, w') \<Rightarrow>
     grows_to sim_types (origin_of (sim (answering 200)) sample_deployment (Message (event_msg ''e''))) (w_db queued_world)
       (events_of (w_db queued_world) ''e'') (events_of (w_db w') ''e''))"
proof (cases "perform (sim (answering 200)) sample_deployment (Message (event_msg ''e'')) queued_world")
  case (Pair r w')
  with life_cycle_refinement [OF sim_backend.backend_axioms queued_db_ok sample_deployment_ok reached_start Pair]
  show ?thesis by simp
qed

text \<open>The life of one event over a further history: it was deleted at some moment, or has gone on.\<close>

lemma reached_life:
  assumes "backend P rt ty pgnow" "pings_harmless P (dp_server d)" "0 \<le> ss_batchSize (dp_scheduler d)"
    and "reached P d w bs w'" "db_ok ty (w_db w)" "events_of (w_db w) u = Some ev"
  shows "(\<exists>cs es v. bs = cs @ es \<and> reached P d w cs v \<and> reached P d v es w' \<and> events_of (w_db v) u = None)
    \<or> (\<exists>ev'. events_of (w_db w') u = Some ev' \<and> content ev' = content ev \<and> phase_step\<^sup>*\<^sup>* (phase_of ev) (phase_of ev'))"
  using assms(4)
proof induction
  case reached_start
  with assms(6) show ?case by simp
next
  case (reached_wait bs v v')
  from reached_wait.IH reached_wait.hyps(2) show ?case by (auto intro: reached.reached_wait)
next
  case (reached_act bs v a r v')
  have ok: "db_ok ty (w_db v)" by (rule backend.reached_keeps [OF assms(1) reached_act.hyps(1) assms(5,2,3)])
  have step: "grows_to ty (origin_of P d a) (w_db v) (events_of (w_db v) u) (events_of (w_db v') u)"
    using backend.perform_keeps [OF assms(1) ok assms(2,3) reached_act.hyps(2)] by (simp add: kept_def evolves_def)
  from reached_act.IH show ?case
  proof (elim disjE exE conjE)
    fix cs es x assume "bs = cs @ es" "reached P d w cs x" "reached P d x es v" "events_of (w_db x) u = None"
    then have "bs @ [a] = cs @ (es @ [a]) \<and> reached P d w cs x \<and> reached P d x (es @ [a]) v' \<and> events_of (w_db x) u = None"
      using reached.reached_act reached_act.hyps(2) by simp
    then show ?case by blast
  next
    fix ev1 assume ev1: "events_of (w_db v) u = Some ev1" "content ev1 = content ev" "phase_step\<^sup>*\<^sup>* (phase_of ev) (phase_of ev1)"
    show ?case
    proof (cases "events_of (w_db v') u")
      case None
      have "bs @ [a] = (bs @ [a]) @ [] \<and> reached P d w (bs @ [a]) v' \<and> reached P d v' [] v'"
        using reached.reached_act [OF reached_act.hyps] reached.reached_start by simp
      with None show ?thesis by blast
    next
      case (Some ev2)
      with step ev1 show ?thesis by (auto simp: grows_to_def intro: rtranclp_trans)
    qed
  qed
qed

text \<open>
  C12: a resolved event is final, and every event gets there in ten steps. In a state the platform
  reaches, an event has used up less than its maximum of attempts and has at most ten steps left.
  Over any further sequential history, unless it is deleted at some moment of it, it is still
  there with its content, has no fewer attempts than it had but still less than the maximum, is
  as it was if it was delivered or failed, and has fewer steps left if it has changed.
\<close>

theorem resolved_is_final:
  assumes "backend P rt ty pgnow" "db_ok ty (w_db w0)" "pings_harmless P (dp_server d)"
    and "0 \<le> ss_batchSize (dp_scheduler d)" "reached P d w0 as w" "reached P d w bs w'"
    and "events_of (w_db w) u = Some ev"
  shows "ev_AttemptCount ev < ev_MaxAttempts ev \<and> life_left (phase_of ev) \<le> 10
    \<and> ((\<exists>cs es v. bs = cs @ es \<and> reached P d w cs v \<and> reached P d v es w' \<and> events_of (w_db v) u = None)
       \<or> (\<exists>ev'. events_of (w_db w') u = Some ev' \<and> content ev' = content ev
            \<and> ev_AttemptCount ev \<le> ev_AttemptCount ev' \<and> ev_AttemptCount ev' < ev_MaxAttempts ev'
            \<and> (resolved (ev_Status ev) \<longrightarrow> phase_of ev' = phase_of ev)
            \<and> (phase_of ev' \<noteq> phase_of ev \<longrightarrow> life_left (phase_of ev') < life_left (phase_of ev))))"
proof -
  note ok = backend.reached_keeps [OF assms(1,5,2-4)]
  note ok' = backend.reached_keeps [OF assms(1,6) ok assms(3,4)]
  have attempts: "0 \<le> ev_AttemptCount e \<and> ev_AttemptCount e < ev_MaxAttempts e \<and> ev_MaxAttempts e = 5"
    if "events_of (w_db v) u = Some e" "db_ok ty (w_db v)" for e v
  proof -
    note in_db = that
    obtain q where "q \<in> set (w_db v ''events'')" "e = row_event q" using in_db(1) by (rule events_of_some)
    with in_db(2) show ?thesis by (auto simp: db_ok_def tables_ok_def attempts_ok_def row_event_def)
  qed
  have "life_left (phase_of ev) \<le> 10"
    using attempts [OF assms(7) ok] by (auto simp: life_left_def phase_of_def)
  moreover from reached_life [OF assms(1,3,4,6) ok assms(7)]
  have "(\<exists>cs es v. bs = cs @ es \<and> reached P d w cs v \<and> reached P d v es w' \<and> events_of (w_db v) u = None)
       \<or> (\<exists>ev'. events_of (w_db w') u = Some ev' \<and> content ev' = content ev
            \<and> ev_AttemptCount ev \<le> ev_AttemptCount ev' \<and> ev_AttemptCount ev' < ev_MaxAttempts ev'
            \<and> (resolved (ev_Status ev) \<longrightarrow> phase_of ev' = phase_of ev)
            \<and> (phase_of ev' \<noteq> phase_of ev \<longrightarrow> life_left (phase_of ev') < life_left (phase_of ev)))" (is "?d \<or> ?e")
  proof
    assume "\<exists>ev'. events_of (w_db w') u = Some ev' \<and> content ev' = content ev \<and> phase_step\<^sup>*\<^sup>* (phase_of ev) (phase_of ev')"
    then obtain ev' where e: "events_of (w_db w') u = Some ev'" "content ev' = content ev"
      and p: "phase_step\<^sup>*\<^sup>* (phase_of ev) (phase_of ev')" by blast
    have "?e"
      using e attempts [OF e(1) ok'] phase_steps_left [OF p] phase_steps_resolved [OF p] phase_steps_attempts [OF p]
      by (simp add: phase_of_def [of ev] phase_of_def [of ev'])
    then show "?d \<or> ?e" ..
  qed blast
  ultimately show ?thesis using attempts [OF assms(7) ok] by blast
qed

theorem resolved_is_final_witness:
  "case perform (sim (answering 200)) sample_deployment (Message (event_msg ''e'')) queued_world of (r, w') \<Rightarrow>
     (\<exists>cs es v. [Message (event_msg ''e'')] = cs @ es \<and> reached (sim (answering 200)) sample_deployment queued_world cs v
        \<and> reached (sim (answering 200)) sample_deployment v es w' \<and> events_of (w_db v) ''e'' = None)
     \<or> (\<exists>ev'. events_of (w_db w') ''e'' = Some ev' \<and> ev_Payload ev' = ''{}'' \<and> ev_AttemptCount ev' < ev_MaxAttempts ev')"
proof -
  let ?P = "sim (answering 200)" and ?a = "Message (event_msg ''e'')"
  obtain r w' where run: "perform ?P sample_deployment ?a queued_world = (r, w')"
    by (rule prod.exhaust)
  have ev: "events_of (w_db queued_world) ''e'' = Some (row_event (event_row ''e'' EventStatusQueued 0 VNull))" (is "_ = Some ?ev")
    by (simp add: events_of_def sample_defs)
  have payload: "content e = content ?ev \<Longrightarrow> ev_Payload e = ''{}''" for e
    by (simp add: content_def row_event_def event_row_def)
  from reached_act [OF reached_start run] have one: "reached ?P sample_deployment queued_world [?a] w'" by simp
  from resolved_is_final [OF sim_backend.backend_axioms queued_db_ok sample_deployment_ok reached_start one ev]
  show ?thesis unfolding run prod.case using payload by blast
qed

subsection \<open>Signatures\<close>

definition signed_ok :: "pgtypes \<Rightarrow> origin \<Rightarrow> database \<Rightarrow> bool" where
  "signed_ok ty src db \<longleftrightarrow> (\<forall>u ev. events_of db u = Some ev \<longrightarrow> signed_for ty src db ev)"

lemma signed_for_content: "content ev' = content ev \<Longrightarrow> signed_for ty src db ev' = signed_for ty src db ev"
  by (simp add: content_def signed_for_def signed_with_def)

text \<open>More requests, more events that come from them.\<close>

lemma signed_for_mono: "signed_for ty src db ev \<Longrightarrow> src \<le> src' \<Longrightarrow> signed_for ty src' db ev"
  unfolding signed_for_def signed_with_def le_fun_def le_bool_def by blast

lemma grows_to_mono: "grows_to ty src db x y \<Longrightarrow> src \<le> src' \<Longrightarrow> grows_to ty src' db x y"
  by (cases x; cases y) (auto simp: grows_to_def intro: signed_for_mono)

lemma evolves_mono: "evolves ty src db db' \<Longrightarrow> src \<le> src' \<Longrightarrow> evolves ty src' db db'"
  unfolding evolves_def using grows_to_mono by blast

lemma signed_for_kept:
  assumes "db_ok ty db" "db_ok ty db'" "secrets_kept db db'" "signed_for ty src db ev" "events_of db' u = Some ev"
  shows "signed_for ty src db' ev"
proof -
  obtain r where r: "r \<in> set (db' ''events'')" "ev = row_event r" using assms(5) by (rule events_of_some)
  have "is_text (r ''endpoint_id'')"
    using assms(2) r(1) by (simp add: db_ok_def tables_ok_def rows_typed_def list_all_iff event_row_ok_def)
  with r(2) have rid: "r ''endpoint_id'' = VText (ev_EndpointID ev)"
    by (cases "r ''endpoint_id''") (simp_all add: row_event_def)
  obtain q where q: "q \<in> set (db ''endpoints'')" "q ''id'' = VText (ev_EndpointID ev)"
    "signed_with ty src (text_of (q ''secret'')) ev" using assms(4) unfolding signed_for_def by blast
  have "\<exists>p \<in> set (db' ''endpoints''). p ''id'' = r ''endpoint_id''"
    using assms(2) r(1) unfolding db_ok_def tables_ok_def owners_ok_def by blast
  then obtain p where p: "p \<in> set (db' ''endpoints'')" "p ''id'' = q ''id''" using rid q(2) by auto
  with assms(3) q(1) obtain q' where "q' \<in> set (db ''endpoints'')" "q' ''id'' = p ''id''" "q' ''secret'' = p ''secret''"
    unfolding secrets_kept_def by metis
  moreover from this p(2) q(1) assms(1) have "q' = q" unfolding db_ok_def tables_ok_def owners_ok_def by metis
  ultimately show ?thesis using p q(2,3) unfolding signed_for_def by metis
qed

lemma signed_ok_kept:
  assumes "db_ok ty db" "db_ok ty db'" "evolves ty src db db'" "signed_ok ty src db"
  shows "signed_ok ty src db'"
  unfolding signed_ok_def
proof (intro allI impI)
  fix u ev' assume new: "events_of db' u = Some ev'"
  have g: "grows_to ty src db (events_of db u) (events_of db' u)" using assms(3) unfolding evolves_def by blast
  have "signed_for ty src db ev'"
  proof (cases "events_of db u")
    case None
    with g new show ?thesis by (simp add: grows_to_def)
  next
    case (Some ev)
    then have "signed_for ty src db ev" using assms(4) by (simp add: signed_ok_def)
    with g new Some show ?thesis by (simp add: grows_to_def signed_for_content [of ev' ev])
  qed
  then show "signed_for ty src db' ev'"
    using signed_for_kept [OF assms(1,2) _ _ new] assms(3) by (simp add: evolves_def)
qed

text \<open>What the requests of a history asked to send.\<close>

definition origins :: "platform \<Rightarrow> deployment \<Rightarrow> activity list \<Rightarrow> origin" where
  "origins P d as input t \<longleftrightarrow> (\<exists>a \<in> set as. origin_of P d a input t)"

lemma reached_signed:
  assumes "backend P rt ty pgnow" "pings_harmless P (dp_server d)" "0 \<le> ss_batchSize (dp_scheduler d)"
    and "reached P d w0 as w" "db_ok ty (w_db w0)" "w_db w0 ''events'' = []"
  shows "signed_ok ty (origins P d as) (w_db w)"
  using assms(4)
proof induction
  case reached_start
  show ?case using assms(6) by (simp add: signed_ok_def events_of_def rows_with_def)
next
  case (reached_act as w a r w')
  have ok: "db_ok ty (w_db w)" by (rule backend.reached_keeps [OF assms(1) reached_act(1) assms(5,2,3)])
  have more: "origins P d as \<le> origins P d (as @ [a])" "origin_of P d a \<le> origins P d (as @ [a])"
    by (auto simp: origins_def le_fun_def le_bool_def)
  from reached_act.IH have "signed_ok ty (origins P d (as @ [a])) (w_db w)"
    unfolding signed_ok_def using signed_for_mono [OF _ more(1)] by blast
  with backend.perform_keeps [OF assms(1) ok assms(2,3) reached_act(2)] show ?case
    using signed_ok_kept [OF ok] evolves_mono [OF _ more(2)] unfolding kept_def by blast
qed simp

text \<open>The receiver's check of a webhook: the header parses and verifies the text with the secret.\<close>

definition receiver_accepts :: "string \<Rightarrow> string \<Rightarrow> string \<Rightarrow> bool" where
  "receiver_accepts secret header text \<longleftrightarrow> (\<exists>sig. ParseSignature header = Inr sig \<and> Verify text secret sig)"

text \<open>The request that asked to send this event: the endpoint and the type it names, and its payload.\<close>

definition asked_for :: "pgtypes \<Rightarrow> deployment \<Rightarrow> activity list \<Rightarrow> event \<Rightarrow> string \<Rightarrow> bool" where
  "asked_for ty d as ev sent \<longleftrightarrow> (\<exists>rq req. ApiRequest rq \<in> set as \<and> ar_Method rq = ''POST''
     \<and> al_CreateEvent (sv_lib (dp_server d)) (ar_Body rq) = Inr req
     \<and> uuid_in ty (cvr_EndpointID req) = Some (ev_EndpointID ev) \<and> cvr_EventType req = ev_EventType ev
     \<and> cvr_Payload req = sent)"

lemma signed_with_accepts:
  assumes "signed_with ty (origins P d as) secret ev"
    and "\<And>n. int64_ok (unix_seconds (pl_now P n)) \<and> unix_seconds (pl_now P n) \<noteq> 0"
  shows "\<exists>sent. asked_for ty d as ev sent \<and> jsonb_in ty sent = Some (ev_Payload ev)
    \<and> receiver_accepts secret (ev_Signature ev) sent"
proof -
  from assms(1) obtain input t a where a: "a \<in> set as" "origin_of P d a input t"
    and e: "uuid_in ty (ci_EndpointID input) = Some (ev_EndpointID ev)" "ci_EventType input = ev_EventType ev"
    "jsonb_in ty (ci_Payload input) = Some (ev_Payload ev)"
    "ev_Signature ev = Signature_String (Sign (ci_Payload input) secret (unix_seconds t))"
    unfolding signed_with_def origins_def by blast
  from a obtain rq req n where "a = ApiRequest rq" "ar_Method rq = ''POST''" "t = pl_now P n"
    "al_CreateEvent (sv_lib (dp_server d)) (ar_Body rq) = Inr req" "input = event_input req"
    by (auto simp: origin_of_def asked_def split: activity.splits)
  with a(1) e assms(2) [of n] show ?thesis
    by (intro exI [of _ "ci_Payload input"])
      (auto simp: asked_for_def event_input_def receiver_accepts_def parse_string_roundtrip Verify_def)
qed

text \<open>The header of a webhook that carries the signature.\<close>

lemma webhook_post_signature:
  "map_of (rq_Headers (webhook_post url pl (webhook_headers ev))) ''X-Webhook-Signature'' = Some (ev_Signature ev)"
  by (simp add: webhook_post_def webhook_headers_def map_of_Header_Set canonical_names)

text \<open>
  C11: every webhook is signed, over what the client sent. From a database without events, whatever
  requests, messages and batches came and whatever failed in them, handling a message sends at
  most one webhook, to whatever address: its body is the payload stored for the event, and the
  signature in its header verifies, with the secret of the event's own endpoint, the payload
  of a request of the history that asked to send an event of this type to this endpoint, the
  payload as the client sent it, and the body is what the database stores for that payload.
\<close>

theorem webhooks_are_signed:
  assumes "backend P rt ty pgnow" "db_ok ty (w_db w0)" "w_db w0 ''events'' = []"
    and "pings_harmless P (dp_server d)" "0 \<le> ss_batchSize (dp_scheduler d)"
    and "\<And>n. int64_ok (unix_seconds (pl_now P n)) \<and> unix_seconds (pl_now P n) \<noteq> 0"
    and "reached P d w0 as w"
  shows "wp P (processMessage gl s msg) (\<lambda>r w'. w_sent w' = w_sent w
    \<or> (\<exists>rq ev q header sent. w_sent w' = w_sent w @ [rq]
         \<and> ev \<in> row_event ` set (w_db w ''events'') \<and> webhook_of (ev_ID ev) rq \<and> rq_Body rq = ev_Payload ev
         \<and> asked_for ty d as ev sent \<and> jsonb_in ty sent = Some (rq_Body rq)
         \<and> q \<in> set (w_db w ''endpoints'') \<and> q ''id'' = VText (ev_EndpointID ev)
         \<and> map_of (rq_Headers rq) ''X-Webhook-Signature'' = Some header
         \<and> receiver_accepts (text_of (q ''secret'')) header sent)) w"
proof (rule wp_mono [OF backend.processMessage_wp [OF assms(1)]])
  have ok: "db_ok ty (w_db w)" by (rule backend.reached_keeps [OF assms(1,7,2,4,5)])
  then show "bases_ok (w_db w)" using tenants_bases by (simp add: db_ok_def tables_ok_def)
  note signed = reached_signed [OF assms(1,4,5,7,2,3)]
  fix r w' assume "handled gl ty msg w w'"
  then show "w_sent w' = w_sent w
    \<or> (\<exists>rq ev q header sent. w_sent w' = w_sent w @ [rq]
         \<and> ev \<in> row_event ` set (w_db w ''events'') \<and> webhook_of (ev_ID ev) rq \<and> rq_Body rq = ev_Payload ev
         \<and> asked_for ty d as ev sent \<and> jsonb_in ty sent = Some (rq_Body rq)
         \<and> q \<in> set (w_db w ''endpoints'') \<and> q ''id'' = VText (ev_EndpointID ev)
         \<and> map_of (rq_Headers rq) ''X-Webhook-Signature'' = Some header
         \<and> receiver_accepts (text_of (q ''secret'')) header sent)"
    unfolding handled_def
  proof
    assume "\<exists>em u q. gl_UnmarshalMessage gl (km_Value msg) = Inr em \<and> uuid_in ty (em_EventID em) = Some u
      \<and> q \<in> set (rows_with (w_db w) ''events'' ''id'' u) \<and> event_row_ok q
      \<and> \<not> resolved (ev_Status (row_event q)) \<and> dispatch_effect (row_event q) w w'"
    then obtain u r where r: "r \<in> set (w_db w ''events'')" "r ''id'' = VText u"
      and e: "dispatch_effect (row_event r) w w'" by (auto simp: rows_with_def)
    let ?ev = "row_event r"
    from signed events_of_row [where db = "w_db w", OF db_ok_keyed [OF ok] r] obtain q where q: "q \<in> set (w_db w ''endpoints'')"
      "q ''id'' = VText (ev_EndpointID ?ev)" "signed_with ty (origins P d as) (text_of (q ''secret'')) ?ev"
      unfolding signed_ok_def signed_for_def by blast
    from signed_with_accepts [OF q(3) assms(6)] obtain sent where sent: "asked_for ty d as ?ev sent"
      "jsonb_in ty sent = Some (ev_Payload ?ev)" "receiver_accepts (text_of (q ''secret'')) (ev_Signature ?ev) sent" by blast
    from e consider "w_sent w' = w_sent w"
      | url where "w_sent w' = w_sent w @ [webhook_post url (ev_Payload ?ev) (webhook_headers ?ev)]"
      unfolding dispatch_effect_def by blast
    then show ?thesis
    proof cases
      case (2 url)
      let ?rq = "webhook_post url (ev_Payload ?ev) (webhook_headers ?ev)"
      have "webhook_of (ev_ID ?ev) ?rq \<and> rq_Body ?rq = ev_Payload ?ev
          \<and> map_of (rq_Headers ?rq) ''X-Webhook-Signature'' = Some (ev_Signature ?ev)"
        by (simp add: webhook_post_signature) (simp add: webhook_post_def)
      then show ?thesis using 2 r(1) q(1,2) sent by fastforce
    qed simp
  qed (simp add: keys_changed_def)
qed

text \<open>A tenant and its endpoint, and no event yet.\<close>

definition idle_world :: world where
  "idle_world = queued_world\<lparr>w_db := event_db []\<rparr>"

lemma idle_world_ok: "db_ok sim_types (w_db idle_world)" "w_db idle_world ''events'' = []"
  by (simp_all add: db_ok_def tables_ok_def owners_ok_def keys_ok_def tenants_ok_def tenant_ok_def tenant_row_ok_def
      row_tenant_def attempts_ok_def keyed_def rows_typed_def event_row_ok_def endpoint_row_ok_def idle_world_def sample_defs)

theorem webhooks_are_signed_witness:
  "case perform (sim (answering 200)) sample_deployment (ApiRequest (sample_request ''POST'' ''/api/v1/events'')) idle_world of
     (r0, w) \<Rightarrow> wp (sim (answering 200)) (processMessage sim_lib dispatcher_main (event_msg ''e''))
       (\<lambda>r w'. w_sent w' = w_sent w
         \<or> (\<exists>rq ev q header sent. w_sent w' = w_sent w @ [rq]
           \<and> ev \<in> row_event ` set (w_db w ''events'') \<and> webhook_of (ev_ID ev) rq \<and> rq_Body rq = ev_Payload ev
           \<and> asked_for sim_types sample_deployment [ApiRequest (sample_request ''POST'' ''/api/v1/events'')] ev sent
           \<and> jsonb_in sim_types sent = Some (rq_Body rq)
           \<and> q \<in> set (w_db w ''endpoints'') \<and> q ''id'' = VText (ev_EndpointID ev)
           \<and> map_of (rq_Headers rq) ''X-Webhook-Signature'' = Some header
           \<and> receiver_accepts (text_of (q ''secret'')) header sent)) w"
proof -
  let ?a = "ApiRequest (sample_request ''POST'' ''/api/v1/events'')"
  obtain r0 w where run: "perform (sim (answering 200)) sample_deployment ?a idle_world = (r0, w)" by (rule prod.exhaust)
  from reached_act [OF reached_start run] have one: "reached (sim (answering 200)) sample_deployment idle_world [?a] w" by simp
  show ?thesis
    unfolding run prod.case
    by (rule webhooks_are_signed [OF sim_backend.backend_axioms idle_world_ok sample_deployment_ok _ one])
      (simp add: unix_seconds_def int64_ok_def)
qed

end
