(* ===== verification/Liveness.thy ===== *)
theory Liveness
  imports Histories
begin

text \<open>
  What the platform achieves when nothing fails: an open event whose endpoint is active, whose
  breaker is closed and whose lock is free is delivered by one message, and an event that is
  accepted is delivered by the message it was published with. \<open>reliable_backend\<close> is a platform
  whose servers answer every request; how long they take, and what identifiers and random
  numbers come, stays open.
\<close>

text \<open>The webhook of the event was sent once, and the event is marked delivered.\<close>

definition delivered_to :: "event \<Rightarrow> string \<Rightarrow> world \<Rightarrow> world \<Rightarrow> bool" where
  "delivered_to ev url w w' \<longleftrightarrow> w_log w' = w_log w
     \<and> w_sent w' = w_sent w @ [webhook_post url (ev_Payload ev) (webhook_headers ev)]
     \<and> (\<exists>t. w_db w' ''events'' = set_rows ''events'' (ev_ID ev) (put_status EventStatusDelivered t) (w_db w) ''events'')"

text \<open>No worker holds the event, its endpoint's breaker is closed and its endpoint is not cached.\<close>

definition undisturbed :: "event \<Rightarrow> keyspace \<Rightarrow> bool" where
  "undisturbed ev ks \<longleftrightarrow> ks (event_lock (ev_ID ev)) = None \<and> ks (cache_key (ev_EndpointID ev)) = None
     \<and> (ks (cb_stateKey (ev_EndpointID ev)) = None \<or> ks (cb_stateKey (ev_EndpointID ev)) = Some (RStr CBClosed, None))"

text \<open>The endpoint host answers every request, with a status that means success.\<close>

definition accepting :: "platform \<Rightarrow> bool" where
  "accepting P \<longleftrightarrow> (\<forall>n rq. \<exists>rs. pl_http P n rq = Inr rs \<and> 200 \<le> rs_StatusCode rs \<and> rs_StatusCode rs < 300)"

locale reliable_backend = backend + reliable_redis P rt +
  assumes exec_answered: "infra e \<Longrightarrow> fst (pl_exec P n st db) \<noteq> Inl e"
    and query_answered: "infra e \<Longrightarrow> pl_query P n q db \<noteq> Inl e"
    and write_answered: "pl_write P n m l = (None, l @ [m])"
begin

subsection \<open>Statements that find their row\<close>

lemma select_found_wp:
  assumes "find_column (pg_schema t) c = Some (col c UUID)" "uuid_in ty s = Some u"
    and "set (rows_with (w_db w) t c u) = {r}" "\<And>rest. wp P (k (Inr (map r cs # rest))) Q (tick w)"
  shows "wp P (PgQuery (Select cs t (Eq c (VText s)) None None) k) Q w"
proof -
  let ?q = "Select cs t (Eq c (VText s)) None None" and ?now = "pgnow (w_tick w)"
  have rows: "filter (holds ty (pg_schema t) ?now (Eq c (VText s))) (w_db w t) = rows_with (w_db w) t c u"
    unfolding rows_with_def by (rule filter_cong) (simp_all only: holds_uuid [OF assms(1,2)])
  have first: "\<exists>rest. out = map r cs # rest" if "sql_rows ty pg_schema ?now ?q (w_db w) out" for out
  proof -
    from that obtain rs where rs: "mset rs = mset (rows_with (w_db w) t c u)" "out = map (\<lambda>r. map r cs) rs"
      by (auto simp: sql_rows_def window_def rows simp del: holds.simps mset_filter)
    with mset_eq_setD [OF rs(1)] assms(3) show ?thesis by (cases rs) auto
  qed
  have "query_error ty pg_schema ?q = None"
    using assms(1,2) by (simp add: query_error_def)
  then obtain rest where "pl_query P (w_tick w) ?q (w_db w) = Inr (map r cs # rest)"
    using query_law [of "w_tick w" ?q "w_db w"] query_answered first unfolding query_obeys_def by fastforce
  then show ?thesis using assms(4) by (simp add: wp_PgQuery)
qed

lemma update_found_wp:
  assumes "find_column (pg_schema t) ''id'' = Some (col ''id'' UUID)" "uuid_in ty s = Some u"
    and "\<And>now r. store_all ty (pg_schema t) (map (\<lambda>(c, s). (c, set_value now s)) sets) r = Inr (f now r)"
    and "rows_with (w_db w) t ''id'' u \<noteq> []"
    and "\<And>now n. 0 < n \<Longrightarrow> wp P (k (Inr n)) Q (tick (w\<lparr>w_db := set_rows t u (f now) (w_db w)\<rparr>))"
  shows "wp P (PgExec (Update t sets (Eq ''id'' (VText s))) k) Q w"
proof -
  let ?s = "Update t sets (Eq ''id'' (VText s))" and ?now = "pgnow (w_tick w)"
  have hit: "holds ty (pg_schema t) ?now (Eq ''id'' (VText s)) = (\<lambda>r. r ''id'' = VText u)"
    by (rule ext) (rule holds_uuid [OF assms(1,2)])
  have sem: "sql_exec ty pg_schema pg_tables ?now ?s (w_db w) =
      (Inr (length (rows_with (w_db w) t ''id'' u)), set_rows t u (f ?now) (w_db w))"
    using assms(1,2,4) by (simp add: hit assms(3) rows_with_def set_rows_def Let_def del: holds.simps)
  have "\<not> (\<exists>e. infra e \<and> fst (pl_exec P (w_tick w) ?s (w_db w)) = Inl e)" using exec_answered by blast
  then have "pl_exec P (w_tick w) ?s (w_db w) =
      (Inr (length (rows_with (w_db w) t ''id'' u)), set_rows t u (f ?now) (w_db w))"
    using exec_law [of "w_tick w" ?s "w_db w"] unfolding exec_obeys_def sem by auto
  then show ?thesis using assms(5) [of "length (rows_with (w_db w) t ''id'' u)" ?now] assms(4) by (simp add: wp_PgExec)
qed

lemma event_found_wp:
  assumes "uuid_in ty s = Some u" "set (rows_with (w_db w) ''events'' ''id'' u) = {r}" "event_row_ok r"
    and "Q (Inr (row_event r)) (tick w)"
  shows "wp P (EventRepo_GetByID s) Q w"
  unfolding EventRepo_GetByID_def pg_QueryRow_def wp_bind
  by (rule select_found_wp [OF _ assms(1,2)])
    (use assms(3,4) in \<open>simp_all add: row_simps EventRepo_scanEvent_def event_Scan_row\<close>)

lemma endpoint_found_wp:
  assumes "uuid_in ty s = Some u" "set (rows_with (w_db w) ''endpoints'' ''id'' u) = {r}" "endpoint_row_ok r"
    and "Q (Inr (row_endpoint r)) (tick w)"
  shows "wp P (EndpointRepo_GetByID s) Q w"
  unfolding EndpointRepo_GetByID_def pg_QueryRow_def wp_bind
  by (rule select_found_wp [OF _ assms(1,2)])
    (use assms(3,4) in \<open>simp_all add: row_simps EndpointRepo_scanEndpoint_def endpoint_Scan_row\<close>)

lemma status_set_wp:
  assumes "status_ok st" "uuid_in ty s = Some u" "rows_with (w_db w) ''events'' ''id'' u \<noteq> []"
    and "\<And>now. Q None (tick (w\<lparr>w_db := set_rows ''events'' u (put_status st now) (w_db w)\<rparr>))"
  shows "wp P (EventRepo_UpdateStatus s st) Q w"
  unfolding EventRepo_UpdateStatus_def
proof (rule update_found_wp [OF _ assms(2) _ assms(3)])
  show "store_all ty (pg_schema ''events'') (map (\<lambda>(c, s). (c, set_value now s))
      [(''status'', Param (VText st)), (''updated_at'', NowFn)]) r = Inr (put_status st now r)" for now r
    unfolding pg_schema_simps by (rule store_status [OF assms(1)])
qed (use assms(4) in \<open>simp_all add: row_simps\<close>)

subsection \<open>Delivery\<close>

lemma lock_free_wp:
  assumes "w_keys w (lock_key rid) = None" "\<And>val w'. keys_changed {lock_key rid} w w' \<Longrightarrow> Q (val, True) w'"
  shows "wp P (lock_Acquire rid ttl) Q w"
  unfolding lock_Acquire_def redis_SetNX_def
  using assms(1) by (auto simp: wp_do live_def keys_changed_def intro!: assms(2))

lemma breaker_closed_wp:
  assumes "w_keys w (cb_stateKey eid) = None \<or> w_keys w (cb_stateKey eid) = Some (RStr CBClosed, None)"
    and "Q (True, CBClosed, None) (tick w)"
  shows "wp P (circuitBreakerService_Allow r eid) Q w"
  unfolding circuitBreakerService_Allow_def CB_Allow_def redis_Get_def
  using assms by (auto simp: wp_do live_def)

lemma endpoint_fetched_wp:
  assumes "w_keys w (cache_key eid) = None" "uuid_in ty eid = Some eid"
    and "set (rows_with (w_db w) ''endpoints'' ''id'' eid) = {q}" "endpoint_row_ok q"
    and "\<And>w'. keys_changed {cache_key eid} w w' \<Longrightarrow> Q (Inr (row_endpoint q)) w'"
  shows "wp P (getEndpoint gl eid) Q w"
proof -
  have "q \<in> set (rows_with (w_db w) ''endpoints'' ''id'' eid)" using assms(3) by simp
  then have "ep_ID (row_endpoint q) = eid" by (simp add: rows_with_def row_endpoint_def)
  then have kc: "keys_changed {cache_key (ep_ID (row_endpoint q))} (tick (tick w)) w' \<Longrightarrow> keys_changed {cache_key eid} w w'" for w'
    by (auto simp: keys_changed_def)
  have "wp P (EndpointRepo_GetByID eid) (\<lambda>r. wp P (case r of Inl err \<Rightarrow> Ret (Inl err)
      | Inr ep \<Rightarrow> bind (cache_Set gl ep) (\<lambda>cacheErr. Ret (Inr ep))) Q) (tick w)"
    by (rule endpoint_found_wp [OF assms(2) _ assms(4)])
      (use assms(3) in \<open>auto intro!: cache_Set_wp assms(5) kc\<close>)
  then show ?thesis
    unfolding getEndpoint_def cache_Get_def redis_Get_def
    using assms(1) by (simp add: wp_do live_def Let_def)
qed

lemma deliver_accepted_wp:
  assumes "gl_NewRequest gl url = None" "accepting P"
    and "\<And>res w'. successful res \<Longrightarrow> w_sent w' = w_sent w @ [webhook_post url payload headers] \<Longrightarrow>
      w_db w' = w_db w \<Longrightarrow> w_log w' = w_log w \<Longrightarrow> Q res w'"
  shows "wp P (Deliver gl url payload headers) Q w"
proof -
  obtain rs where "pl_http P (w_tick (tick w)) (webhook_post url payload headers) = Inr rs"
    "200 \<le> rs_StatusCode rs" "rs_StatusCode rs < 300" using assms(2) unfolding accepting_def by metis
  then show ?thesis using assms(1) by (auto simp: Deliver_def successful_def intro!: assms(3))
qed

lemma deliver_event_delivers:
  assumes "uuid_in ty (ev_ID ev) = Some (ev_ID ev)" "rows_with (w_db w) ''events'' ''id'' (ev_ID ev) \<noteq> []"
    and "gl_NewRequest gl (ep_URL ep) = None" "accepting P"
  shows "wp P (deliver_event gl s ev ep) (\<lambda>r w'. r = None \<and> delivered_to ev (ep_URL ep) w w') w"
  unfolding deliver_event_def wp_bind
proof (rule deliver_accepted_wp [OF assms(3,4)], rule recordAttempt_wp, goal_cases)
  case (1 res w1 w2 atts)
  have status: "wp P (EventRepo_UpdateStatus (ev_ID ev) EventStatusDelivered)
      (\<lambda>e. wp P (Ret None) (\<lambda>r w'. r = None \<and> delivered_to ev (ep_URL ep) w w')) w3"
    if "keys_changed S w2 w3" for S w3
  proof (rule status_set_wp [OF _ assms(1)])
    show "rows_with (w_db w3) ''events'' ''id'' (ev_ID ev) \<noteq> []"
      using that 1 assms(2) by (simp add: keys_changed_def rows_with_def)
  qed (use that 1 in \<open>auto simp: delivered_to_def keys_changed_def only_db_def set_rows_def\<close>)
  show ?case
    unfolding if_P [OF 1(1)] wp_bind by (rule CB_RecordSuccess_frame) (rule status)
qed

text \<open>The rest of \<^verbatim>\<open>processMessage\<close> once the breaker has let the event through.\<close>

lemma locked_part_delivers:
  assumes uuid: "uuid_in ty (ev_ID ev) = Some (ev_ID ev)" "rows_with (w_db w) ''events'' ''id'' (ev_ID ev) \<noteq> []"
    and closed: "w_keys w (cb_stateKey (ev_EndpointID ev)) = None
      \<or> w_keys w (cb_stateKey (ev_EndpointID ev)) = Some (RStr CBClosed, None)"
    and cache: "w_keys w (cache_key (ev_EndpointID ev)) = None"
    and ep: "uuid_in ty (ev_EndpointID ev) = Some (ev_EndpointID ev)"
      "set (rows_with (w_db w) ''endpoints'' ''id'' (ev_EndpointID ev)) = {q}" "endpoint_row_ok q" "ep_Active (row_endpoint q)"
    and up: "gl_NewRequest gl (ep_URL (row_endpoint q)) = None" "accepting P"
  shows "wp P (locked_part gl s ev) (\<lambda>x w'. x = None \<and> delivered_to ev (ep_URL (row_endpoint q)) w w') w"
proof -
  let ?Q = "\<lambda>x w'. x = None \<and> delivered_to ev (ep_URL (row_endpoint q)) w w'"
  let ?after = "\<lambda>r. case r of
      Inl err \<Rightarrow>
        if errors_is err ErrNotFound then bind (handleDeadLetter ev ''endpoint not found'' 0) (\<lambda>_. Ret None)
        else Ret (Some (Wrapf ''get endpoint: '' err ''''))
    | Inr ep \<Rightarrow>
        if \<not> ep_Active ep then bind (handleDeadLetter ev ''endpoint inactive'' 0) (\<lambda>_. Ret None)
        else deliver_event gl s ev ep"
  have "wp P (getEndpoint gl (ev_EndpointID ev)) (\<lambda>r. wp P (?after r) ?Q) (tick w)"
  proof (rule endpoint_fetched_wp [OF _ ep(1) _ ep(3)])
    fix w2 assume k: "keys_changed {cache_key (ev_EndpointID ev)} (tick w) w2"
    have "wp P (deliver_event gl s ev (row_endpoint q)) ?Q w2"
      by (rule wp_mono [OF deliver_event_delivers [OF uuid(1) _ up]])
        (use k uuid(2) in \<open>auto simp: delivered_to_def keys_changed_def set_rows_def\<close>)
    then show "wp P (?after (Inr (row_endpoint q))) ?Q w2" using ep(4) by simp
  qed (use cache ep(2) in simp_all)
  then show ?thesis
    unfolding locked_part_def
    by (subst wp_bind, intro breaker_closed_wp [OF closed]) simp
qed

lemma processMessage_delivers:
  assumes "gl_UnmarshalMessage gl (km_Value msg) = Inr em" "uuid_in ty (em_EventID em) = Some u"
    and "set (rows_with (w_db w) ''events'' ''id'' u) = {r}" "event_row_ok r" "ev = row_event r"
    and "\<not> resolved (ev_Status ev)" "undisturbed ev (w_keys w)"
    and "uuid_in ty (ev_EndpointID ev) = Some (ev_EndpointID ev)"
    and "set (rows_with (w_db w) ''endpoints'' ''id'' (ev_EndpointID ev)) = {q}" "endpoint_row_ok q" "ep_Active (row_endpoint q)"
    and "gl_NewRequest gl (ep_URL (row_endpoint q)) = None" "accepting P"
  shows "wp P (processMessage gl s msg) (\<lambda>x w'. x = None \<and> delivered_to ev (ep_URL (row_endpoint q)) w w') w"
proof -
  let ?Q = "\<lambda>x w'. x = None \<and> delivered_to ev (ep_URL (row_endpoint q)) w w'"
  have "r \<in> set (rows_with (w_db w) ''events'' ''id'' u)" using assms(3) by simp
  then have u: "ev_ID ev = u" using assms(5) by (simp add: rows_with_def row_event_def)
  have uuid: "uuid_in ty (ev_ID ev) = Some (ev_ID ev)" using uuid_canonical [OF assms(2)] u by simp
  have row: "rows_with (w_db w) ''events'' ''id'' u \<noteq> []" using assms(3) by auto
  have locked: "wp P (locked_part gl s ev) (\<lambda>a. wp P (lock_Release rid val) (\<lambda>_. ?Q a)) w1"
    if k: "keys_changed {event_lock (ev_ID ev)} w w1" for w1 rid val
  proof (rule wp_mono [OF locked_part_delivers [OF uuid _ _ _ assms(8) _ assms(10-13)]])
    fix a w2 assume "a = None \<and> delivered_to ev (ep_URL (row_endpoint q)) w1 w2"
    then show "wp P (lock_Release rid val) (\<lambda>_. ?Q a) w2"
      using k by (auto intro!: lock_Release_wp simp: delivered_to_def keys_changed_def set_rows_def)
  qed (use k assms(7,9) row u in \<open>simp_all add: keys_changed_def undisturbed_def cb_stateKey_def cache_key_def lock_key_def\<close>)
  have "wp P (process_event gl s ev) ?Q (tick w)"
    unfolding process_event_def
  proof (subst if_not_P, goal_cases)
    case 1
    show ?case using assms(6) by (auto simp: resolved_def)
  next
    case 2
    show ?case
      unfolding wp_bind
    proof (rule lock_free_wp, goal_cases)
      case (2 val w1)
      then have "keys_changed {event_lock (ev_ID ev)} w w1" by (auto simp: keys_changed_def)
      from locked [OF this] show ?case by simp
    qed (use assms(7) in \<open>simp add: undisturbed_def\<close>)
  qed
  then show ?thesis
    unfolding processMessage_def assms(1) sum.case
    by (subst wp_bind, intro event_found_wp [OF assms(2,3,4)]) (simp add: assms(5))
qed

end

subsection \<open>From the request to the webhook\<close>

text \<open>
  What is used of \<^verbatim>\<open>encoding/json\<close>. A message that was encoded is decoded again, with the identifier
  of its event, when that is a UUID in canonical form (which is plain ASCII). A message is encoded
  when its payload, a \<^verbatim>\<open>json.RawMessage\<close>, is JSON; \<open>payload_ok\<close> says so of a payload, for times in the
  years that \<^verbatim>\<open>time.MarshalJSON\<close> writes (up to 9999), and \<open>clock_ok\<close> that the clock is in them.
\<close>

definition codec_ok :: "golib \<Rightarrow> pgtypes \<Rightarrow> bool" where
  "codec_ok gl ty \<longleftrightarrow> (\<forall>m v. gl_MarshalMessage gl m = Inr v \<longrightarrow> uuid_in ty (em_EventID m) = Some (em_EventID m) \<longrightarrow>
     (\<exists>m'. gl_UnmarshalMessage gl v = Inr m' \<and> em_EventID m' = em_EventID m))"

definition json_time :: "time \<Rightarrow> bool" where
  "json_time t \<longleftrightarrow> 0 \<le> t \<and> t < 253402300800 * 1000000000"

definition payload_ok :: "golib \<Rightarrow> string \<Rightarrow> bool" where
  "payload_ok gl j \<longleftrightarrow> (\<forall>m. em_Payload m = j \<longrightarrow> json_time (em_Timestamp m) \<longrightarrow> (\<exists>v. gl_MarshalMessage gl m = Inr v))"

definition clock_ok :: "platform \<Rightarrow> bool" where
  "clock_ok P \<longleftrightarrow> (\<forall>n. json_time (pl_now P n))"

text \<open>A message for the event is in the log, and its row is marked queued.\<close>

definition enqueued :: "golib \<Rightarrow> event \<Rightarrow> string \<Rightarrow> world \<Rightarrow> world \<Rightarrow> bool" where
  "enqueued gl ev u w w' \<longleftrightarrow> w_keys w' = w_keys w
     \<and> (\<exists>m em. w_log w' = w_log w @ [m] \<and> gl_UnmarshalMessage gl (km_Value m) = Inr em \<and> em_EventID em = ev_ID ev)
     \<and> (\<exists>t. w_db w' = set_rows ''events'' u (put_status EventStatusQueued t) (w_db w))"

text \<open>No event is being handled; the breaker of the endpoint is closed and it is not cached.\<close>

definition idle :: "string \<Rightarrow> keyspace \<Rightarrow> bool" where
  "idle eid ks \<longleftrightarrow> (\<forall>u. ks (event_lock u) = None) \<and> ks (cache_key eid) = None
     \<and> (ks (cb_stateKey eid) = None \<or> ks (cb_stateKey eid) = Some (RStr CBClosed, None))"

text \<open>An accepted event: permitted, signed, stored, published and marked queued.\<close>

definition create_enqueued ::
  "pgtypes \<Rightarrow> (nat \<Rightarrow> time) \<Rightarrow> golib \<Rightarrow> string \<Rightarrow> CreateEventInput \<Rightarrow> world \<Rightarrow> gerr + event \<Rightarrow> world \<Rightarrow> bool" where
  "create_enqueued ty clock gl tid input w res w' \<longleftrightarrow> (\<forall>ev. res = Inr ev \<longrightarrow>
    (\<exists>ep ev0 row w1. may_send ty (w_db w) tid input ep \<and> signed_event clock tid input ep ev0
       \<and> ev = ev0\<lparr>ev_Status := EventStatusQueued\<rparr>
       \<and> insert_row ty ''events'' eventColumns (event_params ev0) (w_db w) = Inr row
       \<and> w_db w1 = with_event row (w_db w) \<and> w_keys w1 = w_keys w \<and> w_log w1 = w_log w
       \<and> enqueued gl ev0 (the (uuid_in ty (ev_ID ev0))) w1 w'))"

lemma create_enqueued_refused [simp]: "create_enqueued ty clock gl tid input w (Inl e) w'"
  by (simp add: create_enqueued_def)

lemma row_event_put_status:
  "row_event (put_status st t r) = (row_event r)\<lparr>ev_Status := st, ev_UpdatedAt := micros t\<rparr>"
  by (simp add: row_event_def put_status_def)

lemma endpoint_unique:
  "owners_ok ty db \<Longrightarrow> p \<in> set (db ''endpoints'') \<Longrightarrow> q \<in> set (db ''endpoints'') \<Longrightarrow> p ''id'' = q ''id'' \<Longrightarrow> p = q"
  unfolding owners_ok_def by blast

context reliable_backend
begin

lemma PublishEvent_answered:
  assumes "codec_ok gl ty" "uuid_in ty eid = Some eid"
    and "\<And>m em. gl_UnmarshalMessage gl (km_Value m) = Inr em \<Longrightarrow> em_EventID em = eid \<Longrightarrow>
      Q None (tick (tick w\<lparr>w_log := w_log w @ [m]\<rparr>))"
    and "\<And>e. \<not> (payload_ok gl pl \<and> clock_ok P) \<Longrightarrow> Q (Some e) (tick w)"
  shows "wp P (PublishEvent gl p eid tid epid et pl sg) Q w"
proof (cases "gl_MarshalMessage gl (event_message eid tid epid et pl sg (pl_now P (w_tick w)))")
  case (Inl e)
  let ?m = "event_message eid tid epid et pl sg (pl_now P (w_tick w))"
  have "em_Payload ?m = pl \<and> em_Timestamp ?m = pl_now P (w_tick w)" by (simp add: event_message_def)
  with Inl have "\<not> (payload_ok gl pl \<and> clock_ok P)"
    unfolding payload_ok_def clock_ok_def by (metis Inl_Inr_False)
  then show ?thesis unfolding PublishEvent_def using Inl assms(4) by simp
next
  case (Inr v)
  then obtain m' where "gl_UnmarshalMessage gl v = Inr m'" "em_EventID m' = eid"
    using assms(1,2) unfolding codec_ok_def by (fastforce simp: event_message_def)
  with Inr show ?thesis
    unfolding PublishEvent_def using assms(3) by (simp add: wp_KafkaWrite write_answered)
qed

lemma publish_new_enqueues:
  assumes "codec_ok gl ty" "payload_ok gl (ev_Payload ev)" "clock_ok P"
    and "uuid_in ty (ev_ID ev) = Some (ev_ID ev)" "rows_with (w_db w) ''events'' ''id'' (ev_ID ev) \<noteq> []"
  shows "wp P (publish_new gl p ev) (\<lambda>r w'. r = Inr (ev\<lparr>ev_Status := EventStatusQueued\<rparr>) \<and> enqueued gl ev (ev_ID ev) w w') w"
  unfolding publish_new_def wp_bind
proof (rule PublishEvent_answered [OF assms(1,4)], goal_cases)
  case (1 m em)
  then show ?case
    by simp (rule status_set_wp [OF _ assms(4)]; use assms(5) in \<open>auto simp: enqueued_def set_rows_def\<close>)
qed (use assms(2,3) in simp)

lemma Create_enqueues:
  assumes "codec_ok gl ty" "payload_ok gl (ci_Payload input)" "clock_ok P"
  shows "wp P (eventService_Create gl p tid input) (create_enqueued ty (pl_now P) gl tid input w) w"
    (is "wp P _ ?Q w")
proof (cases "CreateEventInput_Validate input = []")
  case True
  show ?thesis
    unfolding eventService_Create_def Let_def using True
  proof (simp only: not_False_eq_True simp_thms if_False wp_bind, rule_tac EndpointRepo_GetByID_wp, goal_cases)
    case (1 v q)
    let ?ep = "row_endpoint q"
    show ?case
    proof (cases "ep_TenantID ?ep = tid \<and> ep_Active ?ep \<and> matchesEventTypes (ep_EventTypes ?ep) (ci_EventType input)")
      case ok: True
      with 1 True have ms: "may_send ty (w_db w) tid input ?ep"
        unfolding may_send_def event_input_accepted_iff [symmetric] by blast
      have created: "wp P (EventRepo_Create ev0) (\<lambda>e. wp P (case e of
            Some err \<Rightarrow> Ret (Inl (Wrapf ''create event: '' err '''')) | None \<Rightarrow> publish_new gl p ev0) ?Q) w0"
        if sg: "signed_event (pl_now P) tid input ?ep ev0" and uuid: "uuid_in ty (ev_ID ev0) = Some (ev_ID ev0)"
          and w0: "w_db w0 = w_db w" "w_keys w0 = w_keys w" "w_log w0 = w_log w"
        for ev0 w0
      proof (rule EventRepo_Create_wp, goal_cases)
        case (1 row)
        define w1 where "w1 = tick (w0\<lparr>w_db := (w_db w0)(''events'' := w_db w0 ''events'' @ [row])\<rparr>)"
        have w1: "w_db w1 = with_event row (w_db w)" "w_keys w1 = w_keys w" "w_log w1 = w_log w"
          using w0 by (simp_all add: w1_def with_event_def)
        note row = insert_event_row [OF 1]
        have "ev_Payload ev0 = ci_Payload input" using sg by (auto simp: signed_event_def new_event_def)
        then have "wp P (publish_new gl p ev0) (\<lambda>r w'. r = Inr (ev0\<lparr>ev_Status := EventStatusQueued\<rparr>)
            \<and> enqueued gl ev0 (the (uuid_in ty (ev_ID ev0))) w1 w') w1"
          unfolding uuid option.sel
          by (intro publish_new_enqueues assms) (use uuid assms row w1(1) in \<open>auto simp: rows_with_def with_event_def\<close>)
        then have "wp P (publish_new gl p ev0) ?Q w1"
        proof (rule wp_mono)
          fix r :: "gerr + event" and w' :: world
          assume "r = Inr (ev0\<lparr>ev_Status := EventStatusQueued\<rparr>) \<and> enqueued gl ev0 (the (uuid_in ty (ev_ID ev0))) w1 w'"
          then show "?Q r w'" using ms sg 1 [unfolded w0(1)] w1 unfolding create_enqueued_def by blast
        qed
        then show ?case by (simp add: w1_def)
      qed simp_all
      show ?thesis using ok by simp (rule created; auto simp: signed_event_def new_event_def uuid_generated)
    qed auto
  qed simp_all
qed (simp add: eventService_Create_def Let_def)

text \<open>The row that the message of a new event finds.\<close>

lemma enqueued_row:
  assumes "insert_row ty ''events'' eventColumns (event_params ev0) (w_db w) = Inr row" "w_db w1 = with_event row (w_db w)"
    and "enqueued gl ev0 (the (uuid_in ty (ev_ID ev0))) w1 w'"
  obtains t where "set (rows_with (w_db w') ''events'' ''id'' (the (uuid_in ty (ev_ID ev0)))) = {put_status EventStatusQueued t row}"
    "w_db w' ''endpoints'' = w_db w ''endpoints''"
proof -
  from assms(3) obtain t where t: "w_db w' = set_rows ''events'' (the (uuid_in ty (ev_ID ev0)))
      (put_status EventStatusQueued t) (w_db w1)" by (auto simp: enqueued_def)
  note row = insert_event_row [OF assms(1)]
  then have "\<forall>q \<in> set (w_db w ''events''). q ''id'' \<noteq> VText (the (uuid_in ty (ev_ID ev0)))"
    by (auto simp: rows_with_def filter_empty_conv)
  with row t assms(2) show thesis
    by (intro that [of t])
      (auto simp: rows_with_def set_rows_def update_rows_def with_event_def put_status_def split: if_splits)
qed

end

text \<open>What an accepted event is for the message it was published with: its row and its endpoint.\<close>

definition accepted_as :: "golib \<Rightarrow> pgtypes \<Rightarrow> CreateEventInput \<Rightarrow> event \<Rightarrow> row \<Rightarrow> row \<Rightarrow> kmessage \<Rightarrow> world \<Rightarrow> world \<Rightarrow> bool" where
  "accepted_as gl ty input ev r q m w w' \<longleftrightarrow> (let ev' = row_event r; v = ep_ID (row_endpoint q) in
     w_log w' = w_log w @ [m] \<and> w_keys w' = w_keys w \<and> w_db w' ''endpoints'' = w_db w ''endpoints''
     \<and> (\<exists>em. gl_UnmarshalMessage gl (km_Value m) = Inr em \<and> uuid_in ty (em_EventID em) = Some (ev_ID ev'))
     \<and> set (rows_with (w_db w') ''events'' ''id'' (ev_ID ev')) = {r} \<and> event_row_ok r
     \<and> ev_Status ev' = EventStatusQueued \<and> ev_AttemptCount ev' = 0
     \<and> ev_Signature ev' = ev_Signature ev \<and> jsonb_in ty (ci_Payload input) = Some (ev_Payload ev')
     \<and> q \<in> set (w_db w ''endpoints'') \<and> q ''id'' = VText v \<and> r ''endpoint_id'' = VText v \<and> endpoint_row_ok q
     \<and> ep_Active (row_endpoint q) \<and> uuid_in ty (ci_EndpointID input) = Some v)"

context reliable_backend
begin

lemma Create_accepts:
  assumes "codec_ok gl ty" "payload_ok gl (ci_Payload input)" "clock_ok P"
  shows "wp P (eventService_Create gl p tid input) (\<lambda>res w'. \<forall>ev. res = Inr ev \<longrightarrow>
    (\<exists>r q m. accepted_as gl ty input ev r q m w w')) w"
proof (rule wp_mono [OF Create_enqueues [OF assms]], unfold create_enqueued_def, intro allI impI,
    drule_tac x = ev in spec, elim impE exE conjE, assumption)
  fix res :: "gerr + event" and w' w1 :: world and ev ev0 :: event and ep row
  let ?u = "the (uuid_in ty (ev_ID ev0))"
  assume ms: "may_send ty (w_db w) tid input ep" and sg: "signed_event (pl_now P) tid input ep ev0"
    and ev: "ev = ev0\<lparr>ev_Status := EventStatusQueued\<rparr>"
    and ins: "insert_row ty ''events'' eventColumns (event_params ev0) (w_db w) = Inr row"
    and w1: "w_db w1 = with_event row (w_db w)" "w_keys w1 = w_keys w" "w_log w1 = w_log w"
    and enq: "enqueued gl ev0 ?u w1 w'"
  from ms obtain v q where q: "uuid_in ty (ci_EndpointID input) = Some v" "q \<in> set (w_db w ''endpoints'')"
    "q ''id'' = VText v" "endpoint_row_ok q" "ep_Active (row_endpoint q)"
    by (auto simp: may_send_def rows_with_def)
  obtain t where t: "set (rows_with (w_db w') ''events'' ''id'' ?u) = {put_status EventStatusQueued t row}"
    "w_db w' ''endpoints'' = w_db w ''endpoints''" by (rule enqueued_row [OF ins w1(1) enq])
  obtain m em where m: "w_log w' = w_log w @ [m]" "gl_UnmarshalMessage gl (km_Value m) = Inr em" "em_EventID em = ev_ID ev0"
    "w_keys w' = w_keys w" using enq w1(2,3) by (auto simp: enqueued_def)
  note row = insert_event_row [OF ins] insert_event_payload [OF ins]
  define r where "r = put_status EventStatusQueued t row"
  have stored: "row_event r = (stored_event ty ev0)\<lparr>ev_Status := EventStatusQueued, ev_UpdatedAt := micros t\<rparr>"
    using row(1) by (simp add: r_def row_event_put_status)
  have sent: "ev_EndpointID ev0 = ci_EndpointID input" "ev_Payload ev0 = ci_Payload input" "ev_AttemptCount ev0 = 0"
    using sg by (auto simp: signed_event_def new_event_def)
  have "r ''endpoint_id'' = VText v" using row(1) q(1) sent by (auto simp: r_def put_status_def)
  moreover have "ev_ID (row_event r) = ?u" "uuid_in ty (em_EventID em) = Some ?u" "ep_ID (row_endpoint q) = v"
    using row(1) m(3) q(3) by (auto simp: stored stored_event_def row_endpoint_def)
  moreover have "ev_Status (row_event r) = EventStatusQueued" "ev_AttemptCount (row_event r) = 0" "ev_Signature (row_event r) = ev_Signature ev"
    "jsonb_in ty (ci_Payload input) = Some (ev_Payload (row_event r))"
    using row(2) by (auto simp: stored stored_event_def sent ev)
  moreover have "event_row_ok r" using row(1) by (simp add: r_def)
  ultimately have "accepted_as gl ty input ev r q m w w'"
    using m t q unfolding accepted_as_def Let_def r_def [symmetric] by simp
  then show "\<exists>r q m. accepted_as gl ty input ev r q m w w'" by blast
qed

lemma accepted_is_delivered:
  assumes "codec_ok gl ty" "payload_ok gl (ci_Payload input)" "clock_ok P" "accepting P" "db_ok ty (w_db w)"
    and "\<And>q. q \<in> set (w_db w ''endpoints'') \<Longrightarrow> uuid_in ty (ci_EndpointID input) = Some (ep_ID (row_endpoint q)) \<Longrightarrow>
      gl_NewRequest gl (ep_URL (row_endpoint q)) = None \<and> idle (ep_ID (row_endpoint q)) (w_keys w)"
  shows "wp P (eventService_Create gl p tid input) (\<lambda>res w1. \<forall>ev. res = Inr ev \<longrightarrow>
    (\<exists>m q. w_log w1 = w_log w @ [m] \<and> q \<in> set (w_db w ''endpoints'')
       \<and> uuid_in ty (ci_EndpointID input) = Some (ep_ID (row_endpoint q))
       \<and> wp P (processMessage gl s m) (\<lambda>x w2. \<exists>ev'. delivered_to ev' (ep_URL (row_endpoint q)) w1 w2
            \<and> ev_Signature ev' = ev_Signature ev \<and> jsonb_in ty (ci_Payload input) = Some (ev_Payload ev')) w1)) w"
proof (rule wp_mono [OF Create_accepts [OF assms(1-3)]], intro allI impI, drule_tac x = ev in spec, elim impE exE, assumption)
  fix res :: "gerr + event" and w1 :: world and ev r q m
  let ?v = "ep_ID (row_endpoint q)"
  assume "accepted_as gl ty input ev r q m w w1"
  note acc = this [unfolded accepted_as_def Let_def]
  then obtain em where em: "gl_UnmarshalMessage gl (km_Value m) = Inr em" "uuid_in ty (em_EventID em) = Some (ev_ID (row_event r))"
    by blast
  have eid: "ev_EndpointID (row_event r) = ?v" using acc by (simp add: row_event_def)
  have "q' = q" if "q' \<in> set (w_db w ''endpoints'')" "q' ''id'' = VText ?v" for q'
    by (rule endpoint_unique [OF db_ok_owners [OF assms(5)] that(1)]) (use acc that(2) in simp_all)
  then have "set (rows_with (w_db w) ''endpoints'' ''id'' ?v) = {q}" unfolding rows_with_def set_filter using acc by blast
  moreover have "rows_with (w_db w1) ''endpoints'' ''id'' ?v = rows_with (w_db w) ''endpoints'' ''id'' ?v"
    using acc by (simp add: rows_with_def)
  ultimately have qs: "set (rows_with (w_db w1) ''endpoints'' ''id'' (ev_EndpointID (row_event r))) = {q}" by (simp add: eid)
  have "wp P (processMessage gl s m) (\<lambda>x w2. x = None \<and> delivered_to (row_event r) (ep_URL (row_endpoint q)) w1 w2) w1"
    by (rule processMessage_delivers [OF em _ _ refl _ _ _ qs _ _ _ assms(4)])
      (use acc assms(6) [of q] uuid_canonical in \<open>auto simp: eid undisturbed_def idle_def resolved_def\<close>)
  then have "wp P (processMessage gl s m) (\<lambda>x w2. \<exists>ev'. delivered_to ev' (ep_URL (row_endpoint q)) w1 w2
      \<and> ev_Signature ev' = ev_Signature ev \<and> jsonb_in ty (ci_Payload input) = Some (ev_Payload ev')) w1"
    by (rule wp_mono) (use acc in blast)
  with acc show "\<exists>m q. w_log w1 = w_log w @ [m] \<and> q \<in> set (w_db w ''endpoints'')
       \<and> uuid_in ty (ci_EndpointID input) = Some (ep_ID (row_endpoint q))
       \<and> wp P (processMessage gl s m) (\<lambda>x w2. \<exists>ev'. delivered_to ev' (ep_URL (row_endpoint q)) w1 w2
            \<and> ev_Signature ev' = ev_Signature ev \<and> jsonb_in ty (ci_Payload input) = Some (ev_Payload ev')) w1" by blast
qed

end

subsection \<open>The simulated platform without faults\<close>

lemma calm_answering [simp]: "calm (answering c) = answering c"
  by (simp add: calm_def answering_def quiet_def)

interpretation calm_backend: reliable_backend "sim (calm s)" "sim_ms (calm s)" sim_types "sim_time (calm s)" for s
  by unfold_locales
    (auto simp: sim_def calm_def sim_exec_def sim_query_def infra_def split: sum.splits option.splits prod.splits)

lemma accepting_answering [simp]: "accepting (sim (answering 200))"
  by (simp add: accepting_def sim_def)

lemma codec_ok_sim [simp]: "codec_ok sim_lib ty" "payload_ok sim_lib j"
  by (simp_all add: codec_ok_def payload_ok_def sim_lib_def)

lemma clock_ok_answering [simp]: "clock_ok (sim (answering c))"
  by (simp add: clock_ok_def json_time_def)

subsection \<open>Properties\<close>

text \<open>
  C13: an open event is delivered. When no server fails, the message is decoded and names the event,
  the endpoint of the event is active, has a URL that net/http accepts, and answers with a success,
  no worker holds the event's lock, the breaker of its endpoint is closed and its endpoint is
  not in the cache, that one message, whatever the status of the event and however often it
  was tried, sends exactly one webhook, to the URL of the endpoint, with the event's payload and
  signature, and marks the event delivered; no other event changes.
\<close>

theorem open_event_is_delivered:
  assumes "reliable_backend P rt ty pgnow" "db_ok ty (w_db w)" "gl_UnmarshalMessage gl (km_Value msg) = Inr em"
    and "uuid_in ty (em_EventID em) = Some u" "events_of (w_db w) u = Some ev" "\<not> resolved (ev_Status ev)"
    and "q \<in> set (w_db w ''endpoints'')" "q ''id'' = VText (ev_EndpointID ev)" "ep_Active (row_endpoint q)"
    and "uuid_in ty (ev_EndpointID ev) = Some (ev_EndpointID ev)" "undisturbed ev (w_keys w)"
    and "gl_NewRequest gl (ep_URL (row_endpoint q)) = None" "accepting P"
  shows "wp P (processMessage gl s msg) (\<lambda>x w'. x = None \<and> delivered_to ev (ep_URL (row_endpoint q)) w w') w"
proof -
  obtain r where r: "r \<in> set (w_db w ''events'')" "r ''id'' = VText u" "ev = row_event r"
    using assms(5) by (rule events_of_some)
  have "x = r" if "x \<in> set (w_db w ''events'')" "x ''id'' = VText u" for x
    by (rule keyed_unique [OF db_ok_keyed [OF assms(2)] that(1) r(1)]) (simp add: that(2) r(2))
  then have rs: "set (rows_with (w_db w) ''events'' ''id'' u) = {r}" unfolding rows_with_def set_filter using r by blast
  have "x = q" if "x \<in> set (w_db w ''endpoints'')" "x ''id'' = VText (ev_EndpointID ev)" for x
    by (rule endpoint_unique [OF db_ok_owners [OF assms(2)] that(1) assms(7)]) (simp add: that(2) assms(8))
  then have qs: "set (rows_with (w_db w) ''endpoints'' ''id'' (ev_EndpointID ev)) = {q}"
    unfolding rows_with_def set_filter using assms(7,8) by blast
  have "event_row_ok r" "endpoint_row_ok q"
    using assms(2,7) r(1) by (simp_all add: db_ok_def tables_ok_def rows_typed_def list_all_iff)
  then show ?thesis
    by (intro reliable_backend.processMessage_delivers [OF assms(1,3,4) rs _ r(3) assms(6,11,10) qs _ assms(9,12,13)])
qed

theorem open_event_is_delivered_witness:
  "wp (sim (answering 200)) (processMessage sim_lib dispatcher (event_msg ''e''))
     (\<lambda>x w'. \<exists>ev. x = None \<and> delivered_to ev ''https://x.io/hook'' queued_world w') queued_world"
proof -
  let ?ev = "row_event (event_row ''e'' EventStatusQueued 0 VNull)"
  have "wp (sim (answering 200)) (processMessage sim_lib dispatcher (event_msg ''e''))
     (\<lambda>x w'. x = None \<and> delivered_to ?ev (ep_URL (row_endpoint (endpoint_row ''p'' ''t''))) queued_world w') queued_world"
    by (rule open_event_is_delivered [OF calm_backend.reliable_backend_axioms [of "answering 200", simplified] queued_db_ok])
      (simp_all add: sim_lib_def event_msg_def events_of_def row_event_def row_endpoint_def undisturbed_def
        empty_world_def sample_defs)+
  then show ?thesis by (rule wp_mono) (auto simp: row_endpoint_def endpoint_row_def)
qed

text \<open>
  C14: from the request to the webhook. When no server fails, the endpoint answers with a success
  and its URL is one net/http accepts, the payload is JSON, no event's lock is held, the breaker of
  the endpoint is closed and the endpoint is not in the cache, and nothing else happens
  between the request and the message: every event that Create accepts is published with one
  message, and handling that message sends exactly one webhook to the URL of the endpoint the
  event was sent for, with the stored payload and the signature made when the event was
  accepted, and marks the event delivered.
\<close>

theorem accepted_event_is_delivered:
  assumes "reliable_backend P rt ty pgnow" "codec_ok gl ty" "payload_ok gl (ci_Payload input)" "clock_ok P" "accepting P"
    and "db_ok ty (w_db w)"
    and "\<And>q. q \<in> set (w_db w ''endpoints'') \<Longrightarrow> uuid_in ty (ci_EndpointID input) = Some (ep_ID (row_endpoint q)) \<Longrightarrow>
      gl_NewRequest gl (ep_URL (row_endpoint q)) = None \<and> idle (ep_ID (row_endpoint q)) (w_keys w)"
  shows "wp P (eventService_Create gl p tid input) (\<lambda>res w1. \<forall>ev. res = Inr ev \<longrightarrow>
    (\<exists>m q. w_log w1 = w_log w @ [m] \<and> q \<in> set (w_db w ''endpoints'')
       \<and> uuid_in ty (ci_EndpointID input) = Some (ep_ID (row_endpoint q))
       \<and> wp P (processMessage gl s m) (\<lambda>x w2. \<exists>ev'. delivered_to ev' (ep_URL (row_endpoint q)) w1 w2
            \<and> ev_Signature ev' = ev_Signature ev \<and> jsonb_in ty (ci_Payload input) = Some (ev_Payload ev')) w1)) w"
  by (rule reliable_backend.accepted_is_delivered [OF assms])

theorem accepted_event_is_delivered_witness:
  "wp (sim (answering 200)) (eventService_Create sim_lib events_producer ''t'' (order_input ''p'')) (\<lambda>res w1.
    \<forall>ev. res = Inr ev \<longrightarrow> (\<exists>m. w_log w1 = [m]
       \<and> wp (sim (answering 200)) (processMessage sim_lib dispatcher m) (\<lambda>x w2. length (w_sent w2) = Suc (length (w_sent w1))) w1))
     queued_world"
proof (rule wp_mono [OF accepted_event_is_delivered
      [OF calm_backend.reliable_backend_axioms [of "answering 200", simplified] codec_ok_sim clock_ok_answering accepting_answering
        queued_db_ok]])
  show "gl_NewRequest sim_lib (ep_URL (row_endpoint q)) = None \<and> idle (ep_ID (row_endpoint q)) (w_keys queued_world)" for q
    by (simp add: sim_lib_def idle_def queued_world_def empty_world_def)
next
  fix res w1
  assume *: "\<forall>ev. res = Inr ev \<longrightarrow> (\<exists>m q. w_log w1 = w_log queued_world @ [m] \<and> q \<in> set (w_db queued_world ''endpoints'')
       \<and> uuid_in sim_types (ci_EndpointID (order_input ''p'')) = Some (ep_ID (row_endpoint q))
       \<and> wp (sim (answering 200)) (processMessage sim_lib dispatcher m) (\<lambda>x w2. \<exists>ev'. delivered_to ev' (ep_URL (row_endpoint q)) w1 w2
            \<and> ev_Signature ev' = ev_Signature ev \<and> jsonb_in sim_types (ci_Payload (order_input ''p'')) = Some (ev_Payload ev')) w1)"
  show "\<forall>ev. res = Inr ev \<longrightarrow> (\<exists>m. w_log w1 = [m]
       \<and> wp (sim (answering 200)) (processMessage sim_lib dispatcher m) (\<lambda>x w2. length (w_sent w2) = Suc (length (w_sent w1))) w1)"
  proof (intro allI impI)
    fix ev assume "res = Inr ev"
    with * obtain m q where "w_log w1 = [m]" and d: "wp (sim (answering 200)) (processMessage sim_lib dispatcher m)
        (\<lambda>x w2. \<exists>ev'. delivered_to ev' (ep_URL (row_endpoint q)) w1 w2
            \<and> ev_Signature ev' = ev_Signature ev \<and> jsonb_in sim_types (ci_Payload (order_input ''p'')) = Some (ev_Payload ev')) w1"
      by (auto simp: queued_world_def empty_world_def)
    moreover have "wp (sim (answering 200)) (processMessage sim_lib dispatcher m) (\<lambda>x w2. length (w_sent w2) = Suc (length (w_sent w1))) w1"
      by (rule wp_mono [OF d]) (auto simp: delivered_to_def)
    ultimately show "\<exists>m. w_log w1 = [m] \<and> wp (sim (answering 200)) (processMessage sim_lib dispatcher m)
        (\<lambda>x w2. length (w_sent w2) = Suc (length (w_sent w1))) w1" by blast
  qed
qed

end
