(* ===== verification/Retry_Properties.thy ===== *)
theory Retry_Properties
  imports Scheduler Samples
begin

text \<open>
  The retry cycle: what one tick of the scheduler does, and what becomes of a failed delivery. (The
  last attempt, and how the scheduler and the dispatcher race, are in theory \<open>Races\<close>.)
\<close>

subsection \<open>A tick\<close>

text \<open>
  C20: one tick of the scheduler takes the hundred events whose retry has been due for longest,
  writes at most one message for each, and marks queued only rows of that batch, each of which
  it has published before; no other row, table, key or request is touched, whatever fails.
\<close>

theorem scheduler_requeues_due:
  assumes "backend P rt ty pgnow" "keyed ty (w_db w ''events'')"
  shows "wp P (processRetryableEvents gl (NewSchedulerService p))
    (\<lambda>r w'. due_requeued gl p (pgnow (w_tick w)) w w') w"
proof (rule backend.processRetryableEvents_wp [OF assms(1)])
  fix r assume "r \<in> set (w_db w ''events'')"
  then obtain u where "r ''id'' = VText u" "uuid_in ty u = Some u" using assms(2) by (auto simp: keyed_def)
  then show "uuid_in ty (ev_ID (row_event r)) = Some (ev_ID (row_event r))" by (simp add: row_event_def)
qed (use requeued_due [OF _ _ assms(2)] due_requeued_none in \<open>simp_all add: NewSchedulerService_def\<close>)


text \<open>Three events: one due, one due later, one queued.\<close>

definition retry_world :: world where
  "retry_world = empty_world\<lparr>w_db := event_db [event_row ''a'' EventStatusRetrying 1 (VTime 1800000000000000000),
     event_row ''b'' EventStatusRetrying 2 (VTime 1600000000000000000), event_row ''c'' EventStatusQueued 0 VNull]\<rparr>"

lemma tick_run:
  "(case run (sim quiet) (processRetryableEvents sim_lib (NewSchedulerService events_producer)) retry_world of
     (r, w) \<Rightarrow> r = Returns None \<and> map km_Value (w_log w) = [''b'']
       \<and> map (\<lambda>r. r ''status'') (w_db w ''events'') = [VText EventStatusRetrying, VText EventStatusQueued, VText EventStatusQueued])"
  by code_simp

theorem scheduler_requeues_due_witness:
  "wp (sim quiet) (processRetryableEvents sim_lib (NewSchedulerService events_producer))
     (\<lambda>r w'. due_requeued sim_lib events_producer 1700000000000000000 retry_world w') retry_world"
  using scheduler_requeues_due [OF sim_backend.backend_axioms, of retry_world quiet sim_lib events_producer]
  by (simp add: keyed_def retry_world_def event_db_def event_row_def sim_types_def)

subsection \<open>A failed delivery\<close>

text \<open>What the dispatcher does of an event whose endpoint could not be reached.\<close>

definition after_failed_delivery :: "int \<Rightarrow> unit outcome \<times> world" where
  "after_failed_delivery attempts =
     (let r = event_row ''e'' EventStatusQueued attempts VNull; result = failed_delivery sim_error 0 in
      run (sim (quiet\<lparr>sc_pick := \<lambda>n. 77000\<rparr>))
        (bind (recordAttempt sim_lib (row_event r) result) (\<lambda>_. handleFailure (row_event r) result))
        (empty_world\<lparr>w_db := event_db [r]\<rparr>))"

text \<open>
  A failed delivery with attempts left is scheduled: the event is marked retrying with one
  more attempt made, its next retry lies in the future by the jitter drawn, and there is no
  dead letter.
\<close>

theorem failed_attempt_is_rescheduled:
  "(case after_failed_delivery 0 of (r, w) \<Rightarrow> r = Returns ()
       \<and> map (\<lambda>r. (r ''status'', r ''attempt_count'', r ''next_retry_at'')) (w_db w ''events'')
           = [(VText EventStatusRetrying, VInt 1, VTime 1700000000000077000)]
       \<and> w_db w ''dead_letter_events'' = [])"
  by code_simp

end
