(* ===== verification/Retry_Liveness.thy ===== *)
theory Retry_Liveness
  imports Liveness Retry_Properties
begin

text \<open>
  The way of a failed delivery to the next try, on services that answer: a tick of the scheduler
  publishes a message for every event whose time has come (as long as they fit in one batch and
  its message can be encoded) and marks it queued, and handling that message delivers it.
\<close>

definition names_event :: "golib \<Rightarrow> kmessage \<Rightarrow> event \<Rightarrow> bool" where
  "names_event gl m ev \<longleftrightarrow> (\<exists>em. gl_UnmarshalMessage gl (km_Value m) = Inr em \<and> em_EventID em = ev_ID ev)"

text \<open>The one row of an identifier: marked queued if it is of the batch, and left alone otherwise.\<close>

definition row_enqueued :: "string set \<Rightarrow> database \<Rightarrow> database \<Rightarrow> bool" where
  "row_enqueued us db db' \<longleftrightarrow> db' ''endpoints'' = db ''endpoints'' \<and>
     (\<forall>u r. set (rows_with db ''events'' ''id'' u) = {r} \<longrightarrow>
       u \<notin> us \<and> set (rows_with db' ''events'' ''id'' u) = {r}
       \<or> (\<exists>t. set (rows_with db' ''events'' ''id'' u) = {put_status EventStatusQueued t r}))"

text \<open>The events whose messages can be encoded are published; of the others nothing is said.\<close>

definition encodable :: "golib \<Rightarrow> event list \<Rightarrow> event set" where
  "encodable gl evs = {ev \<in> set evs. payload_ok gl (ev_Payload ev)}"

definition batch_enqueued :: "golib \<Rightarrow> event list \<Rightarrow> world \<Rightarrow> world \<Rightarrow> bool" where
  "batch_enqueued gl evs w w' \<longleftrightarrow> w_keys w' = w_keys w
     \<and> (\<exists>ms. w_log w' = w_log w @ ms \<and> (\<forall>ev \<in> encodable gl evs. \<exists>m \<in> set ms. names_event gl m ev))
     \<and> row_enqueued (ev_ID ` encodable gl evs) (w_db w) (w_db w')"

lemma put_status_again: "put_status st t2 (put_status st t1 r) = put_status st t2 r"
  by (auto simp: put_status_def)

lemma batch_enqueued_Nil: "w_keys w' = w_keys w \<Longrightarrow> w_log w' = w_log w \<Longrightarrow> w_db w' = w_db w \<Longrightarrow> batch_enqueued gl [] w w'"
  by (simp add: batch_enqueued_def row_enqueued_def encodable_def)

lemma rows_with_set_status:
  "set (rows_with (set_rows ''events'' v (put_status st t) db) ''events'' ''id'' u)
    = (if u = v then put_status st t ` set (rows_with db ''events'' ''id'' u) else set (rows_with db ''events'' ''id'' u))"
  by (auto simp: rows_with_def set_rows_def update_rows_def put_status_def image_iff)

lemma row_enqueued_set:
  "row_enqueued {v} db (set_rows ''events'' v (put_status EventStatusQueued t) db)"
  by (auto simp: row_enqueued_def rows_with_set_status) (auto simp: set_rows_def)

lemma row_enqueued_mono: "row_enqueued us db db' \<Longrightarrow> vs \<subseteq> us \<Longrightarrow> row_enqueued vs db db'"
  unfolding row_enqueued_def by blast

lemma row_enqueued_refl [simp]: "row_enqueued {} db db"
  by (simp add: row_enqueued_def)

lemma row_enqueued_trans:
  assumes "row_enqueued us a b" "row_enqueued vs b c"
  shows "row_enqueued (us \<union> vs) a c"
  unfolding row_enqueued_def
proof (intro conjI allI impI)
  show "c ''endpoints'' = a ''endpoints''" using assms by (simp add: row_enqueued_def)
  fix u r assume r: "set (rows_with a ''events'' ''id'' u) = {r}"
  then consider "u \<notin> us" "set (rows_with b ''events'' ''id'' u) = {r}"
    | t where "set (rows_with b ''events'' ''id'' u) = {put_status EventStatusQueued t r}"
    using assms(1) unfolding row_enqueued_def by blast
  then show "u \<notin> us \<union> vs \<and> set (rows_with c ''events'' ''id'' u) = {r}
      \<or> (\<exists>t. set (rows_with c ''events'' ''id'' u) = {put_status EventStatusQueued t r})"
  proof cases
    case 1
    then show ?thesis using assms(2) unfolding row_enqueued_def by blast
  next
    case (2 t)
    then have "set (rows_with c ''events'' ''id'' u) = {put_status EventStatusQueued t r}
        \<or> (\<exists>t2. set (rows_with c ''events'' ''id'' u) = {put_status EventStatusQueued t2 (put_status EventStatusQueued t r)})"
      using assms(2) unfolding row_enqueued_def by blast
    then show ?thesis unfolding put_status_again by blast
  qed
qed

lemma batch_enqueued_Cons:
  assumes "batch_enqueued gl [ev] w w1" "batch_enqueued gl evs w1 w2"
  shows "batch_enqueued gl (ev # evs) w w2"
proof -
  have split: "encodable gl (ev # evs) = encodable gl [ev] \<union> encodable gl evs" by (auto simp: encodable_def)
  obtain ms ms' where "w_log w1 = w_log w @ ms" "w_log w2 = w_log w1 @ ms'"
    "\<forall>v \<in> encodable gl [ev]. \<exists>m \<in> set ms. names_event gl m v" "\<forall>v \<in> encodable gl evs. \<exists>m \<in> set ms'. names_event gl m v"
    using assms unfolding batch_enqueued_def by blast
  then have "\<exists>ms. w_log w2 = w_log w @ ms \<and> (\<forall>v \<in> encodable gl (ev # evs). \<exists>m \<in> set ms. names_event gl m v)"
    by (intro exI [of _ "ms @ ms'"]) (auto simp: split)
  moreover have "row_enqueued (ev_ID ` encodable gl (ev # evs)) (w_db w) (w_db w2)"
    unfolding split image_Un by (rule row_enqueued_trans) (use assms in \<open>auto simp: batch_enqueued_def\<close>)
  ultimately show ?thesis using assms by (simp add: batch_enqueued_def)
qed

context reliable_backend
begin

lemma republish_enqueues:
  assumes "codec_ok gl ty" "clock_ok P" "uuid_in ty (ev_ID ev) = Some (ev_ID ev)"
    and "rows_with (w_db w) ''events'' ''id'' (ev_ID ev) \<noteq> []"
  shows "wp P (republish gl s ev) (\<lambda>_ w'. batch_enqueued gl [ev] w w') w"
  unfolding republish_def wp_bind
proof (rule PublishEvent_answered [OF assms(1,3)], goal_cases)
  case (1 m em)
  have "row_enqueued (ev_ID ` encodable gl [ev]) db (set_rows ''events'' (ev_ID ev) (put_status EventStatusQueued t) db)" for db t
    by (rule row_enqueued_mono [OF row_enqueued_set]) (auto simp: encodable_def)
  with 1 show ?case
    by simp (rule status_set_wp [OF _ assms(3)]; use assms(4) in \<open>auto simp: batch_enqueued_def names_event_def encodable_def\<close>)
next
  case (2 e)
  then have "encodable gl [ev] = {}" using assms(2) by (auto simp: encodable_def)
  then show ?case by (simp add: batch_enqueued_def)
qed

lemma republish_all:
  assumes "codec_ok gl ty" "clock_ok P"
  shows "(\<And>ev. ev \<in> set evs \<Longrightarrow> uuid_in ty (ev_ID ev) = Some (ev_ID ev) \<and> (\<exists>r. set (rows_with (w_db w) ''events'' ''id'' (ev_ID ev)) = {r})) \<Longrightarrow>
    wp P (for_each evs (republish gl s)) (\<lambda>_ w'. batch_enqueued gl evs w w') w"
proof (induction evs arbitrary: w)
  case Nil
  show ?case by (simp add: batch_enqueued_Nil)
next
  case (Cons ev evs)
  from Cons.prems [of ev] obtain r where ev: "uuid_in ty (ev_ID ev) = Some (ev_ID ev)"
    "set (rows_with (w_db w) ''events'' ''id'' (ev_ID ev)) = {r}" by auto
  show ?case
    unfolding for_each.simps wp_bind
  proof (rule wp_mono [OF republish_enqueues [OF assms ev(1)]])
    show "rows_with (w_db w) ''events'' ''id'' (ev_ID ev) \<noteq> []" using ev(2) by auto
    fix x and w1 :: world assume first: "batch_enqueued gl [ev] w w1"
    have "uuid_in ty (ev_ID v) = Some (ev_ID v) \<and> (\<exists>r. set (rows_with (w_db w1) ''events'' ''id'' (ev_ID v)) = {r})"
      if "v \<in> set evs" for v
      using Cons.prems [of v] first that unfolding batch_enqueued_def row_enqueued_def by fastforce
    then have "wp P (for_each evs (republish gl s)) (\<lambda>_ w'. batch_enqueued gl evs w1 w') w1"
      by (rule Cons.IH)
    then show "wp P (for_each evs (republish gl s)) (\<lambda>_ w'. batch_enqueued gl (ev # evs) w w') w1"
      by (rule wp_mono) (rule batch_enqueued_Cons [OF first])
  qed
qed

lemma due_found_wp:
  assumes "0 \<le> limit" "list_all event_row_ok (w_db w ''events'')"
    and "\<And>evs. due_batch (pgnow (w_tick w)) limit (w_db w) evs \<Longrightarrow> Q (Inr evs) (tick w)"
  shows "wp P (EventRepo_FindRetryable limit) Q w"
proof -
  let ?now = "pgnow (w_tick w)"
  let ?q = "Select eventColumns ''events''
      (Both (Eq ''status'' (VText ''retrying'')) (LeNow ''next_retry_at''))
      (Some (Asc ''next_retry_at'')) (Some (limit, 0))"
  have ok: "query_error ty pg_schema ?q = None"
    using assms(1) by (simp add: query_error_def row_simps byte_def utf8_chars_def)
  obtain out where out: "pl_query P (w_tick w) ?q (w_db w) = Inr out" "sql_rows ty pg_schema ?now ?q (w_db w) out"
    using query_law [of "w_tick w" ?q "w_db w"] query_answered ok unfolding query_obeys_def by fastforce
  then obtain rs where rs: "mset rs = mset (filter (due ?now) (w_db w ''events''))"
    "ordered (Some (Asc ''next_retry_at'')) rs" and rows: "out = map (\<lambda>r. map r eventColumns) (take (nat limit) rs)"
    by (auto simp: sql_rows_def holds_due window_def cong: filter_cong simp del: holds.simps)
  have mem: "set rs = set (filter (due ?now) (w_db w ''events''))" using rs(1) by (rule mset_eq_setD)
  then have "sorted_wrt (\<lambda>a b. time_of (a ''next_retry_at'') \<le> time_of (b ''next_retry_at'')) rs"
    using rs(2) due_order_key by (auto simp: ordered_def elim!: sorted_wrt_mono_rel [rotated])
  moreover have typed: "list_all event_row_ok (take (nat limit) rs)"
    using assms(2) mem by (auto simp: list_all_iff dest!: in_set_takeD)
  ultimately have "due_batch ?now limit (w_db w) (map row_event (take (nat limit) rs))"
    using rs(1) by (auto simp: due_batch_def)
  then show ?thesis
    unfolding EventRepo_FindRetryable_def using assms(3) event_scan_rows(1) [OF typed] out(1)
    by (simp add: wp_PgQuery rows)
qed

end

lemma filter_all_taken:
  "mset rs = mset xs \<Longrightarrow> length xs \<le> n \<Longrightarrow> set (take n rs) = set xs"
  by (metis mset_eq_length mset_eq_setD take_all)

context reliable_backend
begin

lemma tick_enqueues:
  assumes "codec_ok gl ty" "clock_ok P" "db_ok ty (w_db w)"
    and "length (filter (due (pgnow (w_tick w))) (w_db w ''events'')) \<le> 100"
  shows "wp P (processRetryableEvents gl (NewSchedulerService p)) (\<lambda>res w1. res = None \<and> (\<exists>evs.
    set evs = row_event ` {r \<in> set (w_db w ''events''). due (pgnow (w_tick w)) r} \<and> batch_enqueued gl evs w w1)) w"
  unfolding processRetryableEvents_def NewSchedulerService_def SchedulerService.select_convs wp_bind
proof (rule due_found_wp, goal_cases)
  case 2
  show ?case using assms(3) by (simp add: db_ok_def tables_ok_def rows_typed_def)
next
  case (3 evs)
  let ?due = "filter (due (pgnow (w_tick w))) (w_db w ''events'')"
  from 3 obtain rs where rs: "mset rs = mset ?due" "evs = map row_event (take 100 rs)" by (auto simp: due_batch_def)
  have set_evs: "set evs = row_event ` {r \<in> set (w_db w ''events''). due (pgnow (w_tick w)) r}"
    using filter_all_taken [OF rs(1) assms(4)] by (simp add: rs(2))
  have rows: "uuid_in ty (ev_ID ev) = Some (ev_ID ev) \<and> (\<exists>r. set (rows_with (w_db (tick w)) ''events'' ''id'' (ev_ID ev)) = {r})"
    if "ev \<in> set evs" for ev
  proof -
    from that obtain r where r: "r \<in> set (w_db w ''events'')" "ev = row_event r" unfolding set_evs by blast
    then obtain u where u: "r ''id'' = VText u" "uuid_in ty u = Some u"
      using db_ok_keyed [OF assms(3)] by (auto simp: keyed_def)
    have "x = r" if "x \<in> set (w_db w ''events'')" "x ''id'' = VText u" for x
      by (rule keyed_unique [OF db_ok_keyed [OF assms(3)] that(1) r(1)]) (simp add: that(2) u(1))
    then have "set (rows_with (w_db w) ''events'' ''id'' u) = {r}" unfolding rows_with_def set_filter using r(1) u(1) by blast
    with r(2) u show ?thesis by (simp add: row_event_def)
  qed
  have one: "batch_enqueued gl evs w w1" if "batch_enqueued gl evs (tick w) w1" for w1
    using that by (simp add: batch_enqueued_def)
  show ?case
  proof (cases "evs = []")
    case True
    then show ?thesis using set_evs by (auto intro!: exI [of _ "[]"] simp: batch_enqueued_Nil)
  next
    case False
    have "wp P (for_each evs (republish gl \<lparr>ss_publisher = p, ss_interval = 5000000000, ss_batchSize = 100\<rparr>))
        (\<lambda>_ w1. batch_enqueued gl evs (tick w) w1) (tick w)"
      by (rule republish_all [OF assms(1,2) rows])
    then have "wp P (for_each evs (republish gl \<lparr>ss_publisher = p, ss_interval = 5000000000, ss_batchSize = 100\<rparr>))
        (\<lambda>_ w1. \<exists>evs. set evs = row_event ` {r \<in> set (w_db w ''events''). due (pgnow (w_tick w)) r}
          \<and> batch_enqueued gl evs w w1) (tick w)"
      by (rule wp_mono) (use one set_evs in blast)
    then show ?thesis using False by simp
  qed
qed simp

end

text \<open>The due row itself: it is marked queued, and a message with its identifier is published.\<close>

definition republished :: "golib \<Rightarrow> row \<Rightarrow> kmessage \<Rightarrow> row \<Rightarrow> world \<Rightarrow> world \<Rightarrow> bool" where
  "republished gl r m r' w w1 \<longleftrightarrow> w_keys w1 = w_keys w \<and> w_db w1 ''endpoints'' = w_db w ''endpoints''
     \<and> (\<exists>ms. w_log w1 = w_log w @ ms \<and> m \<in> set ms) \<and> names_event gl m (row_event r)
     \<and> set (rows_with (w_db w1) ''events'' ''id'' (ev_ID (row_event r))) = {r'}
     \<and> (\<exists>t. r' = put_status EventStatusQueued t r)"

context reliable_backend
begin

lemma due_is_published:
  assumes "codec_ok gl ty" "clock_ok P" "db_ok ty (w_db w)"
    and "length (filter (due (pgnow (w_tick w))) (w_db w ''events'')) \<le> 100"
    and "r \<in> set (w_db w ''events'')" "due (pgnow (w_tick w)) r" "payload_ok gl (ev_Payload (row_event r))"
  shows "wp P (processRetryableEvents gl (NewSchedulerService p)) (\<lambda>res w1. res = None \<and> (\<exists>m r'. republished gl r m r' w w1)) w"
proof (rule wp_mono [OF tick_enqueues [OF assms(1-4)]], elim conjE exE, intro conjI)
  fix res and w1 :: world and evs
  assume evs: "set evs = row_event ` {r \<in> set (w_db w ''events''). due (pgnow (w_tick w)) r}"
    and enq: "batch_enqueued gl evs w w1"
  obtain u where u: "r ''id'' = VText u" "uuid_in ty u = Some u"
    using db_ok_keyed [OF assms(3)] assms(5) by (auto simp: keyed_def)
  have id: "ev_ID (row_event r) = u" using u(1) by (simp add: row_event_def)
  have "x = r" if "x \<in> set (w_db w ''events'')" "x ''id'' = VText u" for x
    by (rule keyed_unique [OF db_ok_keyed [OF assms(3)] that(1) assms(5)]) (simp add: that(2) u(1))
  then have "set (rows_with (w_db w) ''events'' ''id'' u) = {r}" unfolding rows_with_def set_filter using assms(5) u(1) by blast
  moreover have mem: "row_event r \<in> encodable gl evs" using evs assms(5-7) unfolding encodable_def by blast
  then have "u \<in> ev_ID ` encodable gl evs" using id by force
  ultimately obtain t where row: "set (rows_with (w_db w1) ''events'' ''id'' u) = {put_status EventStatusQueued t r}"
    using enq unfolding batch_enqueued_def row_enqueued_def by blast
  obtain ms where ms: "w_log w1 = w_log w @ ms" "\<forall>ev \<in> encodable gl evs. \<exists>m \<in> set ms. names_event gl m ev"
    "w_keys w1 = w_keys w" "w_db w1 ''endpoints'' = w_db w ''endpoints''"
    using enq unfolding batch_enqueued_def row_enqueued_def by blast
  then show "\<exists>m r'. republished gl r m r' w w1"
    using mem row id unfolding republished_def by blast
qed

lemma due_is_delivered:
  assumes "codec_ok gl ty" "clock_ok P" "db_ok ty (w_db w)"
    and "length (filter (due (pgnow (w_tick w))) (w_db w ''events'')) \<le> 100"
    and "r \<in> set (w_db w ''events'')" "due (pgnow (w_tick w)) r" "payload_ok gl (ev_Payload (row_event r))"
    and "q \<in> set (w_db w ''endpoints'')" "q ''id'' = VText (ev_EndpointID (row_event r))" "ep_Active (row_endpoint q)"
    and "uuid_in ty (ev_EndpointID (row_event r)) = Some (ev_EndpointID (row_event r))"
    and "undisturbed (row_event r) (w_keys w)" "gl_NewRequest gl (ep_URL (row_endpoint q)) = None" "accepting P"
  shows "wp P (processRetryableEvents gl (NewSchedulerService p)) (\<lambda>res w1. res = None \<and>
    (\<exists>ms. w_log w1 = w_log w @ ms \<and> (\<exists>m \<in> set ms. wp P (processMessage gl s m)
      (\<lambda>x w2. \<exists>t. delivered_to ((row_event r)\<lparr>ev_Status := EventStatusQueued, ev_UpdatedAt := t\<rparr>)
        (ep_URL (row_endpoint q)) w1 w2) w1))) w"
proof (rule wp_mono [OF due_is_published [OF assms(1-7)]], elim conjE exE, intro conjI)
  fix res and w1 :: world and m r'
  let ?ev = "row_event r"
  assume "republished gl r m r' w w1"
  then obtain ms em t where ms: "w_log w1 = w_log w @ ms" "m \<in> set ms" and em: "gl_UnmarshalMessage gl (km_Value m) = Inr em"
      "em_EventID em = ev_ID ?ev" and r': "r' = put_status EventStatusQueued t r"
    and row: "set (rows_with (w_db w1) ''events'' ''id'' (ev_ID ?ev)) = {r'}"
    and same: "w_keys w1 = w_keys w" "w_db w1 ''endpoints'' = w_db w ''endpoints''"
    unfolding republished_def names_event_def by blast
  have "x = q" if "x \<in> set (w_db w ''endpoints'')" "x ''id'' = VText (ev_EndpointID ?ev)" for x
    by (rule endpoint_unique [OF db_ok_owners [OF assms(3)] that(1) assms(8)]) (simp add: that(2) assms(9))
  then have "set (rows_with (w_db w1) ''endpoints'' ''id'' (ev_EndpointID ?ev)) = {q}"
    unfolding rows_with_def set_filter same(2) using assms(8,9) by blast
  then have qs: "set (rows_with (w_db w1) ''endpoints'' ''id'' (ev_EndpointID (row_event r'))) = {q}"
    by (simp add: r' row_event_put_status)
  have typed: "event_row_ok r'" "endpoint_row_ok q"
    using assms(3,5,8) by (simp_all add: db_ok_def tables_ok_def rows_typed_def list_all_iff r')
  have "uuid_in ty (ev_ID ?ev) = Some (ev_ID ?ev)"
    using db_ok_keyed [OF assms(3)] assms(5) by (auto simp: keyed_def row_event_def)
  then have "wp P (processMessage gl s m) (\<lambda>x w2. x = None \<and> delivered_to (row_event r') (ep_URL (row_endpoint q)) w1 w2) w1"
    using assms(11,12) em(2)
    by (intro processMessage_delivers [OF em(1) _ row typed(1) refl _ _ _ qs typed(2) assms(10,13,14)])
      (simp_all add: r' row_event_put_status undisturbed_def same(1))
  then have "wp P (processMessage gl s m) (\<lambda>x w2. \<exists>t. delivered_to (?ev\<lparr>ev_Status := EventStatusQueued, ev_UpdatedAt := t\<rparr>)
        (ep_URL (row_endpoint q)) w1 w2) w1"
    by (rule wp_mono) (auto simp: r' row_event_put_status)
  with ms show "\<exists>ms. w_log w1 = w_log w @ ms \<and> (\<exists>m \<in> set ms. wp P (processMessage gl s m)
      (\<lambda>x w2. \<exists>t. delivered_to (?ev\<lparr>ev_Status := EventStatusQueued, ev_UpdatedAt := t\<rparr>)
        (ep_URL (row_endpoint q)) w1 w2) w1)" by blast
qed

end

text \<open>
  C15: a failed delivery gets its next try. When no server fails and at most a hundred retries are
  due, a tick of the scheduler publishes a message for an event whose time has come, if its
  stored payload is JSON; and handling that message, when nothing has happened in between, the
  endpoint is active, has a URL that net/http accepts and answers with a success, no worker holds the
  event's lock, the breaker of the endpoint is closed and the endpoint is not in the cache,
  sends the webhook of the event, unchanged but for its status, to its endpoint and marks it
  delivered.
\<close>

theorem due_event_is_delivered:
  assumes "reliable_backend P rt ty pgnow" "codec_ok gl ty" "clock_ok P" "db_ok ty (w_db w)"
    and "length (filter (due (pgnow (w_tick w))) (w_db w ''events'')) \<le> 100"
    and "r \<in> set (w_db w ''events'')" "due (pgnow (w_tick w)) r" "payload_ok gl (ev_Payload (row_event r))"
    and "q \<in> set (w_db w ''endpoints'')" "q ''id'' = VText (ev_EndpointID (row_event r))" "ep_Active (row_endpoint q)"
    and "uuid_in ty (ev_EndpointID (row_event r)) = Some (ev_EndpointID (row_event r))"
    and "undisturbed (row_event r) (w_keys w)" "gl_NewRequest gl (ep_URL (row_endpoint q)) = None" "accepting P"
  shows "wp P (processRetryableEvents gl (NewSchedulerService p)) (\<lambda>res w1. res = None \<and>
    (\<exists>ms. w_log w1 = w_log w @ ms \<and> (\<exists>m \<in> set ms. wp P (processMessage gl s m)
      (\<lambda>x w2. \<exists>t. delivered_to ((row_event r)\<lparr>ev_Status := EventStatusQueued, ev_UpdatedAt := t\<rparr>)
        (ep_URL (row_endpoint q)) w1 w2) w1))) w"
  by (rule reliable_backend.due_is_delivered [OF assms])

lemma answering_start: "sc_start (answering c) = 1700000000000000000"
  by (simp add: answering_def quiet_def)

lemma retry_db_ok: "db_ok sim_types (w_db retry_world)"
  by (simp add: db_ok_def tables_ok_def owners_ok_def keys_ok_def tenants_ok_def tenant_ok_def tenant_row_ok_def
      row_tenant_def attempts_ok_def keyed_def rows_typed_def event_row_ok_def endpoint_row_ok_def sample_defs retry_world_def)

theorem due_event_is_delivered_witness:
  "wp (sim (answering 200)) (processRetryableEvents sim_lib (NewSchedulerService events_producer)) (\<lambda>res w1.
     \<exists>m \<in> set (w_log w1). wp (sim (answering 200)) (processMessage sim_lib dispatcher m)
       (\<lambda>x w2. length (w_sent w2) = Suc (length (w_sent w1))) w1) retry_world"
proof -
  let ?r = "event_row ''b'' EventStatusRetrying 2 (VTime 1600000000000000000)"
  have "wp (sim (answering 200)) (processRetryableEvents sim_lib (NewSchedulerService events_producer)) (\<lambda>res w1. res = None \<and>
    (\<exists>ms. w_log w1 = w_log retry_world @ ms \<and> (\<exists>m \<in> set ms. wp (sim (answering 200)) (processMessage sim_lib dispatcher m)
      (\<lambda>x w2. \<exists>t. delivered_to ((row_event ?r)\<lparr>ev_Status := EventStatusQueued, ev_UpdatedAt := t\<rparr>)
        (ep_URL (row_endpoint (endpoint_row ''p'' ''t''))) w1 w2) w1))) retry_world"
    by (rule due_event_is_delivered [OF calm_backend.reliable_backend_axioms [of "answering 200", simplified] codec_ok_sim(1) clock_ok_answering retry_db_ok])
      (simp_all add: payload_ok_def due_def retry_world_def sim_lib_def row_event_def row_endpoint_def undisturbed_def
        empty_world_def answering_start sample_defs)
  then show ?thesis
  proof (rule wp_mono, elim conjE exE bexE)
    fix res and w1 :: world and ms m
    assume m: "w_log w1 = w_log retry_world @ ms" "m \<in> set ms" and d: "wp (sim (answering 200)) (processMessage sim_lib dispatcher m)
      (\<lambda>x w2. \<exists>t. delivered_to ((row_event ?r)\<lparr>ev_Status := EventStatusQueued, ev_UpdatedAt := t\<rparr>)
        (ep_URL (row_endpoint (endpoint_row ''p'' ''t''))) w1 w2) w1"
    have "wp (sim (answering 200)) (processMessage sim_lib dispatcher m) (\<lambda>x w2. length (w_sent w2) = Suc (length (w_sent w1))) w1"
      by (rule wp_mono [OF d]) (auto simp: delivered_to_def)
    with m show "\<exists>m \<in> set (w_log w1). wp (sim (answering 200)) (processMessage sim_lib dispatcher m)
       (\<lambda>x w2. length (w_sent w2) = Suc (length (w_sent w1))) w1" by auto
  qed
qed

end
