(* ===== verification/Resolution.thy ===== *)
theory Resolution
  imports Retry_Liveness
begin

text \<open>
  The end of every delivery. The earlier theories follow one message; here the tries of one event
  are put together: on services that answer, with an endpoint host that may do whatever it likes,
  handling a message either ends the event or schedules its next try, the scheduler then brings
  the message for that try, and after at most five tries the event is delivered or failed.
\<close>

subsection \<open>What a try needs\<close>

text \<open>
  The cached form of an endpoint keeps its URL, as long as that is valid text (\<^verbatim>\<open>encoding/json\<close>
  replaces the bytes that are not UTF-8), and whether it is active.
\<close>

definition endpoint_codec_ok :: "golib \<Rightarrow> bool" where
  "endpoint_codec_ok gl \<longleftrightarrow> (\<forall>ep v. text_ok (ep_URL ep) \<longrightarrow> gl_MarshalEndpoint gl ep = Inr v \<longrightarrow>
     (\<exists>ep'. gl_UnmarshalEndpoint gl v = Inr ep' \<and> ep_URL ep' = ep_URL ep \<and> ep_Active ep' = ep_Active ep))"

text \<open>An endpoint whose URL \<^verbatim>\<open>net/http\<close> accepts.\<close>

definition callable :: "golib \<Rightarrow> row \<Rightarrow> bool" where
  "callable gl q \<longleftrightarrow> text_ok (ep_URL (row_endpoint q)) \<and> gl_NewRequest gl (ep_URL (row_endpoint q)) = None"

text \<open>What the cache holds of the endpoint, if anything, is what the table holds.\<close>

definition cache_true :: "golib \<Rightarrow> int \<Rightarrow> keyspace \<Rightarrow> endpoint \<Rightarrow> bool" where
  "cache_true gl t ks ep \<longleftrightarrow> live t ks (cache_key (ep_ID ep)) = None
     \<or> (\<exists>v ep'. live t ks (cache_key (ep_ID ep)) = Some (RStr v) \<and> gl_UnmarshalEndpoint gl v = Inr ep'
          \<and> ep_URL ep' = ep_URL ep \<and> ep_Active ep' = ep_Active ep)"

text \<open>The breaker is closed, and the tries left before the last cannot open it.\<close>

definition breaker_spare :: "CircuitBreakerRepo \<Rightarrow> string \<Rightarrow> int \<Rightarrow> keyspace \<Rightarrow> bool" where
  "breaker_spare c eid n ks \<longleftrightarrow>
     (\<exists>b. cb_repr ks eid b \<and> br_phase b = Closed \<and> br_fails b + (4 - n) < cb_failureThreshold c)"

text \<open>A row whose event waits for the delivery of a message, in a state where the delivery can be tried.\<close>

definition waiting :: "golib \<Rightarrow> pgtypes \<Rightarrow> (nat \<Rightarrow> int) \<Rightarrow> CircuitBreakerRepo \<Rightarrow> row \<Rightarrow> row \<Rightarrow> world \<Rightarrow> bool" where
  "waiting gl ty rt c r q w \<longleftrightarrow> db_ok ty (w_db w) \<and> r \<in> set (w_db w ''events'') \<and> q \<in> set (w_db w ''endpoints'')
     \<and> q ''id'' = r ''endpoint_id'' \<and> uuid_in ty (ep_ID (row_endpoint q)) = Some (ep_ID (row_endpoint q))
     \<and> \<not> resolved (ev_Status (row_event r)) \<and> ep_Active (row_endpoint q)
     \<and> live (rt (w_tick w)) (w_keys w) (event_lock (ev_ID (row_event r))) = None
     \<and> cache_true gl (rt (w_tick w)) (w_keys w) (row_endpoint q)
     \<and> breaker_spare c (ep_ID (row_endpoint q)) (ev_AttemptCount (row_event r)) (w_keys w)"

subsection \<open>What a try does\<close>

text \<open>Whether the endpoint host accepted the request, its answer being the platform's at a time.\<close>

definition accepts :: "platform \<Rightarrow> http_request \<Rightarrow> nat \<Rightarrow> bool" where
  "accepts P rq k \<longleftrightarrow> (case pl_http P k rq of Inl e \<Rightarrow> False
     | Inr rs \<Rightarrow> 200 \<le> rs_StatusCode rs \<and> rs_StatusCode rs < 300)"

definition after_try :: "bool \<Rightarrow> time \<Rightarrow> time \<Rightarrow> row \<Rightarrow> row" where
  "after_try ok now at r = (
     let n = ev_AttemptCount (row_event r) + 1 in
     if ok then put_status EventStatusDelivered now r
     else if ev_MaxAttempts (row_event r) \<le> n then put_status EventStatusFailed now r
     else put_retry EventStatusRetrying n at now r)"

text \<open>One webhook went out for the event, and its row is what the answer made of it.\<close>

definition tried :: "platform \<Rightarrow> bool \<Rightarrow> time \<Rightarrow> row \<Rightarrow> string \<Rightarrow> world \<Rightarrow> world \<Rightarrow> bool" where
  "tried P ok at r url w w' \<longleftrightarrow> (
     let ev = row_event r; rq = webhook_post url (ev_Payload ev) (webhook_headers ev) in
     w_tick w \<le> w_tick w' \<and> w_log w' = w_log w \<and> w_sent w' = w_sent w @ [rq]
     \<and> w_db w' ''endpoints'' = w_db w ''endpoints''
     \<and> (\<exists>k. w_tick w \<le> k \<and> k < w_tick w' \<and> (ok \<longleftrightarrow> accepts P rq k))
     \<and> (\<exists>now. set (rows_with (w_db w') ''events'' ''id'' (ev_ID ev)) = {after_try ok now at r}))"

lemma tried_before: "keys_changed S w u \<Longrightarrow> tried P ok at r url u w' \<Longrightarrow> tried P ok at r url w w'"
  by (auto simp: tried_def keys_changed_def Let_def intro: order_trans)

lemma tried_after: "tried P ok at r url w u \<Longrightarrow> keys_changed S u w' \<Longrightarrow> tried P ok at r url w w'"
  by (auto simp: tried_def keys_changed_def Let_def intro: less_le_trans)

lemma rows_with_set_retry:
  "set (rows_with (set_rows ''events'' v (put_retry st n at t) db) ''events'' ''id'' v)
    = put_retry st n at t ` set (rows_with db ''events'' ''id'' v)"
  by (auto simp: rows_with_def set_rows_def update_rows_def put_retry_def image_iff)

lemma rows_with_upd [simp]: "t' \<noteq> t \<Longrightarrow> rows_with (db(t' := rs)) t c u = rows_with db t c u"
  by (simp add: rows_with_def)

lemma cache_true_cached:
  "cache_true gl t ks ep \<Longrightarrow> cached gl t ks (ep_ID ep) = Some ep' \<Longrightarrow> ep_URL ep' = ep_URL ep \<and> ep_Active ep' = ep_Active ep"
  by (auto simp: cache_true_def cached_def)

lemma cache_true_later:
  "cache_true gl t ks ep \<Longrightarrow> t \<le> t' \<Longrightarrow> ks' (cache_key (ep_ID ep)) = ks (cache_key (ep_ID ep)) \<Longrightarrow> cache_true gl t' ks' ep"
  by (auto simp: cache_true_def live_def split: option.splits prod.splits if_splits)

lemma breaker_spare_keys:
  "breaker_spare c eid n ks \<Longrightarrow> (\<And>k. k \<in> cb_keys eid \<Longrightarrow> ks' k = ks k) \<Longrightarrow> breaker_spare c eid n ks'"
  by (auto simp: breaker_spare_def cb_repr_def holds_str_def cb_keys_def)

subsection \<open>The requests of a try\<close>

context reliable_redis
begin

lemma lock_taken_wp:
  assumes "live (rt (w_tick w)) (w_keys w) (lock_key rid) = None"
    and "\<And>val w'. keys_changed {lock_key rid} w w' \<Longrightarrow> (\<exists>d. w_keys w' (lock_key rid) = Some (RStr val, d)) \<Longrightarrow> Q (val, True) w'"
  shows "wp P (lock_Acquire rid ttl) Q w"
  using live_expired [OF assms(1) rt_mono, of "Suc (w_tick w)"]
  by (auto simp: lock_Acquire_def redis_SetNX_def wp_do keys_changed_def intro!: assms(2))

lemma lock_given_back_wp:
  assumes "w_keys w (lock_key rid) = Some (RStr val, d)"
    and "\<And>ok w'. keys_changed {lock_key rid} w w' \<Longrightarrow> live (rt (w_tick w')) (w_keys w') (lock_key rid) = None \<Longrightarrow> Q ok w'"
  shows "wp P (lock_Release rid val) Q w"
proof (cases "live (rt (w_tick w)) (w_keys w) (lock_key rid)")
  case None
  then have "live (rt (Suc (w_tick w))) (w_keys w) (lock_key rid) = None"
    by (rule live_expired) (simp add: rt_mono)
  with None show ?thesis
    by (auto simp: lock_Release_def redis_Get_def wp_do intro!: assms(2) keys_changed_tickI)
next
  case (Some v)
  then have "v = RStr val" using assms(1) by (auto simp: live_def split: option.splits if_splits)
  with Some show ?thesis
    by (auto simp: lock_Release_def redis_Get_def redis_Del_def wp_do keys_changed_def intro!: assms(2))
qed

lemma breaker_counts_wp:
  assumes "cb_repr (w_keys w) eid b" "br_phase b = Closed" "br_fails b + 1 < cb_failureThreshold c" "int64_ok (br_fails b + 1)"
    and "\<And>x w'. keys_changed (cb_keys eid) w w' \<Longrightarrow> cb_repr (w_keys w') eid (b\<lparr>br_fails := br_fails b + 1\<rparr>) \<Longrightarrow> Q x w'"
  shows "wp P (circuitBreakerService_RecordFailure c eid) Q w"
proof -
  have up: "cb_repr ((w_keys w)(cb_failuresKey eid \<mapsto> (RStr (show_int (br_fails b + 1)), None))) eid (b\<lparr>br_fails := br_fails b + 1\<rparr>)"
    using assms by (intro cb_repr_fails_upd) (auto simp: cb_repr_def)
  show ?thesis
    using cb_repr_state [OF assms(1), of "rt (w_tick w)"] cb_repr_fails [OF assms(1), of "rt (Suc (w_tick w))"] up assms(2,3,4)
    by (auto simp: circuitBreakerService_RecordFailure_def CB_RecordFailure_def redis_Get_def redis_Incr_def run_simps
        cb_repr_parse [OF assms(1)] cb_repr_kept [OF assms(1)] keys_changed_def cb_keys_def intro!: assms(5))
qed

lemma breaker_lets_through_wp:
  assumes "breaker_spare c eid n (w_keys w)" "Q (True, CBClosed, None) (tick w)"
  shows "wp P (circuitBreakerService_Allow c eid) Q w"
proof -
  obtain b where "cb_repr (w_keys w) eid b" "br_phase b = Closed" using assms(1) by (auto simp: breaker_spare_def)
  then have "live (rt (w_tick w)) (w_keys w) (cb_stateKey eid) = None
      \<or> live (rt (w_tick w)) (w_keys w) (cb_stateKey eid) = Some (RStr CBClosed)"
    using cb_repr_state by fastforce
  then show ?thesis
    using assms(2) by (auto simp: circuitBreakerService_Allow_def CB_Allow_def redis_Get_def wp_do)
qed

end

context reliable_backend
begin

text \<open>The endpoint, from the cache or from the table, and the cache after it.\<close>

lemma endpoint_current_wp:
  assumes "endpoint_codec_ok gl" "text_ok (ep_URL (row_endpoint q))" "cache_true gl (rt (w_tick w)) (w_keys w) (row_endpoint q)" "uuid_in ty eid = Some eid"
    and "set (rows_with (w_db w) ''endpoints'' ''id'' eid) = {q}" "endpoint_row_ok q" "ep_ID (row_endpoint q) = eid"
    and "\<And>ep w'. ep_URL ep = ep_URL (row_endpoint q) \<Longrightarrow> ep_Active ep = ep_Active (row_endpoint q) \<Longrightarrow>
      keys_changed {cache_key eid} w w' \<Longrightarrow> cache_true gl (rt (w_tick w')) (w_keys w') (row_endpoint q) \<Longrightarrow> Q (Inr ep) w'"
  shows "wp P (getEndpoint gl eid) Q w"
proof (cases "live (rt (w_tick w)) (w_keys w) (cache_key eid)")
  case None
  have miss: "wp P (case Inr (row_endpoint q) of Inl err \<Rightarrow> Ret (Inl err)
      | Inr ep \<Rightarrow> bind (cache_Set gl ep) (\<lambda>cacheErr. Ret (Inr ep))) Q (tick (tick w))"
  proof (cases "gl_MarshalEndpoint gl (row_endpoint q)")
    case (Inl e)
    have "live (rt (Suc (Suc (w_tick w)))) (w_keys w) (cache_key eid) = None" by (rule live_expired [OF None rt_mono]) simp
    with Inl show ?thesis by (auto simp: cache_Set_def cache_true_def assms(7) intro!: assms(8) keys_changed_tickI)
  next
    case (Inr v)
    then obtain ep' where "gl_UnmarshalEndpoint gl v = Inr ep'" "ep_URL ep' = ep_URL (row_endpoint q)" "ep_Active ep' = ep_Active (row_endpoint q)"
      using assms(1,2) unfolding endpoint_codec_ok_def by blast
    then have "cache_true gl t ((w_keys w)(cache_key eid \<mapsto> (RStr v, d))) (row_endpoint q)" for t d
      by (auto simp: cache_true_def assms(7) live_def split: option.split)
    with Inr show ?thesis
      by (auto simp: cache_Set_def redis_Set_def wp_do assms(7) keys_changed_def intro!: assms(8))
  qed
  have "wp P (EndpointRepo_GetByID eid) (\<lambda>r. wp P (case r of Inl err \<Rightarrow> Ret (Inl err)
      | Inr ep \<Rightarrow> bind (cache_Set gl ep) (\<lambda>cacheErr. Ret (Inr ep))) Q) (tick w)"
    by (rule endpoint_found_wp [OF assms(4) _ assms(6)]) (use assms(5) miss in simp_all)
  with None show ?thesis
    unfolding getEndpoint_def cache_Get_def redis_Get_def by (simp add: wp_do Let_def)
next
  case (Some x)
  then obtain v ep' where v: "x = RStr v" "gl_UnmarshalEndpoint gl v = Inr ep'" "ep_URL ep' = ep_URL (row_endpoint q)"
    "ep_Active ep' = ep_Active (row_endpoint q)" using assms(3,7) by (auto simp: cache_true_def)
  have "cache_true gl (rt (Suc (w_tick w))) (w_keys w) (row_endpoint q)"
    by (rule cache_true_later [OF assms(3)]) (simp_all add: rt_mono)
  with Some v show ?thesis
    by (auto simp: getEndpoint_def cache_Get_def redis_Get_def wp_do Let_def intro!: assms(8) keys_changed_tickI)
qed

lemma deliver_answered_wp:
  assumes "gl_NewRequest gl url = None"
    and "\<And>res w' k. successful res \<longleftrightarrow> accepts P (webhook_post url payload headers) k \<Longrightarrow> w_tick w \<le> k \<Longrightarrow> k < w_tick w' \<Longrightarrow>
      w_sent w' = w_sent w @ [webhook_post url payload headers] \<Longrightarrow> w_db w' = w_db w \<Longrightarrow> w_log w' = w_log w \<Longrightarrow>
      w_keys w' = w_keys w \<Longrightarrow> Q res w'"
  shows "wp P (Deliver gl url payload headers) Q w"
  unfolding Deliver_def using assms(1)
  by (auto split: sum.split intro!: assms(2) [of _ "Suc (w_tick w)"] simp: successful_def failed_delivery_def accepts_def)

lemma retry_set_wp:
  assumes "status_ok st" "int4_ok n" "uuid_in ty s = Some u" "rows_with (w_db w) ''events'' ''id'' u \<noteq> []"
    and "\<And>now. Q None (tick (w\<lparr>w_db := set_rows ''events'' u (put_retry st n at now) (w_db w)\<rparr>))"
  shows "wp P (EventRepo_UpdateForRetry s st n at) Q w"
  unfolding EventRepo_UpdateForRetry_def
proof (rule update_found_wp [OF _ assms(3) _ assms(4)])
  show "store_all ty (pg_schema ''events'') (map (\<lambda>(c, s). (c, set_value now s))
      [(''status'', Param (VText st)), (''attempt_count'', Param (VInt n)),
       (''next_retry_at'', Param (VTime at)), (''updated_at'', NowFn)]) r = Inr (put_retry st n at now r)" for now r
    unfolding pg_schema_simps using store_retry [OF assms(1), of ty now n at r] assms(2) by simp
qed (use assms(5) in \<open>simp_all add: row_simps\<close>)

lemma given_up_wp:
  assumes "uuid_in ty (ev_ID ev) = Some (ev_ID ev)" "set (rows_with (w_db w) ''events'' ''id'' (ev_ID ev)) = {r}"
    and "\<And>w' now. only_db w w' \<Longrightarrow> w_db w' ''endpoints'' = w_db w ''endpoints'' \<Longrightarrow>
      set (rows_with (w_db w') ''events'' ''id'' (ev_ID ev)) = {put_status EventStatusFailed now r} \<Longrightarrow> Q () w'"
  shows "wp P (handleDeadLetter ev reason code) Q w"
proof -
  have status: "wp P (EventRepo_UpdateStatus (ev_ID ev) EventStatusFailed) (\<lambda>e. wp P (Ret ()) Q) w1"
    if "only_db w w1" "w_db w1 ''endpoints'' = w_db w ''endpoints''" "w_db w1 ''events'' = w_db w ''events''" for w1
  proof (rule status_set_wp [OF _ assms(1)])
    have "rows_with (w_db w1) ''events'' ''id'' (ev_ID ev) = rows_with (w_db w) ''events'' ''id'' (ev_ID ev)"
      using that(3) by (simp add: rows_with_def)
    then show "rows_with (w_db w1) ''events'' ''id'' (ev_ID ev) \<noteq> []"
      and "wp P (Ret ()) Q (tick (w1\<lparr>w_db := set_rows ''events'' (ev_ID ev) (put_status EventStatusFailed now) (w_db w1)\<rparr>))" for now
      using assms(2) that by (auto intro!: assms(3) [where now = now] simp: rows_with_set_status) (simp add: set_rows_def)
  qed simp
  show ?thesis
    unfolding handleDeadLetter_def wp_NewUUID wp_Now wp_bind
    by (rule DeadLetterEventRepo_Create_wp) (rule status; simp)+
qed

end

text \<open>A row whose event can be tried: the facts of \<open>waiting\<close> in the form the proofs use.\<close>

definition open_row :: "pgtypes \<Rightarrow> row \<Rightarrow> database \<Rightarrow> bool" where
  "open_row ty r db \<longleftrightarrow> (let ev = row_event r in uuid_in ty (ev_ID ev) = Some (ev_ID ev)
     \<and> set (rows_with db ''events'' ''id'' (ev_ID ev)) = {r} \<and> event_row_ok r
     \<and> 0 \<le> ev_AttemptCount ev \<and> ev_AttemptCount ev < 5 \<and> ev_MaxAttempts ev = 5 \<and> bases_ok db)"

lemma open_row_db: "open_row ty r db \<Longrightarrow> db' ''events'' = db ''events'' \<Longrightarrow> db' ''tenants'' = db ''tenants'' \<Longrightarrow> open_row ty r db'"
  by (simp add: open_row_def rows_with_def bases_ok_def)

lemma open_row_found: "open_row ty r db \<Longrightarrow> rows_with db ''events'' ''id'' (ev_ID (row_event r)) \<noteq> []"
  by (auto simp: open_row_def Let_def)

text \<open>
  The try with what the next one needs: the keys of the breaker and the cache are as they have to
  be when the event is to be tried again.
\<close>

definition tried_on :: "golib \<Rightarrow> platform \<Rightarrow> (nat \<Rightarrow> int) \<Rightarrow> CircuitBreakerRepo \<Rightarrow> bool \<Rightarrow> time \<Rightarrow> row \<Rightarrow> row \<Rightarrow> world \<Rightarrow> world \<Rightarrow> bool" where
  "tried_on gl P rt c ok at r q w w' \<longleftrightarrow> tried P ok at r (ep_URL (row_endpoint q)) w w'
     \<and> cache_true gl (rt (w_tick w')) (w_keys w') (row_endpoint q)
     \<and> (\<not> ok \<longrightarrow> ev_AttemptCount (row_event r) + 1 < 5 \<longrightarrow>
          breaker_spare c (ep_ID (row_endpoint q)) (ev_AttemptCount (row_event r) + 1) (w_keys w'))"

text \<open>The same for the world before a try.\<close>

definition can_try :: "golib \<Rightarrow> pgtypes \<Rightarrow> (nat \<Rightarrow> int) \<Rightarrow> CircuitBreakerRepo \<Rightarrow> row \<Rightarrow> row \<Rightarrow> world \<Rightarrow> bool" where
  "can_try gl ty rt c r q w \<longleftrightarrow> (let eid = ev_EndpointID (row_event r) in open_row ty r (w_db w) \<and> ep_ID (row_endpoint q) = eid
     \<and> endpoint_row_ok q \<and> ep_Active (row_endpoint q) \<and> uuid_in ty eid = Some eid
     \<and> set (rows_with (w_db w) ''endpoints'' ''id'' eid) = {q} \<and> cache_true gl (rt (w_tick w)) (w_keys w) (row_endpoint q)
     \<and> breaker_spare c eid (ev_AttemptCount (row_event r)) (w_keys w))"

context reliable_backend
begin

lemma failure_wp:
  assumes "open_row ty r (w_db w)"
    and "\<And>now at w'. only_db w w' \<Longrightarrow> w_db w' ''endpoints'' = w_db w ''endpoints'' \<Longrightarrow>
      set (rows_with (w_db w') ''events'' ''id'' (ev_ID (row_event r))) = {after_try False now at r} \<Longrightarrow> Q at w'"
  shows "wp P (handleFailure (row_event r) res) (\<lambda>_ w'. \<exists>at. Q at w') w"
proof -
  let ?ev = "row_event r"
  have ok: "uuid_in ty (ev_ID ?ev) = Some (ev_ID ?ev)" "set (rows_with (w_db w) ''events'' ''id'' (ev_ID ?ev)) = {r}"
    "0 \<le> ev_AttemptCount ?ev" "ev_AttemptCount ?ev < 5" "ev_MaxAttempts ?ev = 5" "bases_ok (w_db w)"
    using assms(1) by (simp_all add: open_row_def Let_def)
  show ?thesis
  proof (cases "5 \<le> ev_AttemptCount ?ev + 1")
    case True
    show ?thesis
      unfolding handleFailure_def Let_def ok(5) if_P [OF True]
      by (rule given_up_wp [OF ok(1,2)], rule exI [of _ 0], rule assms(2)) (use True ok(5) in \<open>simp_all add: after_try_def Let_def\<close>)
  next
    case False
    have later: "wp P (bind (NextRetryAt (ev_AttemptCount ?ev + 1) base) (\<lambda>at.
        bind (EventRepo_UpdateForRetry (ev_ID ?ev) EventStatusRetrying (ev_AttemptCount ?ev + 1) at)
          (\<lambda>err. Ret ()))) (\<lambda>_ w'. \<exists>at. Q at w') (tick w)" if base: "0 < base" "base < 2 ^ 31" for base
      unfolding wp_bind
    proof (rule NextRetryAt_wp [OF base], rule retry_set_wp [OF _ _ ok(1)], goal_cases)
      case (2 x)
      show ?case using ok(3,4) by (simp add: int4_ok_def)
    next
      case (3 x)
      show ?case using ok(2) by auto
    next
      case (4 x now)
      show ?case
        by (simp, rule exI [of _ "pl_now P (Suc (w_tick (tick w))) + x"], rule assms(2) [where now = now])
          (use False ok in \<open>auto simp: after_try_def Let_def rows_with_set_retry\<close>, simp add: set_rows_def)
    qed simp
    have base: "0 < tn_RetryBaseMs (row_tenant t) \<and> tn_RetryBaseMs (row_tenant t) < 2 ^ 31"
      if "t \<in> set (rows_with (w_db w) ''tenants'' ''id'' u)" "tenant_row_ok t" for t u
      using that ok(6) by (simp add: bases_ok_def rows_with_def)
    show ?thesis
      using False ok(5) unfolding handleFailure_def Let_def
      by (simp del: wp_bind, subst wp_bind)
        (rule TenantRepo_GetByID_wp; simp del: wp_bind row_tenant_base; rule later; use base in \<open>auto simp del: row_tenant_base\<close>)
  qed
qed

lemma delivery_tried_wp:
  assumes "open_row ty r (w_db w)" "gl_NewRequest gl (ep_URL ep) = None" "int64_ok (cb_failureThreshold (ds_breaker s))"
    and "breaker_spare (ds_breaker s) (ev_EndpointID (row_event r)) (ev_AttemptCount (row_event r)) (w_keys w)"
  shows "wp P (deliver_event gl s (row_event r) ep) (\<lambda>x w'. x = None \<and> (\<exists>ok at. tried P ok at r (ep_URL ep) w w'
    \<and> (\<forall>k. k \<notin> cb_keys (ev_EndpointID (row_event r)) \<longrightarrow> w_keys w' k = w_keys w k)
    \<and> (\<not> ok \<longrightarrow> ev_AttemptCount (row_event r) + 1 < 5 \<longrightarrow>
        breaker_spare (ds_breaker s) (ev_EndpointID (row_event r)) (ev_AttemptCount (row_event r) + 1) (w_keys w')))) w"
    (is "wp P _ ?Q w")
  unfolding deliver_event_def wp_bind
proof (rule deliver_answered_wp [OF assms(2)], rule recordAttempt_wp, goal_cases)
  case (1 res w1 k w2 atts)
  let ?ev = "row_event r" and ?c = "ds_breaker s"
  let ?rq = "webhook_post (ep_URL ep) (ev_Payload ?ev) (webhook_headers ?ev)" and ?ks = "cb_keys (ev_EndpointID ?ev)"
  have w2: "w_tick w \<le> k" "k < w_tick w2" "w_sent w2 = w_sent w @ [?rq]" "w_keys w2 = w_keys w" "w_log w2 = w_log w"
    "w_db w2 ''events'' = w_db w ''events''" "w_db w2 ''endpoints'' = w_db w ''endpoints''" "w_db w2 ''tenants'' = w_db w ''tenants''"
    using 1 by (auto simp: only_db_def)
  have row: "open_row ty r (w_db w2)" using assms(1) w2(6,8) by (rule open_row_db)
  have fin: "tried P ok at r (ep_URL ep) w w4"
    if "keys_changed S w2 w3" "only_db w3 w4" "w_db w4 ''endpoints'' = w_db w3 ''endpoints''" "ok \<longleftrightarrow> successful res"
      "set (rows_with (w_db w4) ''events'' ''id'' (ev_ID ?ev)) = {after_try ok now at r}" for S ok at now w3 w4
    using that 1(1) w2 unfolding tried_def Let_def keys_changed_def only_db_def
    by (intro conjI exI [of _ k] exI [of _ now]) auto
  have delivered: "wp P (EventRepo_UpdateStatus (ev_ID ?ev) EventStatusDelivered) (\<lambda>e. wp P (Ret None) ?Q) w3"
    if "successful res" "keys_changed ?ks w2 w3" for w3
  proof (rule status_set_wp)
    have row3: "open_row ty r (w_db w3)" using row that(2) by (simp add: keys_changed_def)
    then show "uuid_in ty (ev_ID ?ev) = Some (ev_ID ?ev)" by (simp add: open_row_def Let_def)
    show "rows_with (w_db w3) ''events'' ''id'' (ev_ID ?ev) \<noteq> []" using row3 by (rule open_row_found)
    fix now
    let ?w4 = "tick (w3\<lparr>w_db := set_rows ''events'' (ev_ID ?ev) (put_status EventStatusDelivered now) (w_db w3)\<rparr>)"
    have "tried P True 0 r (ep_URL ep) w ?w4"
      by (rule fin [OF that(2), where now = now])
        (use that(1) row3 in \<open>auto simp: rows_with_set_status open_row_def Let_def after_try_def\<close>, simp add: set_rows_def)
    then show "wp P (Ret None) ?Q ?w4"
      using that(2) w2(4) by (auto intro!: exI [of _ True] exI [of _ "0 :: int"] simp: keys_changed_def)
  qed simp
  have failed: "wp P (handleFailure ?ev res) (\<lambda>_. wp P (Ret None) ?Q) w3"
    if "\<not> successful res" "keys_changed ?ks w2 w3"
      "ev_AttemptCount ?ev + 1 < 5 \<Longrightarrow> breaker_spare ?c (ev_EndpointID ?ev) (ev_AttemptCount ?ev + 1) (w_keys w3)" for w3
  proof (rule wp_mono [OF failure_wp [where Q = "\<lambda>at w4. ?Q None w4"]])
    show "open_row ty r (w_db w3)" using row that(2) by (simp add: keys_changed_def)
    fix now at w4 assume w4: "only_db w3 w4" "w_db w4 ''endpoints'' = w_db w3 ''endpoints''"
      "set (rows_with (w_db w4) ''events'' ''id'' (ev_ID ?ev)) = {after_try False now at r}"
    have "tried P False at r (ep_URL ep) w w4" by (rule fin [OF that(2) w4(1,2) _ w4(3)]) (simp add: that(1))
    then show "?Q None w4"
      using that(2,3) w2(4) w4(1) by (auto intro!: exI [of _ False] exI [of _ at] simp: keys_changed_def only_db_def)
  qed simp
  obtain b where b: "cb_repr (w_keys w2) (ev_EndpointID ?ev) b" "br_phase b = Closed"
    "br_fails b + (4 - ev_AttemptCount ?ev) < cb_failureThreshold ?c"
    using assms(4) w2(4) by (auto simp: breaker_spare_def)
  show ?case
  proof (cases "successful res")
    case True
    show ?thesis unfolding if_P [OF True] wp_bind by (rule CB_RecordSuccess_frame) (rule delivered [OF True])
  next
    case False
    show ?thesis
      unfolding if_not_P [OF False] wp_bind
    proof (cases "ev_AttemptCount ?ev + 1 < 5")
      case more: True
      have "int64_ok (br_fails b + 1)" using more b(1,3) assms(3) by (auto simp: int64_ok_def cb_repr_def)
      then show "wp P (circuitBreakerService_RecordFailure ?c (ev_EndpointID ?ev))
          (\<lambda>_. wp P (handleFailure ?ev res) (\<lambda>_. wp P (Ret None) ?Q)) w2"
        by (intro breaker_counts_wp [OF b(1,2)] failed [OF False])
          (use more b in \<open>auto simp: breaker_spare_def\<close>)
    next
      case last: False
      show "wp P (circuitBreakerService_RecordFailure ?c (ev_EndpointID ?ev))
          (\<lambda>_. wp P (handleFailure ?ev res) (\<lambda>_. wp P (Ret None) ?Q)) w2"
        by (rule CB_RecordFailure_frame) (use failed [OF False] last in auto)
    qed
  qed
qed

end

text \<open>The keys of a try are distinct.\<close>

lemma try_keys_apart:
  "cache_key e \<notin> cb_keys p" "event_lock e \<notin> cb_keys p" "event_lock e \<noteq> cache_key p" "k \<in> cb_keys p \<Longrightarrow> k \<noteq> cache_key e"
  "k \<in> cb_keys p \<Longrightarrow> k \<noteq> event_lock e"
  by (auto simp: cb_keys_def cache_key_def lock_key_def cb_stateKey_def cb_failuresKey_def cb_lastFailureKey_def)

context reliable_backend
begin

lemma waiting_facts:
  assumes "waiting gl ty rt c r q w"
  shows "open_row ty r (w_db w)" "ep_ID (row_endpoint q) = ev_EndpointID (row_event r)" "endpoint_row_ok q"
    and "set (rows_with (w_db w) ''endpoints'' ''id'' (ev_EndpointID (row_event r))) = {q}"
proof -
  have r: "r \<in> set (w_db w ''events'')" and q: "q \<in> set (w_db w ''endpoints'')" "q ''id'' = r ''endpoint_id''"
    and ok: "db_ok ty (w_db w)" using assms by (simp_all add: waiting_def)
  obtain u where u: "r ''id'' = VText u" "uuid_in ty u = Some u" using db_ok_keyed [OF ok] r by (auto simp: keyed_def)
  have typed: "event_row_ok r" "endpoint_row_ok q" using ok r q(1) by (simp_all add: db_ok_def tables_ok_def rows_typed_def list_all_iff)
  have "x = r" if "x \<in> set (w_db w ''events'')" "x ''id'' = VText u" for x
    by (rule keyed_unique [OF db_ok_keyed [OF ok] that(1) r]) (simp add: that(2) u(1))
  then have "set (rows_with (w_db w) ''events'' ''id'' u) = {r}" unfolding rows_with_def set_filter using r u(1) by blast
  moreover have "0 \<le> ev_AttemptCount (row_event r) \<and> ev_AttemptCount (row_event r) < 5 \<and> ev_MaxAttempts (row_event r) = 5"
    using ok r by (auto simp: db_ok_def tables_ok_def attempts_ok_def row_event_def)
  moreover have "bases_ok (w_db w)" using ok by (simp add: db_ok_def tables_ok_def tenants_bases)
  ultimately show "open_row ty r (w_db w)" using u typed(1) by (simp add: open_row_def row_event_def)
  have rid: "r ''endpoint_id'' = VText (ev_EndpointID (row_event r))"
    using typed(1) by (cases "r ''endpoint_id''") (simp_all add: row_event_def event_row_ok_def)
  then show "ep_ID (row_endpoint q) = ev_EndpointID (row_event r)" using q(2) by (simp add: row_endpoint_def)
  show "endpoint_row_ok q" by (rule typed)
  have qid: "q ''id'' = VText (ev_EndpointID (row_event r))" using q(2) rid by simp
  have "x = q" if "x \<in> set (w_db w ''endpoints'')" "x ''id'' = VText (ev_EndpointID (row_event r))" for x
    by (rule endpoint_unique [OF db_ok_owners [OF ok] that(1) q(1)]) (simp add: that(2) q(2) rid)
  then show "set (rows_with (w_db w) ''endpoints'' ''id'' (ev_EndpointID (row_event r))) = {q}"
    unfolding rows_with_def set_filter using q(1) qid by blast
qed

end

context reliable_backend
begin

lemma can_try_waiting: "waiting gl ty rt c r q w \<Longrightarrow> can_try gl ty rt c r q w"
  using waiting_facts [of gl c r q w] unfolding can_try_def waiting_def Let_def by simp

lemma can_try_kept:
  assumes "can_try gl ty rt c r q w" "keys_changed S w w'" "cache_key (ev_EndpointID (row_event r)) \<notin> S"
    and "S \<inter> cb_keys (ev_EndpointID (row_event r)) = {}"
  shows "can_try gl ty rt c r q w'"
proof -
  have "cache_true gl (rt (w_tick w')) (w_keys w') (row_endpoint q)"
    by (rule cache_true_later) (use assms(1-3) rt_mono in \<open>auto simp: can_try_def Let_def keys_changed_def\<close>)
  moreover have "breaker_spare c (ev_EndpointID (row_event r)) (ev_AttemptCount (row_event r)) (w_keys w')"
    by (rule breaker_spare_keys [of _ _ _ "w_keys w"]) (use assms(1,2,4) in \<open>auto simp: can_try_def Let_def keys_changed_def\<close>)
  ultimately show ?thesis using assms(1,2) by (simp add: can_try_def Let_def keys_changed_def)
qed

lemma tried_on_before: "keys_changed S w u \<Longrightarrow> tried_on gl P rt c ok at r q u w' \<Longrightarrow> tried_on gl P rt c ok at r q w w'"
  unfolding tried_on_def using tried_before by blast

lemma locked_tried_wp:
  assumes "endpoint_codec_ok gl" "can_try gl ty rt (ds_breaker s) r q w" "callable gl q"
    and "int64_ok (cb_failureThreshold (ds_breaker s))"
  shows "wp P (locked_part gl s (row_event r)) (\<lambda>x w'. x = None \<and> (\<exists>ok at. tried_on gl P rt (ds_breaker s) ok at r q w w')
    \<and> w_keys w' (event_lock (ev_ID (row_event r))) = w_keys w (event_lock (ev_ID (row_event r)))) w"
    (is "wp P _ ?Q w")
proof -
  let ?ev = "row_event r" and ?c = "ds_breaker s" and ?eid = "ev_EndpointID (row_event r)"
  let ?after = "\<lambda>r. case r of
      Inl err \<Rightarrow>
        if errors_is err ErrNotFound then bind (handleDeadLetter ?ev ''endpoint not found'' 0) (\<lambda>_. Ret None)
        else Ret (Some (Wrapf ''get endpoint: '' err ''''))
    | Inr ep \<Rightarrow>
        if \<not> ep_Active ep then bind (handleDeadLetter ?ev ''endpoint inactive'' 0) (\<lambda>_. Ret None)
        else deliver_event gl s ?ev ep"
  have can: "can_try gl ty rt ?c r q (tick w)" by (rule can_try_kept [OF assms(2), of "{}"]) (simp_all add: keys_changed_tickI)
  note now = can [unfolded can_try_def Let_def]
  have url: "text_ok (ep_URL (row_endpoint q))" using assms(3) by (simp add: callable_def)
  have "wp P (getEndpoint gl ?eid) (\<lambda>r. wp P (?after r) ?Q) (tick w)"
  proof (rule endpoint_current_wp [OF assms(1) url])
    fix ep :: endpoint and w2 assume ep: "ep_URL ep = ep_URL (row_endpoint q)" "ep_Active ep = ep_Active (row_endpoint q)"
      and k: "keys_changed {cache_key ?eid} (tick w) w2"
      and cache: "cache_true gl (rt (w_tick w2)) (w_keys w2) (row_endpoint q)"
    have spare2: "breaker_spare ?c ?eid (ev_AttemptCount ?ev) (w_keys w2)"
      by (rule breaker_spare_keys [of _ _ _ "w_keys w"]) (use now k try_keys_apart in \<open>auto simp: keys_changed_def\<close>)
    have "wp P (deliver_event gl s ?ev ep) ?Q w2"
    proof (rule wp_mono [OF delivery_tried_wp [OF _ _ assms(4) spare2]], goal_cases)
      case 1
      show ?case using now k by (simp add: keys_changed_def)
    next
      case 2
      show ?case using ep(1) assms(3) by (simp add: callable_def)
    next
      case (3 x w3)
      then obtain ok at where t: "tried P ok at r (ep_URL (row_endpoint q)) w2 w3"
        and same: "\<forall>k. k \<notin> cb_keys ?eid \<longrightarrow> w_keys w3 k = w_keys w2 k"
        and spare: "\<not> ok \<longrightarrow> ev_AttemptCount ?ev + 1 < 5 \<longrightarrow> breaker_spare ?c ?eid (ev_AttemptCount ?ev + 1) (w_keys w3)"
        using ep(1) by auto
      have "w_tick w2 \<le> w_tick w3" using t by (simp add: tried_def Let_def)
      then have "cache_true gl (rt (w_tick w3)) (w_keys w3) (row_endpoint q)"
        using same try_keys_apart(1) now by (intro cache_true_later [OF cache rt_mono]) simp_all
      then have "tried_on gl P rt ?c ok at r q w2 w3" using t spare now by (simp add: tried_on_def)
      then have "tried_on gl P rt ?c ok at r q w w3"
        using k by (elim tried_on_before [rotated]) (auto simp: keys_changed_def)
      moreover have "w_keys w3 (event_lock (ev_ID ?ev)) = w_keys w (event_lock (ev_ID ?ev))"
        using same k try_keys_apart by (simp add: keys_changed_def)
      ultimately show ?case using 3 by blast
    qed
    then show "wp P (?after (Inr ep)) ?Q w2" using ep(2) now by simp
  qed (use now in simp_all)
  then show ?thesis
    unfolding locked_part_def
    by (subst wp_bind, intro breaker_lets_through_wp [of _ _ "ev_AttemptCount ?ev"])
      (use assms(2) in \<open>simp_all add: can_try_def Let_def\<close>)
qed

text \<open>Handling a message for a row that waits: one try, and the lock is free again.\<close>

lemma message_tried_wp:
  assumes "endpoint_codec_ok gl" "waiting gl ty rt (ds_breaker s) r q w" "callable gl q"
    and "int64_ok (cb_failureThreshold (ds_breaker s))"
    and "gl_UnmarshalMessage gl (km_Value msg) = Inr em" "uuid_in ty (em_EventID em) = Some (ev_ID (row_event r))"
  shows "wp P (processMessage gl s msg) (\<lambda>x w'. x = None \<and> (\<exists>ok at. tried_on gl P rt (ds_breaker s) ok at r q w w')
    \<and> live (rt (w_tick w')) (w_keys w') (event_lock (ev_ID (row_event r))) = None) w"
    (is "wp P _ ?Q w")
proof -
  let ?ev = "row_event r" and ?c = "ds_breaker s"
  let ?lock = "event_lock (ev_ID ?ev)"
  note can = can_try_waiting [OF assms(2)]
  have row: "open_row ty r (w_db w)" using can by (simp add: can_try_def Let_def)
  have free: "live (rt (w_tick w)) (w_keys w) ?lock = None" and open_status: "\<not> resolved (ev_Status ?ev)"
    using assms(2) by (simp_all add: waiting_def)
  have locked: "wp P (locked_part gl s ?ev) (\<lambda>a. wp P (lock_Release (dispatch_lock (ev_ID ?ev)) val) (\<lambda>_. ?Q a)) w1"
    if k: "keys_changed {?lock} w w1" and held: "\<exists>d. w_keys w1 ?lock = Some (RStr val, d)" for w1 val
  proof (rule wp_mono [OF locked_tried_wp [OF assms(1) _ assms(3,4)]])
    show "can_try gl ty rt ?c r q w1" by (rule can_try_kept [OF can k]) (use try_keys_apart in auto)
    fix a :: "gerr option" and w2 assume *: "a = None \<and> (\<exists>ok at. tried_on gl P rt ?c ok at r q w1 w2) \<and> w_keys w2 ?lock = w_keys w1 ?lock"
    obtain ok at where "tried_on gl P rt ?c ok at r q w1 w2" using * by blast
    then have t: "tried_on gl P rt ?c ok at r q w w2" by (rule tried_on_before [OF k])
    obtain d where d: "w_keys w2 ?lock = Some (RStr val, d)" using * held by auto
    show "wp P (lock_Release (dispatch_lock (ev_ID ?ev)) val) (\<lambda>_. ?Q a) w2"
    proof (rule lock_given_back_wp [OF d])
      fix b w3 assume w3: "keys_changed {?lock} w2 w3" "live (rt (w_tick w3)) (w_keys w3) ?lock = None"
      have cache: "cache_true gl (rt (w_tick w3)) (w_keys w3) (row_endpoint q)"
        by (rule cache_true_later [of _ "rt (w_tick w2)" "w_keys w2"])
          (use t w3(1) rt_mono try_keys_apart in \<open>auto simp: tried_on_def keys_changed_def\<close>)
      have spare: "breaker_spare ?c e n (w_keys w2) \<Longrightarrow> breaker_spare ?c e n (w_keys w3)" for e n
        by (erule breaker_spare_keys) (use w3(1) try_keys_apart in \<open>auto simp: keys_changed_def\<close>)
      have "tried_on gl P rt ?c ok at r q w w3"
        using t cache spare tried_after [OF _ w3(1)] unfolding tried_on_def by blast
      with w3(2) * show "?Q a w3" by blast
    qed
  qed
  have "wp P (process_event gl s ?ev) ?Q (tick w)"
    unfolding process_event_def
  proof (subst if_not_P, goal_cases)
    case 1
    show ?case using open_status by (auto simp: resolved_def)
  next
    case 2
    show ?case
      unfolding wp_bind
    proof (rule lock_taken_wp, goal_cases)
      case 1
      show ?case using live_expired [OF free rt_mono] by simp
    next
      case (2 val w1)
      then have "keys_changed {?lock} w w1" by (auto simp: keys_changed_def)
      from locked [OF this 2(2)] show ?case by simp
    qed
  qed
  then show ?thesis
    unfolding processMessage_def assms(5) sum.case
    by (subst wp_bind, intro event_found_wp [where u = "ev_ID ?ev" and r = r])
      (use row assms(6) in \<open>simp_all add: open_row_def Let_def\<close>)
qed

end

subsection \<open>Try after try\<close>

text \<open>
  Meanwhile: time passes and other work goes on, but not on this event, its endpoint, or the keys
  that Redis holds of them.
\<close>

definition meanwhile :: "pgtypes \<Rightarrow> row \<Rightarrow> world \<Rightarrow> world \<Rightarrow> bool" where
  "meanwhile ty r w w' \<longleftrightarrow> (let ev = row_event r; eid = ev_EndpointID ev in
     w_tick w \<le> w_tick w' \<and> (db_ok ty (w_db w) \<longrightarrow> db_ok ty (w_db w'))
     \<and> (\<forall>k \<in> {event_lock (ev_ID ev), cache_key eid} \<union> cb_keys eid. w_keys w' k = w_keys w k)
     \<and> set (rows_with (w_db w') ''events'' ''id'' (ev_ID ev)) = set (rows_with (w_db w) ''events'' ''id'' (ev_ID ev))
     \<and> set (rows_with (w_db w') ''endpoints'' ''id'' eid) = set (rows_with (w_db w) ''endpoints'' ''id'' eid))"

text \<open>
  The next try of a row whose delivery failed: a tick of the scheduler at the time set for it, or
  later, marks the row queued and publishes a message for it, with which it is \<open>settled\<close>.
\<close>

definition next_try :: "platform \<Rightarrow> pgtypes \<Rightarrow> (nat \<Rightarrow> time) \<Rightarrow> golib \<Rightarrow> SchedulerService
    \<Rightarrow> (row \<Rightarrow> kmessage \<Rightarrow> world \<Rightarrow> bool) \<Rightarrow> time \<Rightarrow> row \<Rightarrow> world \<Rightarrow> bool" where
  "next_try P ty pgnow gl sch settled at r w \<longleftrightarrow>
     r ''status'' = VText EventStatusRetrying \<and> r ''next_retry_at'' = VTime at
     \<and> (\<forall>w2. meanwhile ty r w w2 \<longrightarrow> at \<le> pgnow (w_tick w2) \<longrightarrow>
          length (filter (due (pgnow (w_tick w2))) (w_db w2 ''events'')) \<le> 100 \<longrightarrow>
          wp P (processRetryableEvents gl sch) (\<lambda>y w3. y = None \<and> (\<exists>m r2. republished gl r m r2 w2 w3
            \<and> (\<forall>w4. meanwhile ty r2 w3 w4 \<longrightarrow> settled r2 m w4))) w2)"

text \<open>
  The event of the row is settled by the message within so many tries: the message sends its
  webhook, and then the event is delivered or failed, or the next try settles it within one try less.
\<close>

fun settles :: "platform \<Rightarrow> pgtypes \<Rightarrow> (nat \<Rightarrow> time) \<Rightarrow> golib \<Rightarrow> DispatcherService \<Rightarrow> SchedulerService \<Rightarrow> string \<Rightarrow> nat
    \<Rightarrow> row \<Rightarrow> kmessage \<Rightarrow> world \<Rightarrow> bool" where
  "settles P ty pgnow gl s sch url 0 r m w = False"
| "settles P ty pgnow gl s sch url (Suc k) r m w =
     wp P (processMessage gl s m) (\<lambda>x w1. x = None \<and> (\<exists>ok at r1. tried P ok at r url w w1
       \<and> set (rows_with (w_db w1) ''events'' ''id'' (ev_ID (row_event r))) = {r1}
       \<and> (resolved (ev_Status (row_event r1))
          \<or> next_try P ty pgnow gl sch (\<lambda>r2 m2 w4. settles P ty pgnow gl s sch url k r2 m2 w4) (micros at) r1 w1))) w"

lemma row_event_put_retry:
  "row_event (put_retry st n at t r) = (row_event r)\<lparr>ev_Status := st, ev_AttemptCount := n,
     ev_NextRetryAt := Some (micros at), ev_UpdatedAt := micros t\<rparr>"
  by (simp add: row_event_def put_retry_def)

lemma meanwhile_cong:
  "ev_ID (row_event r') = ev_ID (row_event r) \<Longrightarrow> ev_EndpointID (row_event r') = ev_EndpointID (row_event r) \<Longrightarrow>
    meanwhile ty r' = meanwhile ty r"
  by (simp add: meanwhile_def Let_def fun_eq_iff)

context reliable_backend
begin

text \<open>A row that is published for its next try waits again.\<close>

lemma waiting_again:
  assumes "waiting gl ty rt c r q w" "tried_on gl P rt c False at r q w w1" "ev_AttemptCount (row_event r) + 1 < 5"
    and "live (rt (w_tick w1)) (w_keys w1) (event_lock (ev_ID (row_event r))) = None"
    and "r1 = put_retry EventStatusRetrying (ev_AttemptCount (row_event r) + 1) at now r"
    and "meanwhile ty r w1 w2" "republished gl r1 m r2 w2 w3" "w_tick w2 \<le> w_tick w3" "db_ok ty (w_db w3)" "meanwhile ty r w3 w4"
  shows "waiting gl ty rt c r2 q w4"
proof -
  let ?ev = "row_event r"
  let ?eid = "ev_EndpointID ?ev"
  note q = waiting_facts(2-4) [OF assms(1)]
  obtain t where r2: "r2 = put_status EventStatusQueued t r1" using assms(7) by (auto simp: republished_def)
  have ev2: "ev_ID (row_event r2) = ev_ID ?ev" "ev_EndpointID (row_event r2) = ?eid"
    "ev_AttemptCount (row_event r2) = ev_AttemptCount ?ev + 1" "ev_Status (row_event r2) = EventStatusQueued"
    "ev_ID (row_event r1) = ev_ID ?ev"
    by (simp_all add: r2 assms(5) row_event_put_status row_event_put_retry)
  have ep2: "r2 ''endpoint_id'' = r ''endpoint_id''" by (simp add: r2 assms(5) put_status_def put_retry_def)
  have keys: "w_keys w4 k = w_keys w1 k" if "k \<in> {event_lock (ev_ID ?ev), cache_key ?eid} \<union> cb_keys ?eid" for k
  proof -
    have "w_keys w4 k = w_keys w3 k" "w_keys w2 k = w_keys w1 k" using that assms(6,10) by (simp_all only: meanwhile_def Let_def)
    then show ?thesis using assms(7) by (simp add: republished_def)
  qed
  have later: "w_tick w1 \<le> w_tick w4" using assms(6,8,10) by (simp add: meanwhile_def Let_def)
  have "set (rows_with (w_db w4) ''events'' ''id'' (ev_ID ?ev)) = {r2}"
    using assms(7,10) ev2(5) by (simp add: meanwhile_def republished_def Let_def)
  then have r2_in: "r2 \<in> set (w_db w4 ''events'')" by (auto simp: rows_with_def set_eq_iff)
  have ends: "w_db w1 ''endpoints'' = w_db w ''endpoints''" using assms(2) by (simp add: tried_on_def tried_def Let_def)
  have "rows_with (w_db w3) ''endpoints'' c u = rows_with (w_db w2) ''endpoints'' c u"
    "rows_with (w_db w1) ''endpoints'' c u = rows_with (w_db w) ''endpoints'' c u" for c u
    using assms(7) ends by (simp_all add: republished_def rows_with_def)
  then have "set (rows_with (w_db w4) ''endpoints'' ''id'' ?eid) = {q}"
    using assms(6,10) q(3) by (simp add: meanwhile_def Let_def)
  then have q_in: "q \<in> set (w_db w4 ''endpoints'')" by (auto simp: rows_with_def set_eq_iff)
  have "live (rt (w_tick w4)) (w_keys w1) (event_lock (ev_ID ?ev)) = None"
    by (rule live_expired [OF assms(4) rt_mono [OF later]])
  then have lock: "live (rt (w_tick w4)) (w_keys w4) (event_lock (ev_ID ?ev)) = None"
    using keys by (simp add: live_def)
  have cache: "cache_true gl (rt (w_tick w4)) (w_keys w4) (row_endpoint q)"
    by (rule cache_true_later [of _ "rt (w_tick w1)" "w_keys w1"])
      (use assms(2) keys q(1) in \<open>auto simp: tried_on_def intro: rt_mono later\<close>)
  have "breaker_spare c (ep_ID (row_endpoint q)) (ev_AttemptCount ?ev + 1) (w_keys w1)"
    using assms(2,3) by (simp add: tried_on_def)
  then have spare: "breaker_spare c (ep_ID (row_endpoint q)) (ev_AttemptCount ?ev + 1) (w_keys w4)"
    by (rule breaker_spare_keys) (use keys q(1) in auto)
  have "db_ok ty (w_db w4)" using assms(9,10) by (simp add: meanwhile_def Let_def)
  then show ?thesis
    using assms(1) r2_in q_in lock cache spare unfolding waiting_def ev2 ep2 by (simp add: resolved_def)
qed

lemma next_tryI:
  assumes "codec_ok gl ty" "clock_ok P" "payload_ok gl (ev_Payload (row_event r))" "db_ok ty (w_db w)" "ev_ID (row_event r) = u"
    and "set (rows_with (w_db w) ''events'' ''id'' u) = {r}"
    and "r ''status'' = VText EventStatusRetrying" "r ''next_retry_at'' = VTime at"
    and "\<And>m r2 w2 w3 w4. meanwhile ty r w w2 \<Longrightarrow> republished gl r m r2 w2 w3 \<Longrightarrow> w_tick w2 \<le> w_tick w3 \<Longrightarrow>
      db_ok ty (w_db w3) \<Longrightarrow> meanwhile ty r2 w3 w4 \<Longrightarrow> settled r2 m w4"
  shows "next_try P ty pgnow gl (NewSchedulerService p) settled at r w"
  unfolding next_try_def
proof (intro conjI allI impI)
  fix w2 assume mean: "meanwhile ty r w w2" and time: "at \<le> pgnow (w_tick w2)"
    and few: "length (filter (due (pgnow (w_tick w2))) (w_db w2 ''events'')) \<le> 100"
  have ok: "db_ok ty (w_db w2)" using mean assms(4) by (simp add: meanwhile_def Let_def)
  have "set (rows_with (w_db w2) ''events'' ''id'' u) = {r}" using mean assms(5,6) by (simp add: meanwhile_def Let_def)
  then have "r \<in> set (w_db w2 ''events'')" by (auto simp: rows_with_def set_eq_iff)
  moreover have "due (pgnow (w_tick w2)) r" using time assms(7,8) by (simp add: due_def)
  ultimately have pub: "wp P (processRetryableEvents gl (NewSchedulerService p))
      (\<lambda>y w3. y = None \<and> (\<exists>m r2. republished gl r m r2 w2 w3)) w2"
    by (rule due_is_published [OF assms(1,2) ok few _ _ assms(3)])
  have keeps: "wp P (processRetryableEvents gl (NewSchedulerService p)) (\<lambda>y w3. kept ty (\<lambda>_ _. False) w2 w3) w2"
    by (rule tick_keeps [OF ok]) (simp add: NewSchedulerService_def)
  show "wp P (processRetryableEvents gl (NewSchedulerService p)) (\<lambda>y w3. y = None \<and> (\<exists>m r2. republished gl r m r2 w2 w3
      \<and> (\<forall>w4. meanwhile ty r2 w3 w4 \<longrightarrow> settled r2 m w4))) w2"
    by (rule wp_mono [OF wp_later [OF wp_conj [OF pub keeps]]])
      (use assms(9) [OF mean] kept_ok in blast)
qed (use assms(7,8) in simp_all)

lemma message_settles:
  assumes "codec_ok gl ty" "endpoint_codec_ok gl" "callable gl q" "int64_ok (cb_failureThreshold (ds_breaker s))" "clock_ok P"
  shows "waiting gl ty rt (ds_breaker s) r q w \<Longrightarrow> payload_ok gl (ev_Payload (row_event r)) \<Longrightarrow> gl_UnmarshalMessage gl (km_Value m) = Inr em \<Longrightarrow>
    uuid_in ty (em_EventID em) = Some (ev_ID (row_event r)) \<Longrightarrow> 5 \<le> ev_AttemptCount (row_event r) + int k \<Longrightarrow>
    settles P ty pgnow gl s (NewSchedulerService p) (ep_URL (row_endpoint q)) k r m w"
proof (induction k arbitrary: r m w em)
  case 0
  then show ?case using waiting_facts(1) [OF 0(1)] by (simp add: open_row_def Let_def)
next
  case (Suc k)
  let ?ev = "row_event r" and ?c = "ds_breaker s" and ?url = "ep_URL (row_endpoint q)"
  let ?settled = "\<lambda>r2 m2 w4. settles P ty pgnow gl s (NewSchedulerService p) ?url k r2 m2 w4"
  note em = Suc.prems(3,4)
  have ok: "db_ok ty (w_db w)" using Suc.prems(1) by (simp add: waiting_def)
  have max: "ev_MaxAttempts ?ev = 5" using waiting_facts(1) [OF Suc.prems(1)] by (simp add: open_row_def Let_def)
  have ends: "resolved (ev_Status (row_event r1)) \<or> next_try P ty pgnow gl (NewSchedulerService p) ?settled (micros at) r1 w1"
    if t: "tried_on gl P rt ?c ok at r q w w1" and free: "live (rt (w_tick w1)) (w_keys w1) (event_lock (ev_ID ?ev)) = None"
      and ok1: "db_ok ty (w_db w1)" and r1: "r1 = after_try ok now at r"
      and row: "set (rows_with (w_db w1) ''events'' ''id'' (ev_ID ?ev)) = {r1}" for ok at now r1 w1
  proof (cases "ok \<or> 5 \<le> ev_AttemptCount ?ev + 1")
    case True
    then show ?thesis by (auto simp: r1 after_try_def Let_def max row_event_put_status resolved_def)
  next
    case False
    then have retry: "r1 = put_retry EventStatusRetrying (ev_AttemptCount ?ev + 1) at now r"
      by (simp add: r1 after_try_def Let_def max)
    have failed: "tried_on gl P rt ?c False at r q w w1" "ev_AttemptCount ?ev + 1 < 5" using t False by simp_all
    have ids: "ev_ID (row_event r1) = ev_ID ?ev" "ev_EndpointID (row_event r1) = ev_EndpointID ?ev"
      by (simp_all add: retry row_event_put_retry)
    have "?settled r2 m2 w4"
      if p3: "meanwhile ty r1 w1 w2" "republished gl r1 m2 r2 w2 w3" "w_tick w2 \<le> w_tick w3" "db_ok ty (w_db w3)" "meanwhile ty r2 w3 w4"
      for m2 r2 w2 w3 w4
    proof -
      obtain t where r2: "r2 = put_status EventStatusQueued t r1" using p3(2) by (auto simp: republished_def)
      have ids2: "ev_ID (row_event r2) = ev_ID ?ev" "ev_EndpointID (row_event r2) = ev_EndpointID ?ev"
        "ev_AttemptCount (row_event r2) = ev_AttemptCount ?ev + 1" by (simp_all add: r2 retry row_event_put_status row_event_put_retry)
      have pl2: "ev_Payload (row_event r2) = ev_Payload ?ev" by (simp add: r2 retry row_event_put_status row_event_put_retry)
      have "waiting gl ty rt ?c r2 q w4"
        by (rule waiting_again [OF Suc.prems(1) failed free retry p3(1) [unfolded meanwhile_cong [OF ids]] p3(2-4)
              p3(5) [unfolded meanwhile_cong [OF ids2(1,2)]]])
      moreover obtain em2 where em2: "gl_UnmarshalMessage gl (km_Value m2) = Inr em2" "em_EventID em2 = ev_ID ?ev"
        using p3(2) by (auto simp: republished_def names_event_def ids)
      moreover have "uuid_in ty (em_EventID em2) = Some (ev_ID ?ev)" using uuid_canonical [OF em(2)] by (simp add: em2(2))
      ultimately show ?thesis using Suc.prems(2,5) by (intro Suc.IH [where em = em2]) (simp_all add: ids2 pl2)
    qed
    then have "next_try P ty pgnow gl (NewSchedulerService p) ?settled (micros at) r1 w1"
      by (intro next_tryI [OF assms(1,5) _ ok1 ids(1) row]) (use Suc.prems(2) in \<open>simp_all add: retry row_event_put_retry, simp_all add: put_retry_def\<close>)
    then show ?thesis ..
  qed
  show ?case
    unfolding settles.simps
  proof (rule wp_mono [OF wp_conj [OF message_tried_wp [OF assms(2) Suc.prems(1) assms(3,4) em] message_keeps [OF ok, where src = "\<lambda>_ _. False"]]],
      elim conjE exE, intro conjI)
    fix x w1 ok at
    assume t: "tried_on gl P rt ?c ok at r q w w1" "live (rt (w_tick w1)) (w_keys w1) (event_lock (ev_ID ?ev)) = None"
      and kept1: "kept ty (\<lambda>_ _. False) w w1"
    then obtain now where row: "set (rows_with (w_db w1) ''events'' ''id'' (ev_ID ?ev)) = {after_try ok now at r}"
      by (auto simp: tried_on_def tried_def Let_def)
    have "tried P ok at r ?url w w1" using t(1) by (simp add: tried_on_def)
    with row ends [OF t kept_ok [OF kept1] refl row]
    show "\<exists>ok at r1. tried P ok at r ?url w w1 \<and> set (rows_with (w_db w1) ''events'' ''id'' (ev_ID ?ev)) = {r1}
       \<and> (resolved (ev_Status (row_event r1)) \<or> next_try P ty pgnow gl (NewSchedulerService p) ?settled (micros at) r1 w1)"
      by blast
  qed
qed

end

subsection \<open>From the request to the end\<close>

context reliable_backend
begin

text \<open>An accepted event waits, whatever goes on meanwhile.\<close>

lemma accepted_waits:
  assumes "accepted_as gl ty input ev r q m w w1" "db_ok ty (w_db w1)" "meanwhile ty r w1 w2"
    and "idle (ep_ID (row_endpoint q)) (w_keys w)" "breaker_spare c (ep_ID (row_endpoint q)) 0 (w_keys w)"
  shows "waiting gl ty rt c r q w2"
proof -
  note acc = assms(1) [unfolded accepted_as_def Let_def]
  let ?v = "ep_ID (row_endpoint q)"
  have eid: "ev_EndpointID (row_event r) = ?v" using acc by (simp add: row_event_def)
  have keys: "w_keys w2 k = w_keys w k" if "k \<in> {event_lock (ev_ID (row_event r)), cache_key ?v} \<union> cb_keys ?v" for k
  proof -
    have "w_keys w2 k = w_keys w1 k" using that assms(3) by (simp_all only: meanwhile_def Let_def eid)
    then show ?thesis using acc by simp
  qed
  have "set (rows_with (w_db w2) ''events'' ''id'' (ev_ID (row_event r))) = {r}"
    using acc assms(3) by (simp add: meanwhile_def Let_def)
  then have r_in: "r \<in> set (w_db w2 ''events'')" by (auto simp: rows_with_def set_eq_iff)
  have "q \<in> set (rows_with (w_db w1) ''endpoints'' ''id'' ?v)" using acc by (simp add: rows_with_def)
  then have "q \<in> set (rows_with (w_db w2) ''endpoints'' ''id'' ?v)" using assms(3) by (simp only: meanwhile_def Let_def eid)
  then have q_in: "q \<in> set (w_db w2 ''endpoints'')" by (simp add: rows_with_def)
  have "live t (w_keys w2) (event_lock (ev_ID (row_event r))) = None" "live t (w_keys w2) (cache_key ?v) = None" for t
    using keys assms(4) by (simp_all add: live_def idle_def)
  moreover have "breaker_spare c ?v 0 (w_keys w2)" by (rule breaker_spare_keys [OF assms(5)]) (use keys in auto)
  moreover have "db_ok ty (w_db w2)" using assms(2,3) by (simp add: meanwhile_def Let_def)
  moreover have "uuid_in ty ?v = Some ?v" using acc uuid_canonical by blast
  ultimately show ?thesis
    using acc r_in q_in by (simp add: waiting_def cache_true_def resolved_def)
qed

lemma Create_settles:
  assumes "codec_ok gl ty" "endpoint_codec_ok gl" "clock_ok P" "int64_ok (cb_failureThreshold (ds_breaker s))" "db_ok ty (w_db w)"
    and "\<And>j. j = ci_Payload input \<or> jsonb_in ty (ci_Payload input) = Some j \<Longrightarrow> payload_ok gl j"
    and "\<And>q. q \<in> set (w_db w ''endpoints'') \<Longrightarrow> uuid_in ty (ci_EndpointID input) = Some (ep_ID (row_endpoint q)) \<Longrightarrow>
      callable gl q \<and> idle (ep_ID (row_endpoint q)) (w_keys w)
      \<and> breaker_spare (ds_breaker s) (ep_ID (row_endpoint q)) 0 (w_keys w)"
  shows "wp P (eventService_Create gl p tid input) (\<lambda>res w1. \<forall>ev. res = Inr ev \<longrightarrow>
    (\<exists>r q m. accepted_as gl ty input ev r q m w w1 \<and> (\<forall>w2. meanwhile ty r w1 w2 \<longrightarrow>
       settles P ty pgnow gl s (NewSchedulerService p') (ep_URL (row_endpoint q)) 5 r m w2))) w"
proof (rule wp_mono [OF wp_conj [OF Create_accepts [OF assms(1) _ assms(3)]
        eventService_Create_own [OF assms(5), where src = "\<lambda>_ _. True"]]], goal_cases)
  case 1
  show ?case using assms(6) by simp
next
  case 2
  show ?case by simp
next
  case (3 res w1)
  show ?case
  proof (intro allI impI)
    fix ev assume "res = Inr ev"
    with 3 obtain r q m where acc: "accepted_as gl ty input ev r q m w w1" and own: "own_effect ty (\<lambda>_ _. True) tid w w1"
      by blast
    have ok: "db_ok ty (w_db w1)" using own assms(5) by (simp add: own_effect_def)
    have ep: "callable gl q" "idle (ep_ID (row_endpoint q)) (w_keys w)" "breaker_spare (ds_breaker s) (ep_ID (row_endpoint q)) 0 (w_keys w)"
      using acc assms(7) [of q] by (simp_all add: accepted_as_def Let_def)
    have pl: "payload_ok gl (ev_Payload (row_event r))" using acc assms(6) by (simp add: accepted_as_def Let_def)
    obtain em where em: "gl_UnmarshalMessage gl (km_Value m) = Inr em" "uuid_in ty (em_EventID em) = Some (ev_ID (row_event r))"
      "ev_AttemptCount (row_event r) = 0" using acc unfolding accepted_as_def Let_def by blast
    have "settles P ty pgnow gl s (NewSchedulerService p') (ep_URL (row_endpoint q)) 5 r m w2" if "meanwhile ty r w1 w2" for w2
      by (rule message_settles [OF assms(1,2) ep(1) assms(4,3) accepted_waits [OF acc ok that ep(2,3)] pl em(1,2)])
        (simp add: em(3))
    with acc show "\<exists>r q m. accepted_as gl ty input ev r q m w w1 \<and> (\<forall>w2. meanwhile ty r w1 w2 \<longrightarrow>
       settles P ty pgnow gl s (NewSchedulerService p') (ep_URL (row_endpoint q)) 5 r m w2)" by blast
  qed
qed

end

text \<open>
  C3: every accepted event ends. Suppose that no server fails, the payload is JSON (as sent and as the
  database prints it), the URL of the endpoint is one net/http accepts, no event's lock is
  held, and the endpoint is not cached and its breaker closed, with fewer failures counted than
  five tries need to open it. Then, whatever the endpoint host answers, the event
  that Create accepts is settled within five tries: its message sends one webhook to its
  endpoint; if the host accepts it the event is marked delivered; otherwise it is marked failed if
  this was the fifth try, and else set to be retried at a time, from when on a tick of the scheduler
  publishes the message of the next try. Between these steps time passes and others may work, as
  long as they leave the event, its endpoint and the keys of both in Redis alone (meanwhile)
  and at most a hundred retries are due at the tick.
\<close>

theorem accepted_event_is_settled:
  assumes "reliable_backend P rt ty pgnow" "codec_ok gl ty" "endpoint_codec_ok gl" "clock_ok P"
    and "int64_ok (cb_failureThreshold (ds_breaker s))" "db_ok ty (w_db w)"
    and "\<And>j. j = ci_Payload input \<or> jsonb_in ty (ci_Payload input) = Some j \<Longrightarrow> payload_ok gl j"
    and "\<And>q. q \<in> set (w_db w ''endpoints'') \<Longrightarrow> uuid_in ty (ci_EndpointID input) = Some (ep_ID (row_endpoint q)) \<Longrightarrow>
      callable gl q \<and> idle (ep_ID (row_endpoint q)) (w_keys w)
      \<and> breaker_spare (ds_breaker s) (ep_ID (row_endpoint q)) 0 (w_keys w)"
  shows "wp P (eventService_Create gl p tid input) (\<lambda>res w1. \<forall>ev. res = Inr ev \<longrightarrow>
    (\<exists>r q m. accepted_as gl ty input ev r q m w w1 \<and> (\<forall>w2. meanwhile ty r w1 w2 \<longrightarrow>
       settles P ty pgnow gl s (NewSchedulerService p') (ep_URL (row_endpoint q)) 5 r m w2))) w"
  by (rule reliable_backend.Create_settles [OF assms])

lemma endpoint_codec_ok_sim [simp]: "endpoint_codec_ok sim_lib"
  by (auto simp: endpoint_codec_ok_def sim_lib_def)

lemma sample_breaker_spare: "breaker_spare (ds_breaker dispatcher) v 0 (w_keys queued_world)"
  unfolding breaker_spare_def
  by (rule exI [of _ fresh_breaker])
    (simp add: cb_repr_def fresh_breaker_def holds_str_def queued_world_def empty_world_def int64_ok_def dispatcher_def
      NewDispatcherService_def NewCircuitBreakerRepo_def)

theorem accepted_event_is_settled_witness:
  "wp (sim (answering 500)) (eventService_Create sim_lib events_producer ''t'' (order_input ''p'')) (\<lambda>res w1. \<forall>ev. res = Inr ev \<longrightarrow>
    (\<exists>r q m. accepted_as sim_lib sim_types (order_input ''p'') ev r q m queued_world w1 \<and> (\<forall>w2. meanwhile sim_types r w1 w2 \<longrightarrow>
       settles (sim (answering 500)) sim_types (sim_time (answering 500)) sim_lib dispatcher (NewSchedulerService events_producer)
         (ep_URL (row_endpoint q)) 5 r m w2))) queued_world"
proof (rule accepted_event_is_settled [OF calm_backend.reliable_backend_axioms [of "answering 500", simplified] codec_ok_sim(1)
      endpoint_codec_ok_sim clock_ok_answering _ queued_db_ok])
  show "int64_ok (cb_failureThreshold (ds_breaker dispatcher))"
    by (simp add: dispatcher_def NewDispatcherService_def NewCircuitBreakerRepo_def int64_ok_def)
  fix q assume "q \<in> set (w_db queued_world ''endpoints'')"
  then have "ep_URL (row_endpoint q) = ''https://x.io/hook''"
    by (simp add: queued_world_def event_db_def row_endpoint_def endpoint_row_def)
  then show "callable sim_lib q \<and> idle (ep_ID (row_endpoint q)) (w_keys queued_world)
      \<and> breaker_spare (ds_breaker dispatcher) (ep_ID (row_endpoint q)) 0 (w_keys queued_world)"
    using sample_breaker_spare
    by (simp add: idle_def queued_world_def empty_world_def callable_def sim_lib_def byte_def utf8_chars_def)
qed simp

end
