(* ===== verification/Races.thy ===== *)
theory Races
  imports Resolution
begin

text \<open>
  Where events get lost. Events go through their life cycle when requests, messages and batches are
  whole (theory \<open>Histories\<close>) and end when nothing disturbs them (theory \<open>Resolution\<close>). Here is what
  happens otherwise, on services that answer: the status that is set after publishing
  overwrites that of a delivery in between, a message that is met by an open breaker is
  committed and its event stays queued, the last attempt is not counted in the dead letter, and an
  event whose message cannot be written stays pending.
\<close>

text \<open>All rows of the event have the status.\<close>

definition status_is :: "database \<Rightarrow> string \<Rightarrow> string \<Rightarrow> bool" where
  "status_is db u st \<longleftrightarrow> rows_with db ''events'' ''id'' u \<noteq> []
     \<and> (\<forall>r \<in> set (rows_with db ''events'' ''id'' u). r ''status'' = VText st)"

lemma queued_not_due: "r ''status'' = VText EventStatusQueued \<Longrightarrow> \<not> due now r"
  by (simp add: due_def status_defs)

subsection \<open>Published, delivered, overwritten\<close>

text \<open>The first part of a program run to its end, step by step.\<close>

definition continued :: "('a \<Rightarrow> 'b prog) \<Rightarrow> 'a outcome \<times> world \<Rightarrow> 'b prog \<times> world" where
  "continued f r = (case r of (Returns a, w') \<Rightarrow> (f a, w') | (Panics s, w') \<Rightarrow> (Panic s, w'))"

lemma continued_simps [simp]: "continued f (Returns a, w) = (f a, w)" "continued f (Panics s, w) = (Panic s, w)"
  by (simp_all add: continued_def)

lemma steps_bind_next:
  assumes "step P (bind m f) w = (bind (fst (step P m w)) f, snd (step P m w))"
    and "\<exists>n. steps P n (bind (fst (step P m w)) f) (snd (step P m w))
      = continued f (run P (fst (step P m w)) (snd (step P m w)))"
  shows "\<exists>n. steps P n (bind m f) w = continued f (run P m w)"
proof -
  from assms obtain n where "steps P (Suc n) (bind m f) w = continued f (run P m w)"
    by (auto simp: run_step [of P m w])
  then show ?thesis ..
qed

lemma steps_bind: "\<exists>n. steps P n (bind m f) w = continued f (run P m w)"
proof (induction m arbitrary: w)
  case (Ret x)
  show ?case by (rule exI [of _ 0]) simp
next
  case (Panic x)
  show ?case by (rule exI [of _ 0]) simp
qed (rule steps_bind_next; simp split: prod.split)+

text \<open>
  Two programs, a publisher of the event and a worker with the message it publishes: the worker
  delivers the event and returns before the publisher is done, and in the end the event is
  queued again.
\<close>

definition overwritten :: "platform \<Rightarrow> golib \<Rightarrow> DispatcherService \<Rightarrow> event \<Rightarrow> string \<Rightarrow> gerr option prog \<Rightarrow> world \<Rightarrow> bool" where
  "overwritten P gl s ev url publisher w \<longleftrightarrow> (\<exists>msg ps1 w1 ps2 w2.
     reachable (event_lock (ev_ID ev)) P ([\<lparr>wk_prog = publisher, wk_held = None\<rparr>,
         \<lparr>wk_prog = processMessage gl s msg, wk_held = None\<rparr>], w) (ps1, w1)
     \<and> map (\<lambda>p. returned (wk_prog p)) ps1 = [None, Some None]
     \<and> w_log w1 = w_log w @ [msg] \<and> w_sent w1 = w_sent w @ [webhook_post url (ev_Payload ev) (webhook_headers ev)]
     \<and> status_is (w_db w1) (ev_ID ev) EventStatusDelivered
     \<and> reachable (event_lock (ev_ID ev)) P (ps1, w1) (ps2, w2)
     \<and> map (\<lambda>p. returned (wk_prog p)) ps2 = [Some None, Some None]
     \<and> w_log w2 = w_log w1 \<and> w_sent w2 = w_sent w1
     \<and> status_is (w_db w2) (ev_ID ev) EventStatusQueued)"


text \<open>The worker's part of such a history, and its end.\<close>

lemma overwrittenI:
  assumes publisher: "\<exists>n. steps P n pub w = (bind (EventRepo_UpdateStatus (ev_ID ev) EventStatusQueued) rest, w1)"
    and rest: "\<And>e. returned (bind (Ret e) rest) = Some None"
    and log: "w_log w1 = w_log w @ [msg]" "w_sent w1 = w_sent w"
    and worker: "wp P (processMessage gl s msg) (\<lambda>x w2. x = None \<and> w_log w2 = w_log w1
      \<and> w_sent w2 = w_sent w1 @ [webhook_post url (ev_Payload ev) (webhook_headers ev)]
      \<and> status_is (w_db w2) (ev_ID ev) EventStatusDelivered) w1"
    and update: "\<And>w2. status_is (w_db w2) (ev_ID ev) EventStatusDelivered \<Longrightarrow>
      wp P (EventRepo_UpdateStatus (ev_ID ev) EventStatusQueued)
        (\<lambda>e w3. w_log w3 = w_log w2 \<and> w_sent w3 = w_sent w2 \<and> status_is (w_db w3) (ev_ID ev) EventStatusQueued) w2"
  shows "overwritten P gl s ev url pub w"
proof -
  let ?key = "event_lock (ev_ID ev)" and ?m = "processMessage gl s msg"
  let ?upd = "bind (EventRepo_UpdateStatus (ev_ID ev) EventStatusQueued) rest"
  let ?start = "([\<lparr>wk_prog = pub, wk_held = None\<rparr>, \<lparr>wk_prog = ?m, wk_held = None\<rparr>], w)"
  obtain n where "steps P n pub w = (?upd, w1)" using publisher ..
  then obtain h where c1: "reachable ?key P ?start ([\<lparr>wk_prog = ?upd, wk_held = h\<rparr>, \<lparr>wk_prog = ?m, wk_held = None\<rparr>], w1)"
    using reachable_steps [OF reach_start [of ?key P ?start], of 0 n ?upd w1] by auto
  from worker obtain w2 where w2: "run P ?m w1 = (Returns None, w2)" "w_log w2 = w_log w1"
    "w_sent w2 = w_sent w1 @ [webhook_post url (ev_Payload ev) (webhook_headers ev)]"
    "status_is (w_db w2) (ev_ID ev) EventStatusDelivered" unfolding wp_iff by blast
  then obtain h2 where c2: "reachable ?key P ?start
      ([\<lparr>wk_prog = ?upd, wk_held = h\<rparr>, \<lparr>wk_prog = Ret None, wk_held = h2\<rparr>], w2)" (is "reachable _ _ _ (?ps1, _)")
    using reachable_run [OF c1, of 1 None w2] by auto
  from update [OF w2(4)] obtain e w3 where w3: "run P (EventRepo_UpdateStatus (ev_ID ev) EventStatusQueued) w2 = (Returns e, w3)"
    "w_log w3 = w_log w2" "w_sent w3 = w_sent w2" "status_is (w_db w3) (ev_ID ev) EventStatusQueued"
    unfolding wp_iff by blast
  obtain k where "steps P k ?upd w2 = (rest e, w3)"
    using steps_bind [of P "EventRepo_UpdateStatus (ev_ID ev) EventStatusQueued" rest w2] w3(1) by auto
  then obtain h3 where c3: "reachable ?key P (?ps1, w2)
      ([\<lparr>wk_prog = rest e, wk_held = h3\<rparr>, \<lparr>wk_prog = Ret None, wk_held = h2\<rparr>], w3)"
    using reachable_steps [OF reach_start [of ?key P "(?ps1, w2)"], of 0 k "rest e" w3] by auto
  have unfinished: "returned ?upd = None"
    by (simp add: EventRepo_UpdateStatus_def returned_def)
  have finished: "returned (rest e) = Some None" using rest [of e] by simp
  have worker_done: "returned (Ret None :: gerr option prog) = Some None" by (simp add: returned_def)
  have before: "map (\<lambda>p. returned (wk_prog p)) ?ps1 = [None, Some None]" using unfinished worker_done by simp
  have after: "map (\<lambda>p. returned (wk_prog p)) [\<lparr>wk_prog = rest e, wk_held = h3\<rparr>, \<lparr>wk_prog = Ret None, wk_held = h2\<rparr>]
      = [Some None, Some None]" using finished worker_done by simp
  show ?thesis
    unfolding overwritten_def
    by (intro exI conjI, rule c2, rule before, goal_cases)
      (use c3 after log w2 w3 in auto)
qed

context reliable_backend
begin

lemma status_is_set:
  "rows_with db ''events'' ''id'' u \<noteq> [] \<Longrightarrow> db' ''events'' = set_rows ''events'' u (put_status st t) db ''events'' \<Longrightarrow> status_is db' u st"
  using rows_with_set_status [of u st t db u] set_empty [of "rows_with (set_rows ''events'' u (put_status st t) db) ''events'' ''id'' u"]
  by (simp add: status_is_def rows_with_def [of db'] rows_with_def [of "set_rows _ _ _ _"])
    (auto simp: put_status_def)

lemma status_queued_wp:
  assumes "uuid_in ty u = Some u" "rows_with (w_db w) ''events'' ''id'' u \<noteq> []"
  shows "wp P (EventRepo_UpdateStatus u EventStatusQueued)
    (\<lambda>e w'. w_log w' = w_log w \<and> w_sent w' = w_sent w \<and> status_is (w_db w') u EventStatusQueued) w"
  by (rule status_set_wp [OF _ assms]) (simp_all add: status_is_set [OF assms(2)])

lemma publisher_overtaken:
  assumes "codec_ok gl ty" "payload_ok gl (ev_Payload ev)" "clock_ok P" "uuid_in ty (ev_ID ev) = Some (ev_ID ev)"
    and publisher: "publisher = bind (PublishEvent gl p (ev_ID ev) tid epid et (ev_Payload ev) sg) (\<lambda>pe. next pe)"
      "next None = bind (EventRepo_UpdateStatus (ev_ID ev) EventStatusQueued) (\<lambda>e. Ret None)"
    and row: "set (rows_with (w_db w) ''events'' ''id'' (ev_ID ev)) = {r}" "event_row_ok r" "ev' = row_event r"
      "\<not> resolved (ev_Status ev')" "undisturbed ev' (w_keys w)"
    and ep: "uuid_in ty (ev_EndpointID ev') = Some (ev_EndpointID ev')"
      "set (rows_with (w_db w) ''endpoints'' ''id'' (ev_EndpointID ev')) = {q}" "endpoint_row_ok q" "ep_Active (row_endpoint q)"
      "gl_NewRequest gl (ep_URL (row_endpoint q)) = None" "accepting P"
  shows "overwritten P gl s ev' (ep_URL (row_endpoint q)) publisher w"
proof -
  let ?pub = "PublishEvent gl p (ev_ID ev) tid epid et (ev_Payload ev) sg"
  have "r \<in> set (rows_with (w_db w) ''events'' ''id'' (ev_ID ev))" using row(1) by simp
  then have id: "ev_ID ev' = ev_ID ev" using row(3) by (simp add: rows_with_def row_event_def)
  have "wp P ?pub (\<lambda>x w1. x = None \<and> (\<exists>m em. gl_UnmarshalMessage gl (km_Value m) = Inr em \<and> em_EventID em = ev_ID ev
      \<and> w_log w1 = w_log w @ [m] \<and> w_sent w1 = w_sent w \<and> w_db w1 = w_db w \<and> w_keys w1 = w_keys w)) w"
    by (rule PublishEvent_answered [OF assms(1,4)]) (use assms(2,3) in auto)
  then obtain m em w1 where run: "run P ?pub w = (Returns None, w1)"
    and em: "gl_UnmarshalMessage gl (km_Value m) = Inr em" "em_EventID em = ev_ID ev"
    and w1: "w_log w1 = w_log w @ [m]" "w_sent w1 = w_sent w" "w_db w1 = w_db w" "w_keys w1 = w_keys w"
    unfolding wp_iff by blast
  have found: "rows_with (w_db w) ''events'' ''id'' (ev_ID ev) \<noteq> []" using row(1) by auto
  show ?thesis
  proof (rule overwrittenI [OF _ _ w1(1,2)])
    show "\<exists>n. steps P n publisher w = (bind (EventRepo_UpdateStatus (ev_ID ev') EventStatusQueued) (\<lambda>e. Ret None), w1)"
      using steps_bind [of P ?pub "\<lambda>pe. next pe" w] run by (simp add: publisher(1,2) id)
    show "returned (bind (Ret e) (\<lambda>e. Ret None)) = Some None" for e :: "gerr option"
      by (simp add: returned_def)
    have "wp P (processMessage gl s m) (\<lambda>x w2. x = None \<and> delivered_to ev' (ep_URL (row_endpoint q)) w1 w2) w1"
      by (rule processMessage_delivers [OF em(1) _ _ row(2,3,4) _ ep(1) _ ep(3-6)])
        (use assms(4) em(2) row(1,5) ep(2) w1 in simp_all)
    then show "wp P (processMessage gl s m) (\<lambda>x w2. x = None \<and> w_log w2 = w_log w1
      \<and> w_sent w2 = w_sent w1 @ [webhook_post (ep_URL (row_endpoint q)) (ev_Payload ev') (webhook_headers ev')]
      \<and> status_is (w_db w2) (ev_ID ev') EventStatusDelivered) w1"
      by (rule wp_mono) (use found w1(3) in \<open>auto simp: delivered_to_def id intro: status_is_set\<close>)
    show "wp P (EventRepo_UpdateStatus (ev_ID ev') EventStatusQueued)
        (\<lambda>e w3. w_log w3 = w_log w2 \<and> w_sent w3 = w_sent w2 \<and> status_is (w_db w3) (ev_ID ev') EventStatusQueued) w2"
      if "status_is (w_db w2) (ev_ID ev') EventStatusDelivered" for w2
      by (rule status_queued_wp) (use that assms(4) id in \<open>simp_all add: status_is_def\<close>)
  qed
qed

end

text \<open>
  C38: a delivered event can be marked queued again. Whoever publishes an event, the request that
  has just stored it or the scheduler for its retry, sets the status only after the message is
  written. On services that answer, for every open event with an active endpoint that accepts it and
  that nothing else holds up, there is an interleaving of the publisher with the worker that takes
  the message: the worker delivers the event with one webhook, marks it delivered and returns
  without an error; then the publisher marks it queued and returns without an error. Nothing is
  sent or published after that, no query of the scheduler selects the event, and the step
  from delivered to queued is not one of the life cycle.
\<close>

theorem queued_overwrites_delivered:
  assumes "reliable_backend P rt ty pgnow" "db_ok ty (w_db w)"
    and "codec_ok gl ty" "payload_ok gl (ev_Payload ev)" "clock_ok P"
    and "events_of (w_db w) (ev_ID ev) = Some ev'" "\<not> resolved (ev_Status ev')" "undisturbed ev' (w_keys w)"
    and "q \<in> set (w_db w ''endpoints'')" "q ''id'' = VText (ev_EndpointID ev')" "ep_Active (row_endpoint q)"
    and "uuid_in ty (ev_EndpointID ev') = Some (ev_EndpointID ev')"
    and "gl_NewRequest gl (ep_URL (row_endpoint q)) = None" "accepting P"
  shows "overwritten P gl s ev' (ep_URL (row_endpoint q)) (bind (publish_new gl p ev) (\<lambda>_. Ret None)) w
    \<and> overwritten P gl s ev' (ep_URL (row_endpoint q)) (bind (republish gl sch ev) (\<lambda>_. Ret None)) w
    \<and> \<not> due now (put_status EventStatusQueued t r) \<and> \<not> phase_step (EventStatusDelivered, n) (EventStatusQueued, n)"
proof -
  obtain r where r: "r \<in> set (w_db w ''events'')" "r ''id'' = VText (ev_ID ev)" "ev' = row_event r"
    using assms(6) by (rule events_of_some)
  have "x = r" if "x \<in> set (w_db w ''events'')" "x ''id'' = VText (ev_ID ev)" for x
    by (rule keyed_unique [OF db_ok_keyed [OF assms(2)] that(1) r(1)]) (simp add: that(2) r(2))
  then have rs: "set (rows_with (w_db w) ''events'' ''id'' (ev_ID ev)) = {r}" unfolding rows_with_def set_filter using r by blast
  have "x = q" if "x \<in> set (w_db w ''endpoints'')" "x ''id'' = VText (ev_EndpointID ev')" for x
    by (rule endpoint_unique [OF db_ok_owners [OF assms(2)] that(1) assms(9)]) (simp add: that(2) assms(10))
  then have qs: "set (rows_with (w_db w) ''endpoints'' ''id'' (ev_EndpointID ev')) = {q}"
    unfolding rows_with_def set_filter using assms(9,10) by blast
  have ok: "event_row_ok r" "endpoint_row_ok q"
    using assms(2,9) r(1) by (simp_all add: db_ok_def tables_ok_def rows_typed_def list_all_iff)
  have uuid: "uuid_in ty (ev_ID ev) = Some (ev_ID ev)"
    using db_ok_keyed [OF assms(2)] r(1,2) by (auto simp: keyed_def)
  note overtaken = reliable_backend.publisher_overtaken
    [OF assms(1,3,4,5) uuid _ _ rs ok(1) r(3) assms(7,8,12) qs ok(2) assms(11,13,14)]
  have ret: "bind (case e of Some err \<Rightarrow> Ret (f err) | None \<Rightarrow> Ret b) (\<lambda>_. Ret None) = Ret None" for e :: "gerr option" and f b
    by (simp split: option.split)
  have "overwritten P gl s ev' (ep_URL (row_endpoint q)) (bind (publish_new gl p ev) (\<lambda>_. Ret None)) w"
    unfolding publish_new_def bind_assoc by (rule overtaken, rule refl) (simp add: bind_assoc ret)
  moreover have "overwritten P gl s ev' (ep_URL (row_endpoint q)) (bind (republish gl sch ev) (\<lambda>_. Ret None)) w"
    unfolding republish_def bind_assoc by (rule overtaken, rule refl) (simp add: bind_assoc)
  moreover have "\<not> phase_step (EventStatusDelivered, n) (EventStatusQueued, n)"
    using phase_step_open by fastforce
  ultimately show ?thesis by (simp add: queued_not_due put_status_def)
qed

theorem queued_overwrites_delivered_witness:
  "overwritten (sim (answering 200)) sim_lib dispatcher (row_event (event_row ''e'' EventStatusQueued 0 VNull)) ''https://x.io/hook''
    (bind (publish_new sim_lib events_producer (row_event (event_row ''e'' EventStatusQueued 0 VNull))) (\<lambda>_. Ret None)) queued_world"
proof -
  let ?ev = "row_event (event_row ''e'' EventStatusQueued 0 VNull)"
  have "overwritten (sim (answering 200)) sim_lib dispatcher ?ev (ep_URL (row_endpoint (endpoint_row ''p'' ''t'')))
    (bind (publish_new sim_lib events_producer ?ev) (\<lambda>_. Ret None)) queued_world"
    by (rule queued_overwrites_delivered [THEN conjunct1,
        OF calm_backend.reliable_backend_axioms [of "answering 200", simplified] queued_db_ok codec_ok_sim clock_ok_answering])
      (simp_all add: sim_lib_def events_of_def row_event_def row_endpoint_def undisturbed_def
        empty_world_def sample_defs)+
  then show ?thesis by (simp add: row_endpoint_def endpoint_row_def)
qed

subsection \<open>Met by an open breaker\<close>

context reliable_backend
begin

lemma same_keys: "(tick w)\<lparr>w_keys := w_keys w\<rparr> = tick w"
  by (simp add: tick_def)

lemma breaker_refuses_wp:
  assumes "cb_repr (w_keys w) eid b" "br_phase b = Open"
    and "since_failure (unix_seconds (pl_now P (w_tick w + 2))) (br_last b) \<le> cb_timeout c div 1000000000"
    and "Q (False, CBOpen, None) (tick (tick (tick w)))"
  shows "wp P (circuitBreakerService_Allow c eid) Q w"
proof -
  have "live (rt (w_tick w)) (w_keys w) (cb_stateKey eid) = Some (RStr CBOpen)"
    using cb_repr_state [OF assms(1)] assms(2) by fastforce
  then show ?thesis
    using assms(2-4) cb_repr_last [OF assms(1), of "rt (Suc (w_tick w))"]
    by (auto simp: circuitBreakerService_Allow_def CB_Allow_def cb_probe_def redis_Get_def redis_GetInt64_def wp_do
        cb_repr_parse [OF assms(1)] numeral_eq_Suc same_keys)
qed

lemma refused_part_wp:
  assumes "cb_repr (w_keys w) (ev_EndpointID ev) b" "br_phase b = Open"
    and "since_failure (unix_seconds (pl_now P (w_tick w + 2))) (br_last b) \<le> cb_timeout (ds_breaker s) div 1000000000"
    and "Q None (tick (tick (tick w)))"
  shows "wp P (locked_part gl s ev) Q w"
  unfolding locked_part_def by (subst wp_bind, rule breaker_refuses_wp [OF assms(1-3)]) (simp add: assms(4))

lemma lock_taken_soon_wp:
  assumes "live (rt (w_tick w)) (w_keys w) (lock_key rid) = None"
    and "\<And>val w'. keys_changed {lock_key rid} w w' \<Longrightarrow> w_tick w' = w_tick w + 2 \<Longrightarrow> Q (val, True) w'"
  shows "wp P (lock_Acquire rid ttl) Q w"
  using live_expired [OF assms(1) rt_mono, of "Suc (w_tick w)"]
  by (auto simp: lock_Acquire_def redis_SetNX_def wp_do keys_changed_def intro!: assms(2))

lemma message_refused_wp:
  assumes "gl_UnmarshalMessage gl (km_Value msg) = Inr em" "uuid_in ty (em_EventID em) = Some u"
    and "set (rows_with (w_db w) ''events'' ''id'' u) = {r}" "event_row_ok r" "ev = row_event r" "\<not> resolved (ev_Status ev)"
    and free: "live (rt (w_tick w)) (w_keys w) (event_lock (ev_ID ev)) = None"
    and breaker: "cb_repr (w_keys w) (ev_EndpointID ev) b" "br_phase b = Open"
      "since_failure (unix_seconds (pl_now P (w_tick w + 5))) (br_last b) \<le> cb_timeout (ds_breaker s) div 1000000000"
  shows "wp P (processMessage gl s msg) (\<lambda>x w'. x = None \<and> keys_changed {event_lock (ev_ID ev)} w w') w"
proof -
  let ?key = "event_lock (ev_ID ev)"
  have locked: "wp P (deferred (lock_Release (dispatch_lock (ev_ID ev)) val) (locked_part gl s ev))
      (\<lambda>x w'. x = None \<and> keys_changed {?key} w w') w1"
    if w1: "keys_changed {?key} w w1" "w_tick w1 = w_tick w + 3" for val w1
  proof -
    have "cb_repr (w_keys w1) (ev_EndpointID ev) b"
      using w1(1) breaker(1) by (simp add: cb_repr_def holds_str_def keys_changed_def)
    then have "wp P (locked_part gl s ev) (\<lambda>x w2. x = None \<and> keys_changed {?key} w w2) w1"
      by (rule refused_part_wp [OF _ breaker(2)]) (use breaker(3) w1 in \<open>auto simp: numeral_eq_Suc keys_changed_def\<close>)
    then have "wp P (locked_part gl s ev) (\<lambda>x w2. wp P (lock_Release (dispatch_lock (ev_ID ev)) val)
        (\<lambda>_ w'. x = None \<and> keys_changed {?key} w w') w2) w1"
      by (rule wp_mono) (auto intro!: lock_Release_wp simp: keys_changed_def)
    then show ?thesis by simp
  qed
  have later: "live (rt (Suc (w_tick w))) (w_keys w) ?key = None" by (rule live_expired [OF free rt_mono]) simp
  have "wp P (process_event gl s ev) (\<lambda>x w'. x = None \<and> keys_changed {?key} w w') (tick w)"
    unfolding process_event_def
  proof (subst if_not_P, goal_cases)
    case 1
    show ?case using assms(6) by (auto simp: resolved_def)
  next
    case 2
    show ?case
      unfolding wp_bind
    proof (rule lock_taken_soon_wp, goal_cases)
      case 1
      show ?case using later by simp
    next
      case (2 val w1)
      then have "keys_changed {?key} w w1" "w_tick w1 = w_tick w + 3" by (auto simp: keys_changed_def)
      from locked [OF this] show ?case by simp
    qed
  qed
  then show ?thesis
    unfolding processMessage_def assms(1) sum.case
    by (subst wp_bind, intro event_found_wp [OF assms(2,3,4)]) (simp add: assms(5))
qed

end

text \<open>
  C33: an event met while the breaker of its endpoint is open is lost. On services that answer, the
  round that fetches a message naming an event that is pending or queued and not locked, while the
  breaker of the endpoint is open and its timeout has not passed, commits the message without an
  attempt: nothing is sent, published or written to the database, so the event stays as it was, in a
  status that no query of the scheduler selects.
\<close>

theorem open_breaker_strands_event:
  assumes "reliable_backend P rt ty pgnow" "db_ok ty (w_db w)"
    and "pl_fetch P (w_tick w) = Inr msg" "\<And>n. pl_commit P n msg = None"
    and "gl_UnmarshalMessage gl (km_Value msg) = Inr em" "uuid_in ty (em_EventID em) = Some u"
    and "events_of (w_db w) u = Some ev" "ev_Status ev \<in> {EventStatusPending, EventStatusQueued}"
    and "live (rt (Suc (w_tick w))) (w_keys w) (event_lock u) = None"
    and "cb_repr (w_keys w) (ev_EndpointID ev) b" "br_phase b = Open"
    and "\<And>n. n \<le> w_tick w + 10 \<Longrightarrow> since_failure (unix_seconds (pl_now P n)) (br_last b) \<le> cb_timeout (ds_breaker s) div 1000000000"
  shows "wp P (dispatch_round gl s) (\<lambda>go w'. go \<and> w_committed w' = w_committed w @ [msg]
      \<and> w_sent w' = w_sent w \<and> w_log w' = w_log w \<and> w_db w' = w_db w) w
    \<and> list_all (\<lambda>r. \<not> due now r) (rows_with (w_db w) ''events'' ''id'' u)"
proof
  obtain r where r: "r \<in> set (w_db w ''events'')" "r ''id'' = VText u" "ev = row_event r"
    using assms(7) by (rule events_of_some)
  have "x = r" if "x \<in> set (w_db w ''events'')" "x ''id'' = VText u" for x
    by (rule keyed_unique [OF db_ok_keyed [OF assms(2)] that(1) r(1)]) (simp add: that(2) r(2))
  then have rs: "set (rows_with (w_db w) ''events'' ''id'' u) = {r}" unfolding rows_with_def set_filter using r by blast
  have ok: "event_row_ok r" using assms(2) r(1) by (simp add: db_ok_def tables_ok_def rows_typed_def list_all_iff)
  have id: "ev_ID ev = u" using r(2,3) by (simp add: row_event_def)
  have "wp P (processMessage gl s msg) (\<lambda>x w'. x = None \<and> keys_changed {event_lock (ev_ID ev)} (tick w) w') (tick w)"
    by (rule reliable_backend.message_refused_wp [OF assms(1,5,6) _ ok r(3) _ _ _ assms(11)])
      (use rs assms(8,9,10,12) id in \<open>auto simp: resolved_def status_defs\<close>)
  then have "wp P (processMessage gl s msg) (\<lambda>x w'. wp P (KafkaCommit msg (\<lambda>cerr. Ret True))
      (\<lambda>go w'. go \<and> w_committed w' = w_committed w @ [msg] \<and> w_sent w' = w_sent w \<and> w_log w' = w_log w \<and> w_db w' = w_db w) w') (tick w)"
    by (rule wp_mono) (use assms(4) in \<open>auto simp: wp_KafkaCommit keys_changed_def split: option.split\<close>)
  then show "wp P (dispatch_round gl s) (\<lambda>go w'. go \<and> w_committed w' = w_committed w @ [msg]
      \<and> w_sent w' = w_sent w \<and> w_log w' = w_log w \<and> w_db w' = w_db w) w"
    unfolding dispatch_round_def by (simp add: assms(3))
  have "r ''status'' \<noteq> VText EventStatusRetrying"
    using assms(8) r(3) by (auto simp: row_event_def status_defs)
  then have "\<not> due now r" by (simp add: due_def status_defs)
  then show "list_all (\<lambda>r. \<not> due now r) (rows_with (w_db w) ''events'' ''id'' u)" using rs by (simp add: list_all_iff)
qed

definition tripped_script :: script where
  "tripped_script = (answering 200)\<lparr>sc_fetch := \<lambda>n. Inr (event_msg ''e'')\<rparr>"

definition tripped_world :: world where
  "tripped_world = queued_world\<lparr>w_keys := [cb_stateKey ''p'' \<mapsto> (RStr CBOpen, None),
     cb_lastFailureKey ''p'' \<mapsto> (RStr (show_int 1699999990), None)]\<rparr>"

theorem open_breaker_strands_event_witness:
  "wp (sim tripped_script) (dispatch_round sim_lib dispatcher) (\<lambda>go w'. go \<and> w_committed w' = [event_msg ''e'']
      \<and> w_sent w' = [] \<and> w_db w' = w_db queued_world) tripped_world"
proof -
  have calm: "calm tripped_script = tripped_script" by (simp add: tripped_script_def calm_def answering_def quiet_def)
  have time: "sim_time tripped_script n = 1700000000000000000" for n
    by (induction n) (simp_all add: tripped_script_def answering_def quiet_def)
  have db: "db_ok sim_types (w_db tripped_world)" using queued_db_ok by (simp add: tripped_world_def)
  let ?b = "\<lparr>br_phase = Open, br_fails = 0, br_last = 1699999990\<rparr>"
  have b: "cb_repr (w_keys tripped_world) ''p'' ?b"
    by (simp add: cb_repr_def holds_str_def tripped_world_def int64_ok_def)
  have "wp (sim tripped_script) (dispatch_round sim_lib dispatcher) (\<lambda>go w'. go
      \<and> w_committed w' = w_committed tripped_world @ [event_msg ''e''] \<and> w_sent w' = w_sent tripped_world
      \<and> w_log w' = w_log tripped_world \<and> w_db w' = w_db tripped_world) tripped_world"
    by (rule open_breaker_strands_event [where em = "\<lparr>em_EventID = ''e'', em_TenantID = [], em_EndpointID = [], em_EventType = [], em_Payload = [],
          em_Signature = [], em_Timestamp = 0\<rparr>" and u = "''e''" and b = ?b
          and ev = "row_event (event_row ''e'' EventStatusQueued 0 VNull)",
        THEN conjunct1, OF calm_backend.reliable_backend_axioms [of tripped_script, unfolded calm] db])
      (use b time in \<open>simp_all add: tripped_script_def tripped_world_def sim_def sim_lib_def event_msg_def
        events_of_def row_event_def empty_world_def sample_defs live_def since_failure_exact int64_ok_def unix_seconds_def
        dispatch_lock_def lock_key_def cb_stateKey_def cb_lastFailureKey_def dispatcher_def NewDispatcherService_def
        NewCircuitBreakerRepo_def\<close>)
  then show ?thesis by (rule wp_mono) (simp add: tripped_world_def queued_world_def empty_world_def)
qed

subsection \<open>The last attempt\<close>

text \<open>What an \<^verbatim>\<open>INSERT\<close> leaves: the row, unless the database refuses it.\<close>

definition inserted :: "pgtypes \<Rightarrow> string \<Rightarrow> string list \<Rightarrow> sqlval list \<Rightarrow> database \<Rightarrow> database" where
  "inserted ty t cs vs db = (case insert_row ty t cs vs db of Inl code \<Rightarrow> db | Inr r \<Rightarrow> db(t := db t @ [r]))"

lemma inserted_other [simp]: "t' \<noteq> t \<Longrightarrow> inserted ty t cs vs db t' = db t'"
  by (simp add: inserted_def split: sum.split)

text \<open>The attempt that failed is recorded, the event goes to the dead letters and is marked failed.\<close>

definition given_up_after :: "pgtypes \<Rightarrow> event \<Rightarrow> DeliveryResult \<Rightarrow> database \<Rightarrow> database \<Rightarrow> bool" where
  "given_up_after ty ev res db db' \<longleftrightarrow> (\<exists>a did now t. da_EventID a = ev_ID ev \<and> da_EndpointID a = ev_EndpointID ev
     \<and> da_AttemptNumber a = ev_AttemptCount ev + 1 \<and> da_StatusCode a = dr_StatusCode res
     \<and> da_ErrorMessage a = errorMessage (dr_Error res)
     \<and> db' = set_rows ''events'' (ev_ID ev) (put_status EventStatusFailed t)
         (inserted ty ''dead_letter_events'' deadLetterColumns
           (dead_letter_params (dead_letter ev (failureMessage res) (dr_StatusCode res) did now))
           (inserted ty ''delivery_attempts'' attemptColumns (attempt_params a) db)))"

lemma given_up_count:
  assumes "given_up_after ty ev res db db'" "d \<in> set (drop (length (db ''dead_letter_events'')) (db' ''dead_letter_events''))"
  shows "d ''total_attempts'' = VInt (ev_AttemptCount ev)"
proof -
  obtain a did now t where "db' = set_rows ''events'' (ev_ID ev) (put_status EventStatusFailed t)
      (inserted ty ''dead_letter_events'' deadLetterColumns
        (dead_letter_params (dead_letter ev (failureMessage res) (dr_StatusCode res) did now))
        (inserted ty ''delivery_attempts'' attemptColumns (attempt_params a) db))"
    using assms(1) unfolding given_up_after_def by blast
  then have "dead_letter_row ty (dead_letter ev (failureMessage res) (dr_StatusCode res) did now) d"
    using assms(2) by (auto simp: set_rows_def inserted_def split: sum.splits dest: insert_dead_letter_row)
  then show ?thesis by (simp add: dead_letter_row_def dead_letter_def)
qed

context reliable_backend
begin

lemma insert_answered_wp:
  assumes "\<And>r. wp P (k r) Q (tick (w\<lparr>w_db := inserted ty t cs vs (w_db w)\<rparr>))"
  shows "wp P (PgExec (Insert t cs vs) k) Q w"
proof -
  have "\<not> (\<exists>e. infra e \<and> fst (pl_exec P (w_tick w) (Insert t cs vs) (w_db w)) = Inl e)" using exec_answered by blast
  then have "snd (pl_exec P (w_tick w) (Insert t cs vs) (w_db w)) = inserted ty t cs vs (w_db w)"
    using exec_law [of "w_tick w" "Insert t cs vs" "w_db w"]
    by (auto simp: exec_obeys_def inserted_def insert_row_def split: sum.splits if_splits prod.splits)
  then show ?thesis using assms by (simp add: wp_PgExec case_prod_beta)
qed

lemma rejected_wp:
  assumes "\<And>rq k. \<not> accepts P rq k"
    and "\<And>res w'. \<not> successful res \<Longrightarrow> w_db w' = w_db w \<Longrightarrow> w_log w' = w_log w \<Longrightarrow> Q res w'"
  shows "wp P (Deliver gl url payload headers) Q w"
proof -
  have "\<not> (200 \<le> rs_StatusCode rs \<and> rs_StatusCode rs < 300)" if "pl_http P k rq = Inr rs" for k rq rs
    using assms(1) [of rq k] that by (simp add: accepts_def)
  then show ?thesis
    unfolding Deliver_def
    by (auto split: sum.split option.split intro!: assms(2) simp: successful_def failed_delivery_def)
qed

lemma given_up_exactly:
  assumes "uuid_in ty (ev_ID ev) = Some (ev_ID ev)" "rows_with (w_db w) ''events'' ''id'' (ev_ID ev) \<noteq> []"
    and "\<And>w' did now t. w_log w' = w_log w \<Longrightarrow> w_db w' = set_rows ''events'' (ev_ID ev) (put_status EventStatusFailed t)
      (inserted ty ''dead_letter_events'' deadLetterColumns (dead_letter_params (dead_letter ev reason code did now)) (w_db w)) \<Longrightarrow> Q () w'"
  shows "wp P (handleDeadLetter ev reason code) Q w"
  unfolding handleDeadLetter_def DeadLetterEventRepo_Create_def wp_NewUUID wp_Now wp_bind
proof (rule insert_answered_wp, unfold wp_Ret, rule status_set_wp [OF _ assms(1)])
qed (use assms(2,3) in \<open>simp_all add: rows_with_def\<close>)

lemma last_attempt_wp:
  assumes "uuid_in ty (ev_ID ev) = Some (ev_ID ev)" "rows_with (w_db w) ''events'' ''id'' (ev_ID ev) \<noteq> []"
    and "ev_AttemptCount ev + 1 = ev_MaxAttempts ev" "\<And>rq k. \<not> accepts P rq k"
  shows "wp P (deliver_event gl s ev ep) (\<lambda>x w'. x = None \<and> w_log w' = w_log w
    \<and> (\<exists>res. \<not> successful res \<and> given_up_after ty ev res (w_db w) (w_db w'))) w"
    (is "wp P _ ?Q w")
  unfolding deliver_event_def wp_bind
proof (rule rejected_wp [OF assms(4)])
  fix res and w1 :: world assume res: "\<not> successful res" and w1: "w_db w1 = w_db w" "w_log w1 = w_log w"
  have failure: "wp P (handleFailure ev res) (\<lambda>_. ?Q None) w3"
    if "da_EventID a = ev_ID ev" "da_EndpointID a = ev_EndpointID ev" "da_AttemptNumber a = ev_AttemptCount ev + 1"
      "da_StatusCode a = dr_StatusCode res" "da_ErrorMessage a = errorMessage (dr_Error res)"
      "w_db w3 = inserted ty ''delivery_attempts'' attemptColumns (attempt_params a) (w_db w)" "w_log w3 = w_log w" for a w3
  proof -
    have "rows_with (w_db w3) ''events'' ''id'' (ev_ID ev) \<noteq> []" using assms(2) that(6) by (simp add: rows_with_def)
    then have "wp P (handleDeadLetter ev (failureMessage res) (dr_StatusCode res)) (\<lambda>_. ?Q None) w3"
      by (rule given_up_exactly [OF assms(1)]) (use that res in \<open>fastforce simp: given_up_after_def\<close>)
    then show ?thesis using assms(3) by (simp add: handleFailure_def Let_def)
  qed
  show "wp P (recordAttempt gl ev res) (\<lambda>_. wp P (if successful res then
      bind (circuitBreakerService_RecordSuccess (ds_breaker s) (ev_EndpointID ev)) (\<lambda>_.
        bind (EventRepo_UpdateStatus (ev_ID ev) EventStatusDelivered) (\<lambda>err. Ret None))
      else bind (circuitBreakerService_RecordFailure (ds_breaker s) (ev_EndpointID ev)) (\<lambda>_.
        bind (handleFailure ev res) (\<lambda>_. Ret None))) ?Q) w1"
    unfolding recordAttempt_def DeliveryAttemptRepo_Create_def Let_def wp_NewUUID wp_Now wp_bind if_not_P [OF res]
    by (rule insert_answered_wp, unfold wp_Ret, rule CB_RecordFailure_frame, rule failure)
      (use w1 in \<open>auto simp: keys_changed_def\<close>)
qed

end

text \<open>
  C34: the last failed delivery gives the event up, and its dead letter counts one attempt too few.
  On services that answer, when the endpoint accepts nothing (or the request cannot be made) and the
  attempt is the last one the event has, the delivery of any event, by any worker, ends with no
  error and publishes nothing; the attempt is recorded under the number of attempts made, every row of the event
  is marked failed, and the dead letter gives the event, its payload and the reason, as far as the
  database takes the two rows. But the dead letter counts the attempts before this one:
  one less than the maximum.
\<close>

theorem last_attempt_gives_up:
  assumes "reliable_backend P rt ty pgnow" "uuid_in ty (ev_ID ev) = Some (ev_ID ev)"
    and "rows_with (w_db w) ''events'' ''id'' (ev_ID ev) \<noteq> []"
    and "ev_AttemptCount ev + 1 = ev_MaxAttempts ev" "\<And>rq k. \<not> accepts P rq k"
  shows "wp P (deliver_event gl s ev ep) (\<lambda>x w'. x = None \<and> w_log w' = w_log w
    \<and> status_is (w_db w') (ev_ID ev) EventStatusFailed
    \<and> (\<exists>res. \<not> successful res \<and> given_up_after ty ev res (w_db w) (w_db w'))
    \<and> list_all (\<lambda>d. d ''total_attempts'' = VInt (ev_MaxAttempts ev - 1))
        (drop (length (w_db w ''dead_letter_events'')) (w_db w' ''dead_letter_events''))) w"
proof (rule wp_mono [OF reliable_backend.last_attempt_wp [OF assms]], elim conjE exE)
  fix x :: "gerr option" and w' res assume *: "x = None" "w_log w' = w_log w" "\<not> successful res"
    and up: "given_up_after ty ev res (w_db w) (w_db w')"
  obtain t db1 where "w_db w' = set_rows ''events'' (ev_ID ev) (put_status EventStatusFailed t) db1"
    "db1 ''events'' = w_db w ''events''" using up unfolding given_up_after_def by fastforce
  then have "status_is (w_db w') (ev_ID ev) EventStatusFailed"
    using reliable_backend.status_is_set [OF assms(1), of db1 "ev_ID ev" "w_db w'"] assms(3) by (simp add: rows_with_def)
  moreover have "list_all (\<lambda>d. d ''total_attempts'' = VInt (ev_MaxAttempts ev - 1))
      (drop (length (w_db w ''dead_letter_events'')) (w_db w' ''dead_letter_events''))"
    unfolding assms(4) [symmetric] using given_up_count [OF up] by (simp add: list_all_iff)
  ultimately show "x = None \<and> w_log w' = w_log w \<and> status_is (w_db w') (ev_ID ev) EventStatusFailed
    \<and> (\<exists>res. \<not> successful res \<and> given_up_after ty ev res (w_db w) (w_db w'))
    \<and> list_all (\<lambda>d. d ''total_attempts'' = VInt (ev_MaxAttempts ev - 1))
        (drop (length (w_db w ''dead_letter_events'')) (w_db w' ''dead_letter_events''))" using * up by blast
qed

definition tired_world :: world where
  "tired_world = empty_world\<lparr>w_db := event_db [event_row ''e'' EventStatusQueued 4 VNull]\<rparr>"

theorem last_attempt_gives_up_witness:
  "wp (sim (answering 500)) (deliver_event sim_lib dispatcher (row_event (event_row ''e'' EventStatusQueued 4 VNull))
      (row_endpoint (endpoint_row ''p'' ''t''))) (\<lambda>x w'. x = None \<and> status_is (w_db w') ''e'' EventStatusFailed
    \<and> list_all (\<lambda>d. d ''total_attempts'' = VInt 4) (w_db w' ''dead_letter_events'')) tired_world"
proof (rule wp_mono [OF last_attempt_gives_up [OF calm_backend.reliable_backend_axioms [of "answering 500", simplified]]])
  show "\<not> accepts (sim (answering 500)) rq k" for rq k by (simp add: accepts_def sim_def)
qed (simp_all add: tired_world_def rows_with_def row_event_def sim_types_def sample_defs)

subsection \<open>Never published\<close>

text \<open>
  When the message of a new event cannot be written, the event is reported as accepted and its
  row stays pending; no query of the scheduler selects it.
\<close>

lemma unpublished_event_stays_pending:
  assumes "\<And>n m l. \<exists>e. pl_write P n m l = (Some e, l)"
  shows "wp P (publish_new gl p ev) (\<lambda>r w'. r = Inr ev \<and> w_db w' = w_db w \<and> w_log w' = w_log w) w"
    "\<not> due now (event_row u EventStatusPending 0 next_at)"
proof -
  have lost: "wp P (KafkaWrite m k) Q w1" if "\<And>e. wp P (k (Some e)) Q (tick w1)" for m Q w1 and k :: "gerr option \<Rightarrow> 'a prog"
    using assms [of "w_tick w1" m "w_log w1"] that by (auto simp: wp_KafkaWrite)
  show "wp P (publish_new gl p ev) (\<lambda>r w'. r = Inr ev \<and> w_db w' = w_db w \<and> w_log w' = w_log w) w"
    unfolding publish_new_def PublishEvent_def by (auto intro!: lost split: sum.split)
  show "\<not> due now (event_row u EventStatusPending 0 next_at)"
    by (simp add: due_def event_row_def status_defs)
qed

end
