(* ===== verification/Rely_Guarantee.thy ===== *)
theory Rely_Guarantee
  imports Interleaving Ownership
begin

text \<open>
  Programs that run at the same time, request by request, on the one shared world: rely-guarantee
  reasoning with an auxiliary variable. The invariant relates the world to a record of facts that
  stay true once they are true (a finite map that only grows); a program relies on the others to
  keep the invariant and to forget no fact, and guarantees the same of each of its requests.
  What a program has learnt from the world is a fact it may use later, whatever happened since.
\<close>

subsection \<open>Programs among others\<close>

definition ongoing :: "'a prog \<Rightarrow> bool" where
  "ongoing m \<longleftrightarrow> (\<forall>a. m \<noteq> Ret a) \<and> (\<forall>s. m \<noteq> Panic s)"

text \<open>
  \<open>anytime P J R g m\<close>: with the facts \<open>g\<close> recorded, \<open>m\<close> can go on at any time at which the
  invariant \<open>J\<close> holds of the facts recorded until then; it never panics, and what it
  returns satisfies \<open>R\<close>.
\<close>

inductive anytime :: "platform \<Rightarrow> (('k \<rightharpoonup> 'v) \<Rightarrow> world \<Rightarrow> bool) \<Rightarrow> (('k \<rightharpoonup> 'v) \<Rightarrow> 'a \<Rightarrow> bool) \<Rightarrow>
    ('k \<rightharpoonup> 'v) \<Rightarrow> 'a prog \<Rightarrow> bool" for P J R where
  anytime_Ret: "(\<And>g'. g \<subseteq>\<^sub>m g' \<Longrightarrow> R g' a) \<Longrightarrow> anytime P J R g (Ret a)"
| anytime_Step: "ongoing m \<Longrightarrow>
     (\<And>h w. g \<subseteq>\<^sub>m h \<Longrightarrow> J h w \<Longrightarrow>
        \<exists>h'. h \<subseteq>\<^sub>m h' \<and> J h' (snd (step P m w)) \<and> anytime P J R h' (fst (step P m w))) \<Longrightarrow>
     anytime P J R g m"

lemma anytime_weaken: "anytime P J R g m \<Longrightarrow> g \<subseteq>\<^sub>m h \<Longrightarrow> anytime P J R h m"
  by (erule anytime.cases) (auto intro!: anytime.intros dest: map_le_trans)

lemma anytime_next:
  assumes "anytime P J R g m" "g \<subseteq>\<^sub>m h" "J h w"
  shows "\<exists>h'. h \<subseteq>\<^sub>m h' \<and> J h' (snd (step P m w)) \<and> anytime P J R h' (fst (step P m w))"
  using assms(1)
proof cases
  case (anytime_Ret a)
  then have "anytime P J R h m" using anytime_weaken [OF assms(1,2)] by simp
  then show ?thesis using anytime_Ret assms(3) by (intro exI [of _ h]) simp
next
  case anytime_Step
  then show ?thesis using assms(2,3) by blast
qed

lemma step_bind: "ongoing m \<Longrightarrow> step P (bind m f) w = (bind (fst (step P m w)) f, snd (step P m w))"
  by (cases m) (auto simp: ongoing_def split: prod.splits)

lemma ongoing_bind: "ongoing m \<Longrightarrow> ongoing (bind m f)"
  by (cases m) (auto simp: ongoing_def)

text \<open>The rest of a program may use what the call before it has learnt.\<close>

lemma anytime_bind:
  assumes "anytime P J R g m" "\<And>h a. g \<subseteq>\<^sub>m h \<Longrightarrow> R h a \<Longrightarrow> anytime P J R' h (f a)"
  shows "anytime P J R' g (bind m f)"
  using assms
proof induction
  case (anytime_Ret g a)
  then show ?case by simp
next
  case (anytime_Step m g)
  show ?case
  proof (rule anytime.anytime_Step)
    show "ongoing (bind m f)" using anytime_Step.hyps(1) by (rule ongoing_bind)
    fix h and w :: world assume h: "g \<subseteq>\<^sub>m h" "J h w"
    then obtain h' where h': "h \<subseteq>\<^sub>m h'" "J h' (snd (step P m w))"
      "(\<And>k a. h' \<subseteq>\<^sub>m k \<Longrightarrow> R k a \<Longrightarrow> anytime P J R' k (f a)) \<Longrightarrow> anytime P J R' h' (bind (fst (step P m w)) f)"
      using anytime_Step.IH by blast
    have "anytime P J R' h' (bind (fst (step P m w)) f)"
      by (rule h'(3)) (use h(1) h'(1) anytime_Step.prems in \<open>blast intro: map_le_trans\<close>)
    with h' show "\<exists>h'. h \<subseteq>\<^sub>m h' \<and> J h' (snd (step P (bind m f) w)) \<and> anytime P J R' h' (fst (step P (bind m f) w))"
      by (auto simp: step_bind anytime_Step.hyps(1))
  qed
qed

lemma anytime_value:
  assumes "anytime P J (\<lambda>_. R) g m" "\<And>a. R a \<Longrightarrow> anytime P J R' g (f a)"
  shows "anytime P J R' g (bind m f)"
  by (rule anytime_bind [OF assms(1)]) (rule anytime_weaken [OF assms(2)])

lemma anytime_then:
  "anytime P J (\<lambda>_ _. True) g m \<Longrightarrow> (\<And>a. anytime P J R g (f a)) \<Longrightarrow> anytime P J R g (bind m f)"
  by (rule anytime_value)

lemma step_deferred: "ongoing m \<Longrightarrow> step P (deferred d m) w = (deferred d (fst (step P m w)), snd (step P m w))"
  by (cases m) (auto simp: ongoing_def split: prod.splits)

lemma ongoing_deferred: "ongoing m \<Longrightarrow> ongoing (deferred d m)"
  by (cases m) (auto simp: ongoing_def)

lemma anytime_deferred:
  assumes "anytime P J R g m" "anytime P J (\<lambda>_ _. True) g d"
  shows "anytime P J R g (deferred d m)"
  using assms
proof induction
  case (anytime_Ret g a)
  then show ?case by (auto intro: anytime_then anytime.anytime_Ret)
next
  case (anytime_Step m g)
  show ?case
  proof (rule anytime.anytime_Step)
    show "ongoing (deferred d m)" using anytime_Step.hyps(1) by (rule ongoing_deferred)
    fix h and w :: world assume h: "g \<subseteq>\<^sub>m h" "J h w"
    then obtain h' where h': "h \<subseteq>\<^sub>m h'" "J h' (snd (step P m w))"
      "anytime P J (\<lambda>_ _. True) h' d \<Longrightarrow> anytime P J R h' (deferred d (fst (step P m w)))"
      using anytime_Step.IH by blast
    moreover have "anytime P J (\<lambda>_ _. True) h' d"
      by (rule anytime_weaken [OF anytime_Step.prems map_le_trans [OF h(1) h'(1)]])
    ultimately show "\<exists>h'. h \<subseteq>\<^sub>m h' \<and> J h' (snd (step P (deferred d m) w)) \<and> anytime P J R h' (fst (step P (deferred d m) w))"
      by (auto simp: step_deferred anytime_Step.hyps(1))
  qed
qed

text \<open>Left alone, such a program runs to its end.\<close>

lemma anytime_runs:
  assumes "anytime P J R g m" "J g w"
  shows "wp P m (\<lambda>a w'. \<exists>h. g \<subseteq>\<^sub>m h \<and> R h a \<and> J h w') w"
  using assms
proof (induction arbitrary: w)
  case (anytime_Ret g a)
  then show ?case by (auto intro!: exI [of _ g])
next
  case (anytime_Step m g)
  obtain h where h: "g \<subseteq>\<^sub>m h" "wp P (fst (step P m w)) (\<lambda>a w'. \<exists>k. h \<subseteq>\<^sub>m k \<and> R k a \<and> J k w') (snd (step P m w))"
    using anytime_Step.IH [OF map_le_refl anytime_Step.prems] by blast
  have "wp P m Q w = wp P (fst (step P m w)) Q (snd (step P m w))" for Q
    by (simp add: wp_def run_step [of P m w])
  moreover have "wp P (fst (step P m w)) (\<lambda>a w'. \<exists>k. g \<subseteq>\<^sub>m k \<and> R k a \<and> J k w') (snd (step P m w))"
    by (rule wp_mono [OF h(2)]) (use h(1) in \<open>blast intro: map_le_trans\<close>)
  ultimately show ?case by simp
qed

lemma anytime_for_each:
  "(\<And>x. anytime P J (\<lambda>_ _. True) g (f x)) \<Longrightarrow> anytime P J (\<lambda>_ _. True) g (for_each xs f)"
  by (induction xs) (auto intro: anytime_Ret anytime_then)

subsection \<open>Requests that leave the tables alone\<close>

text \<open>An invariant about the tables, and about requests that are still to come.\<close>

definition framed :: "(('k \<rightharpoonup> 'v) \<Rightarrow> world \<Rightarrow> bool) \<Rightarrow> bool" where
  "framed J \<longleftrightarrow> (\<forall>g w w'. J g w \<longrightarrow> w_db w' = w_db w \<longrightarrow> w_tick w \<le> w_tick w' \<longrightarrow> J g w')"

lemma framedD: "framed J \<Longrightarrow> J g w \<Longrightarrow> w_db w' = w_db w \<Longrightarrow> w_tick w \<le> w_tick w' \<Longrightarrow> J g w'"
  by (auto simp: framed_def)

text \<open>A program without a statement that changes tables and without a panic needs nothing.\<close>

primrec harmless :: "'a prog \<Rightarrow> bool" where
  "harmless (Ret a) = True"
| "harmless (Panic s) = False"
| "harmless (Now k) = (\<forall>x. harmless (k x))"
| "harmless (NewUUID k) = (\<forall>x. harmless (k x))"
| "harmless (RandRead n k) = (\<forall>x. harmless (k x))"
| "harmless (Int63n n k) = (\<forall>x. harmless (k x))"
| "harmless (RedisDo c k) = (\<forall>x. harmless (k x))"
| "harmless (RedisPipe cs k) = (\<forall>x. harmless (k x))"
| "harmless (PgExec s k) = False"
| "harmless (PgQuery q k) = (\<forall>x. harmless (k x))"
| "harmless (KafkaWrite m k) = (\<forall>x. harmless (k x))"
| "harmless (KafkaFetch k) = (\<forall>x. harmless (k x))"
| "harmless (KafkaCommit m k) = (\<forall>x. harmless (k x))"
| "harmless (Cancelled k) = (\<forall>x. harmless (k x))"
| "harmless (HttpDo r k) = (\<forall>x. harmless (k x))"

lemma harmless_bind: "harmless m \<Longrightarrow> (\<And>a. harmless (f a)) \<Longrightarrow> harmless (bind m f)"
  by (induction m) auto

lemma harmless_pg_only: "pg_only False m \<Longrightarrow> harmless m"
  by (induction m) auto

lemma anytime_framed:
  assumes "framed J" "ongoing m"
    and "\<And>w. w_db (snd (step P m w)) = w_db w \<and> w_tick w \<le> w_tick (snd (step P m w))
      \<and> anytime P J R g (fst (step P m w))"
  shows "anytime P J R g m"
proof (rule anytime_Step [OF assms(2)])
  fix h and w :: world assume h: "g \<subseteq>\<^sub>m h" "J h w"
  have "anytime P J R h (fst (step P m w))" using assms(3) h(1) by (blast intro: anytime_weaken)
  moreover have "J h (snd (step P m w))" by (rule framedD [OF assms(1) h(2)]) (use assms(3) in blast)+
  ultimately show "\<exists>h'. h \<subseteq>\<^sub>m h' \<and> J h' (snd (step P m w)) \<and> anytime P J R h' (fst (step P m w))"
    by (intro exI [of _ h]) simp
qed

lemma harmless_anytime: "framed J \<Longrightarrow> harmless m \<Longrightarrow> anytime P J (\<lambda>_ _. True) g m"
proof (induction m)
  case (Ret a)
  show ?case by (rule anytime_Ret) simp
qed (rule anytime_framed; simp add: ongoing_def ans_redis_def ans_pipe_def ans_write_def ans_commit_def ans_http_def
    split: prod.split option.split)+

lemma anytime_clock:
  "framed J \<Longrightarrow> (\<And>t. anytime P J R g (now t)) \<Longrightarrow> anytime P J R g (Now now)"
  "framed J \<Longrightarrow> (\<And>u. anytime P J R g (uuid u)) \<Longrightarrow> anytime P J R g (NewUUID uuid)"
  by (rule anytime_framed; simp add: ongoing_def)+

lemma anytime_requests:
  "framed J \<Longrightarrow> (\<And>x. anytime P J R g (got x)) \<Longrightarrow> anytime P J R g (KafkaFetch got)"
  "framed J \<Longrightarrow> (\<And>x. anytime P J R g (done_with x)) \<Longrightarrow> anytime P J R g (KafkaCommit m done_with)"
  "framed J \<Longrightarrow> (\<And>x. anytime P J R g (asked x)) \<Longrightarrow> anytime P J R g (Cancelled asked)"
  by (rule anytime_framed; simp add: ongoing_def ans_commit_def split: option.split)+

subsection \<open>Calls of one request\<close>

text \<open>A call of one request has the contract that it has when it runs alone.\<close>

definition one_request :: "'a prog \<Rightarrow> bool" where
  "one_request m \<longleftrightarrow> ongoing m \<and> (\<forall>P w. \<exists>a. fst (step P m w) = Ret a)"

lemma one_request_intros [intro]:
  "one_request (PgExec s (\<lambda>r. Ret (f r)))" "one_request (PgQuery q (\<lambda>r. Ret (g r)))"
  by (auto simp: one_request_def ongoing_def ans_exec_def split: prod.split)

lemma anytime_call:
  assumes "one_request m"
    and "\<And>h w. g \<subseteq>\<^sub>m h \<Longrightarrow> J h w \<Longrightarrow> wp P m (\<lambda>a w'. J h w' \<and> (\<forall>k. h \<subseteq>\<^sub>m k \<longrightarrow> R k a)) w"
  shows "anytime P J R g m"
proof (rule anytime_Step)
  show "ongoing m" using assms(1) by (simp add: one_request_def)
  fix h and w :: world assume h: "g \<subseteq>\<^sub>m h" "J h w"
  obtain a where a: "fst (step P m w) = Ret a" using assms(1) by (auto simp: one_request_def)
  have "run P m w = (Returns a, snd (step P m w))"
    by (subst run_step) (simp add: a)
  with assms(2) [OF h] a
  show "\<exists>h'. h \<subseteq>\<^sub>m h' \<and> J h' (snd (step P m w)) \<and> anytime P J R h' (fst (step P m w))"
    by (intro exI [of _ h]) (auto simp: wp_def intro: anytime_Ret)
qed

subsection \<open>Any number of them\<close>

lemma reachable_anytime:
  assumes "reachable key P (ps, w) c" "J g w" "\<And>p. p \<in> set ps \<Longrightarrow> anytime P J R g (wk_prog p)"
  shows "\<exists>h. g \<subseteq>\<^sub>m h \<and> J h (snd c) \<and> (\<forall>q \<in> set (fst c). anytime P J R h (wk_prog q))"
  using assms(1)
proof induction
  case reach_start
  then show ?case using assms(2,3) by (intro exI [of _ g]) auto
next
  case (reach_step qs u i q u')
  then obtain h where h: "J h u" "g \<subseteq>\<^sub>m h" "\<forall>q \<in> set qs. anytime P J R h (wk_prog q)" by auto
  with reach_step.hyps(2) have "anytime P J R h (wk_prog (qs ! i))" by simp
  from anytime_next [OF this map_le_refl h(1)] obtain h' where
    h': "h \<subseteq>\<^sub>m h'" "J h' u'" "anytime P J R h' (wk_prog q)"
    using reach_step.hyps(3) by (auto simp: worker_step_def split: prod.splits)
  have "anytime P J R h' (wk_prog r)" if "r \<in> set (qs[i := q])" for r
    using that h(3) h'(1,3) set_update_subset_insert [of qs i q] by (auto intro: anytime_weaken)
  with h'(2) map_le_trans [OF h(2) h'(1)] show ?case by auto
qed

end
