(* ===== verification/Concurrent.thy ===== *)
theory Concurrent
  imports System Rely_Guarantee
begin

text \<open>
  Requests, messages and batches that run at the same time, request by request, on the one
  shared world. All tasks of the platform are programs that keep the invariant of the tables
  whatever the others do in between (\<open>anytime\<close> of theory \<open>Rely_Guarantee\<close>), and none of them
  can panic. The ownership of events is kept as well when generated identifiers are never
  generated twice: the auxiliary variable records to which tenant an identifier of an endpoint
  was given, also after the endpoint is gone, so that a check of the owner made long ago is still
  worth something when the event is stored.
\<close>

subsection \<open>The invariant of the shared tables\<close>

type_synonym owners = "string \<rightharpoonup> string"

text \<open>The endpoints that exist have the owners that are recorded.\<close>

definition conforms :: "owners \<Rightarrow> database \<Rightarrow> bool" where
  "conforms g db \<longleftrightarrow> (\<forall>r \<in> set (db ''endpoints''). \<forall>u t.
     r ''id'' = VText u \<longrightarrow> r ''tenant_id'' = VText t \<longrightarrow> g u = Some t)"

definition owned :: "pgtypes \<Rightarrow> owners \<Rightarrow> database \<Rightarrow> bool" where
  "owned ty g db \<longleftrightarrow> owners_ok ty db \<and> conforms g db"

text \<open>The identifiers that are generated from a tick on are new.\<close>

definition unused :: "platform \<Rightarrow> owners \<Rightarrow> nat \<Rightarrow> bool" where
  "unused P g n \<longleftrightarrow> inj (pl_uuid P) \<and> (\<forall>m \<ge> n. pl_uuid P m \<notin> dom g)"

text \<open>
  The tables keep their invariant, and when \<open>F\<close> is set, which asks for fresh identifiers, the
  owners keep theirs.
\<close>

definition shared :: "platform \<Rightarrow> pgtypes \<Rightarrow> bool \<Rightarrow> owners \<Rightarrow> world \<Rightarrow> bool" where
  "shared P ty F g w \<longleftrightarrow> tables_ok ty (w_db w) \<and> (F \<longrightarrow> owned ty g (w_db w) \<and> unused P g (w_tick w))"

text \<open>What a thread knows of an endpoint, whether or not it still exists: whose it is.\<close>

definition belongs :: "pgtypes \<Rightarrow> bool \<Rightarrow> owners \<Rightarrow> string \<Rightarrow> string \<Rightarrow> bool" where
  "belongs ty F g eid tid \<longleftrightarrow>
     (F \<longrightarrow> (\<forall>u t. uuid_in ty eid = Some u \<longrightarrow> uuid_in ty tid = Some t \<longrightarrow> g u = Some t))"

abbreviation safe :: "platform \<Rightarrow> pgtypes \<Rightarrow> bool \<Rightarrow> owners \<Rightarrow> 'a prog \<Rightarrow> bool" where
  "safe P ty F g m \<equiv> anytime P (shared P ty F) (\<lambda>_ _. True) g m"

lemma known_later: "g \<subseteq>\<^sub>m h \<Longrightarrow> g u = Some t \<Longrightarrow> h u = Some t"
  by (auto simp: map_le_def dom_def)

lemma belongs_later: "belongs ty F g eid tid \<Longrightarrow> g \<subseteq>\<^sub>m h \<Longrightarrow> belongs ty F h eid tid"
  using known_later by (fastforce simp: belongs_def)

lemma conforms_later: "conforms g db \<Longrightarrow> g \<subseteq>\<^sub>m h \<Longrightarrow> conforms h db"
  using known_later by (fastforce simp: conforms_def)

lemma shared_tables: "shared P ty F g w \<Longrightarrow> tables_ok ty (w_db w)"
  by (simp add: shared_def)

lemma framed_shared [simp]: "framed (shared P ty F)"
  by (auto simp: framed_def shared_def unused_def)

lemma harmless_safe [simp]: "harmless m \<Longrightarrow> safe P ty F g m"
  by (simp add: harmless_anytime)

lemma shared_write:
  assumes "shared P ty F g w" "tables_ok ty db" "owned ty g (w_db w) \<Longrightarrow> owned ty g db"
  shows "shared P ty F g (tick (w\<lparr>w_db := db\<rparr>))"
  using assms by (auto simp: shared_def unused_def)

lemma shared_tick [simp]: "shared P ty F g w \<Longrightarrow> shared P ty F g (tick w)"
  by (erule framedD [OF framed_shared]) simp_all

lemma tables_ok_attempts [simp]:
  "tables_ok ty (db(''delivery_attempts'' := x)) = tables_ok ty db"
  "tables_ok ty (db(''dead_letter_events'' := x)) = tables_ok ty db"
  by (simp_all add: tables_ok_def tenants_ok_def keys_ok_def attempts_ok_def rows_typed_def)

lemma owned_others [simp]:
  "owned ty g (db(''delivery_attempts'' := x)) = owned ty g db"
  "owned ty g (db(''dead_letter_events'' := x)) = owned ty g db"
  "owned ty g (db(''tenants'' := x)) = owned ty g db" "owned ty g (set_rows ''tenants'' u f db) = owned ty g db"
  by (simp_all add: owned_def owners_ok_def conforms_def set_rows_def)

lemma owned_mark_event:
  assumes "owned ty g db" "keeps_ids f"
  shows "owned ty g (set_rows ''events'' u f db)"
  using assms owners_update_event [of ty db f u] by (simp add: owned_def keeps_ids_def conforms_def set_rows_def)

lemma keeps_ids_marks [simp]: "keeps_ids (put_status st now)" "keeps_ids (put_retry st n at now)"
  by (simp_all add: keeps_ids_def put_status_def put_retry_def)

lemma owned_update_endpoint: "owned ty g db \<Longrightarrow> owned ty g (set_rows ''endpoints'' u (put_endpoint ep) db)"
  using owners_update_endpoint [of ty db u ep]
  by (auto simp: owned_def conforms_def set_rows_def update_rows_def put_endpoint_def)

lemma owned_delete_endpoint: "owned ty g db \<Longrightarrow> owned ty g (delete_endpoint u db)"
  using owners_delete_endpoint [of ty db u] by (auto simp: owned_def conforms_def delete_endpoint_def)

context pg_server
begin

lemma owned_insert_endpoint:
  assumes "owned ty g db" "insert_row ty ''endpoints'' endpointColumns (endpoint_params ep) db = Inr r"
    and "belongs ty True g (ep_ID ep) (ep_TenantID ep)"
  shows "owned ty g (db(''endpoints'' := db ''endpoints'' @ [r]))"
  using assms owners_insert_endpoint [of db ep r] insert_endpoint_row [OF assms(2)]
  by (auto simp: owned_def conforms_def belongs_def)

text \<open>The database checks that the endpoint exists, the record says whose it is.\<close>

lemma owned_insert_event:
  assumes "owned ty g db" "insert_row ty ''events'' eventColumns (event_params ev) db = Inr r"
    and "belongs ty True g (ev_EndpointID ev) (ev_TenantID ev)"
  shows "owned ty g (with_event r db)"
proof -
  from insert_event_row [OF assms(2)] obtain t u where
    r: "r ''tenant_id'' = VText t" "r ''endpoint_id'' = VText u" and gu: "g u = Some t"
    using assms(3) by (auto simp: belongs_def)
  from assms(2) obtain q where q: "q \<in> set (db ''endpoints'')" "q ''id'' = r ''endpoint_id''"
    by (auto simp: insert_row_def violates_reference_def list_ex_iff split: sum.splits if_splits)
  with assms(1) obtain t' where t': "q ''tenant_id'' = VText t'" unfolding owned_def owners_ok_def by blast
  with assms(1) q r(2) have "g u = Some t'" unfolding owned_def conforms_def by auto
  with gu t' r(1) q have "\<exists>ep \<in> set (db ''endpoints''). ep ''id'' = r ''endpoint_id'' \<and> ep ''tenant_id'' = r ''tenant_id''"
    by auto
  then show ?thesis
    using assms(1) unfolding owned_def owners_ok_def conforms_def with_event_def by auto
qed

text \<open>A generated identifier can be recorded as a tenant's before it is used.\<close>

lemma anytime_reserve:
  assumes "\<And>h u. g \<subseteq>\<^sub>m h \<Longrightarrow> belongs ty F h u tid \<Longrightarrow> anytime P (shared P ty F) R h (k u)"
  shows "anytime P (shared P ty F) R g (NewUUID k)"
proof (rule anytime_Step)
  fix h and w :: world assume h: "g \<subseteq>\<^sub>m h" "shared P ty F h w"
  let ?u = "pl_uuid P (w_tick w)"
  define h' where "h' = (case uuid_in ty tid of None \<Rightarrow> h | Some t \<Rightarrow> if F then h(?u \<mapsto> t) else h)"
  have le: "h \<subseteq>\<^sub>m h'"
    using h(2) by (auto simp: h'_def shared_def unused_def map_le_def split: option.split)
  have "F \<Longrightarrow> unused P h' (Suc (w_tick w))"
    using h(2) by (auto simp: h'_def shared_def unused_def dest: injD split: option.splits)
  then have "shared P ty F h' (tick w)"
    using h(2) conforms_later [OF _ le] by (auto simp: shared_def owned_def)
  moreover have "belongs ty F h' ?u tid"
    by (auto simp: belongs_def h'_def uuid_generated)
  ultimately show "\<exists>h'. h \<subseteq>\<^sub>m h' \<and> shared P ty F h' (snd (step P (NewUUID k) w))
      \<and> anytime P (shared P ty F) R h' (fst (step P (NewUUID k) w))"
    using le assms [OF map_le_trans [OF h(1) le]] by auto
qed (simp add: ongoing_def)

end

subsection \<open>Repositories\<close>

text \<open>What an event and a tenant that were read satisfy, however old they are when they are used.\<close>

definition event_read :: "gerr + event \<Rightarrow> bool" where
  "event_read r = (case r of Inl e \<Rightarrow> True
     | Inr ev \<Rightarrow> 0 \<le> ev_AttemptCount ev \<and> ev_AttemptCount ev < 5 \<and> ev_MaxAttempts ev = 5)"

definition tenant_read :: "gerr + tenant \<Rightarrow> bool" where
  "tenant_read r = (case r of Inl e \<Rightarrow> True | Inr tn \<Rightarrow> tenant_ok tn \<and> tn_RetryBaseMs tn < 2 ^ 31)"

definition endpoint_read :: "pgtypes \<Rightarrow> bool \<Rightarrow> string \<Rightarrow> owners \<Rightarrow> gerr + endpoint \<Rightarrow> bool" where
  "endpoint_read ty F eid g r = (case r of Inl e \<Rightarrow> True | Inr ep \<Rightarrow> belongs ty F g eid (ep_TenantID ep))"

lemma one_request_repos [intro]:
  "one_request (EventRepo_Create ev)" "one_request (EventRepo_UpdateStatus eid st)"
  "one_request (EventRepo_UpdateForRetry eid st n at)" "one_request (EventRepo_GetByID eid)"
  "one_request (EndpointRepo_Create ep)" "one_request (EndpointRepo_Update ep)" "one_request (EndpointRepo_Delete eid)"
  "one_request (EndpointRepo_GetByID eid)"
  "one_request (TenantRepo_Create tn)" "one_request (TenantRepo_Update tn)" "one_request (TenantRepo_GetByID tid)"
  "one_request (DeliveryAttemptRepo_Create a)" "one_request (DeadLetterEventRepo_Create d)"
  by (auto simp: EventRepo_Create_def EventRepo_UpdateStatus_def EventRepo_UpdateForRetry_def EventRepo_GetByID_def
    EndpointRepo_Create_def EndpointRepo_Update_def EndpointRepo_Delete_def EndpointRepo_GetByID_def TenantRepo_Create_def
    TenantRepo_Update_def TenantRepo_GetByID_def DeliveryAttemptRepo_Create_def DeadLetterEventRepo_Create_def pg_QueryRow_def)

named_theorems anytime_rules

lemma event_row_read:
  "shared P ty F g w \<Longrightarrow> r \<in> set (rows_with (w_db w) ''events'' ''id'' u) \<Longrightarrow> event_read (Inr (row_event r))"
  by (auto simp: shared_def tables_ok_def attempts_ok_def rows_with_def event_read_def row_event_def)

lemma event_read_error [simp]: "event_read (Inl e)"
  by (simp add: event_read_def)

lemma endpoint_row_read:
  assumes "shared P ty F g w" "uuid_in ty eid = Some u" "r \<in> set (rows_with (w_db w) ''endpoints'' ''id'' u)"
  shows "endpoint_read ty F eid g (Inr (row_endpoint r))"
proof -
  have "g u = Some t" if "F" "uuid_in ty (ep_TenantID (row_endpoint r)) = Some t" for t
  proof -
    from assms(3) have r: "r \<in> set (w_db w ''endpoints'')" "r ''id'' = VText u" by (auto simp: rows_with_def)
    with assms(1) that(1) obtain t' where t': "r ''tenant_id'' = VText t'" "uuid_in ty t' = Some t'"
      unfolding shared_def owned_def owners_ok_def by blast
    with that(2) have "t' = t" by (simp add: row_endpoint_def)
    with assms(1) that(1) r t' show ?thesis unfolding shared_def owned_def conforms_def by blast
  qed
  with assms(2) show ?thesis by (simp add: endpoint_read_def belongs_def)
qed

lemma endpoint_read_later: "endpoint_read ty F eid g r \<Longrightarrow> g \<subseteq>\<^sub>m h \<Longrightarrow> endpoint_read ty F eid h r"
  by (auto simp: endpoint_read_def intro: belongs_later split: sum.splits)

context pg_server
begin

lemma EventRepo_anytime [anytime_rules]:
  "anytime P (shared P ty F) (\<lambda>_. event_read) g (EventRepo_GetByID eid)"
  "status_ok st \<Longrightarrow> safe P ty F g (EventRepo_UpdateStatus eid st)"
  "status_ok st \<Longrightarrow> 0 \<le> n \<Longrightarrow> n < 5 \<Longrightarrow> safe P ty F g (EventRepo_UpdateForRetry eid st n at)"
  "ev_MaxAttempts ev = 5 \<Longrightarrow> ev_AttemptCount ev = 0 \<Longrightarrow> belongs ty F g (ev_EndpointID ev) (ev_TenantID ev) \<Longrightarrow>
     safe P ty F g (EventRepo_Create ev)"
proof -
  show "anytime P (shared P ty F) (\<lambda>_. event_read) g (EventRepo_GetByID eid)"
    by (rule anytime_call, blast)
      (rule EventRepo_GetByID_wp; auto intro: event_row_read)
  show "safe P ty F g (EventRepo_UpdateStatus eid st)" if "status_ok st"
    by (rule anytime_call, blast)
      (rule EventRepo_UpdateStatus_wp;
        use that shared_tables in \<open>auto intro!: shared_write tables_ok_set_status owned_mark_event\<close>)
  show "safe P ty F g (EventRepo_UpdateForRetry eid st n at)" if "status_ok st" "0 \<le> n" "n < 5"
    by (rule anytime_call, blast)
      (rule EventRepo_UpdateForRetry_wp;
        use that shared_tables in \<open>auto intro!: shared_write tables_ok_set_retry owned_mark_event\<close>)
  show "safe P ty F g (EventRepo_Create ev)"
    if ev: "ev_MaxAttempts ev = 5" "ev_AttemptCount ev = 0" "belongs ty F g (ev_EndpointID ev) (ev_TenantID ev)"
  proof (rule anytime_call)
    fix h and w :: world assume h: "g \<subseteq>\<^sub>m h" "shared P ty F h w"
    have "shared P ty F h (tick (w\<lparr>w_db := with_event r (w_db w)\<rparr>))"
      if "insert_row ty ''events'' eventColumns (event_params ev) (w_db w) = Inr r" for r
    proof (cases F)
      case True
      then show ?thesis
        using that ev h belongs_later [OF ev(3) h(1)]
        by (auto intro!: shared_write tables_ok_insert_event owned_insert_event shared_tables)
    next
      case False
      then show ?thesis using that ev h tables_ok_insert_event by (auto simp: shared_def)
    qed
    then show "wp P (EventRepo_Create ev) (\<lambda>a w'. shared P ty F h w' \<and> (\<forall>k. h \<subseteq>\<^sub>m k \<longrightarrow> True)) w"
      by (intro EventRepo_Create_wp) (use h(2) in \<open>simp_all add: with_event_def\<close>)
  qed blast
qed

lemma EndpointRepo_anytime [anytime_rules]:
  "anytime P (shared P ty F) (endpoint_read ty F eid) g (EndpointRepo_GetByID eid)"
  "belongs ty F g (ep_ID ep) (ep_TenantID ep) \<Longrightarrow> safe P ty F g (EndpointRepo_Create ep)"
  "safe P ty F g (EndpointRepo_Update ep)"
  "safe P ty F g (EndpointRepo_Delete eid)"
proof -
  have "anytime P (shared P ty F) (endpoint_read ty F eid) g (EndpointRepo_GetByID eid)"
  proof (rule anytime_call)
    fix h and w :: world assume h: "shared P ty F h w"
    have "endpoint_read ty F eid k (Inl e)" for k e by (simp add: endpoint_read_def)
    with h show "wp P (EndpointRepo_GetByID eid) (\<lambda>a w'. shared P ty F h w' \<and> (\<forall>k. h \<subseteq>\<^sub>m k \<longrightarrow> endpoint_read ty F eid k a)) w"
      by (intro EndpointRepo_GetByID_wp) (auto dest: endpoint_row_read intro: endpoint_read_later)
  qed blast
  then show "anytime P (shared P ty F) (endpoint_read ty F eid) g (EndpointRepo_GetByID eid)" .
  show "safe P ty F g (EndpointRepo_Create ep)" if ep: "belongs ty F g (ep_ID ep) (ep_TenantID ep)"
  proof (rule anytime_call)
    fix h and w :: world assume h: "g \<subseteq>\<^sub>m h" "shared P ty F h w"
    have "shared P ty F h (tick (w\<lparr>w_db := (w_db w)(''endpoints'' := w_db w ''endpoints'' @ [r])\<rparr>))"
      if "insert_row ty ''endpoints'' endpointColumns (endpoint_params ep) (w_db w) = Inr r" for r
    proof (cases F)
      case True
      then show ?thesis
        using that h belongs_later [OF ep h(1)]
        by (auto intro!: shared_write tables_ok_insert_endpoint owned_insert_endpoint shared_tables)
    next
      case False
      then show ?thesis using that h tables_ok_insert_endpoint by (auto simp: shared_def)
    qed
    then show "wp P (EndpointRepo_Create ep) (\<lambda>a w'. shared P ty F h w' \<and> (\<forall>k. h \<subseteq>\<^sub>m k \<longrightarrow> True)) w"
      by (intro EndpointRepo_Create_wp) (use h(2) in simp_all)
  qed blast
  show "safe P ty F g (EndpointRepo_Update ep)"
    by (rule anytime_call, blast)
      (rule EndpointRepo_Update_wp;
        use shared_tables in \<open>auto intro!: shared_write tables_ok_update_endpoint owned_update_endpoint\<close>)
  show "safe P ty F g (EndpointRepo_Delete eid)"
    by (rule anytime_call, blast)
      (rule EndpointRepo_Delete_wp;
        use shared_tables in \<open>auto intro!: shared_write tables_ok_delete_endpoint owned_delete_endpoint\<close>)
qed

lemma TenantRepo_anytime [anytime_rules]:
  "anytime P (shared P ty F) (\<lambda>_. tenant_read) g (TenantRepo_GetByID tid)"
  "tenant_ok tn \<Longrightarrow> safe P ty F g (TenantRepo_Create tn)"
  "tenant_ok tn \<Longrightarrow> safe P ty F g (TenantRepo_Update tn)"
proof -
  show "anytime P (shared P ty F) (\<lambda>_. tenant_read) g (TenantRepo_GetByID tid)"
    by (rule anytime_call, blast)
      (rule TenantRepo_GetByID_wp; auto simp: tenant_read_def tables_ok_def tenants_ok_def rows_with_def dest: shared_tables)
  show "safe P ty F g (TenantRepo_Create tn)" if "tenant_ok tn"
    by (rule anytime_call, blast)
      (rule TenantRepo_Create_wp; use that shared_tables tables_ok_insert_tenant in \<open>auto intro!: shared_write\<close>)
  show "safe P ty F g (TenantRepo_Update tn)" if "tenant_ok tn"
    by (rule anytime_call, blast)
      (rule TenantRepo_Update_wp; use that shared_tables tables_ok_update_tenant in \<open>auto intro!: shared_write\<close>)
qed

lemma Delivery_anytime [anytime_rules]:
  "safe P ty F g (DeliveryAttemptRepo_Create a)"
  "safe P ty F g (DeadLetterEventRepo_Create d)"
  by (rule anytime_call, blast, rule DeliveryAttemptRepo_Create_wp; auto intro!: shared_write shared_tables)
    (rule anytime_call, blast, rule DeadLetterEventRepo_Create_wp; auto intro!: shared_write shared_tables)

end

subsection \<open>Calls that touch no table\<close>

lemma harmless_redis [simp]:
  "harmless (redis_Get k)" "harmless (redis_GetInt64 k)" "harmless (redis_Set k v t)" "harmless (redis_SetNX k v t)"
  "harmless (redis_Del k)" "harmless (redis_Incr k)" "harmless (pipe_Exec cs)"
  by (auto simp: redis_Get_def redis_GetInt64_def redis_Set_def redis_SetNX_def redis_Del_def redis_Incr_def pipe_Exec_def)

lemma harmless_reads [simp]:
  "harmless (EndpointRepo_GetByID eid)" "harmless (EndpointRepo_ListByTenantID tid l off)"
  "harmless (EndpointRepo_CountByTenantID tid)" "harmless (TenantRepo_GetByAPIKey key)"
  "harmless (EventRepo_GetByID vid)" "harmless (EventRepo_ListByTenantID tid l off)"
  "harmless (EventRepo_CountByTenantID tid)" "harmless (EventRepo_FindRetryable n)"
  by (rule harmless_pg_only, simp)+ (simp add: EventRepo_FindRetryable_def)

lemma harmless_breaker [simp]:
  "harmless (circuitBreakerService_Allow r eid)" "harmless (circuitBreakerService_RecordSuccess r eid)"
  "harmless (circuitBreakerService_RecordFailure r eid)"
  by (auto simp: circuitBreakerService_Allow_def CB_Allow_def cb_probe_def circuitBreakerService_RecordSuccess_def
    CB_RecordSuccess_def circuitBreakerService_RecordFailure_def CB_RecordFailure_def Let_def
    intro!: harmless_bind split: sum.split option.split)

lemma harmless_others [simp]:
  "harmless (lock_Acquire k t)" "harmless (lock_Release k v)" "harmless (cache_Get gl eid)" "harmless (cache_Set gl ep)"
  "harmless (RateLimiter_Allow rl tid n)" "harmless (PublishEvent gl p a b c d e f)" "harmless (Deliver gl url pl hs)"
  "harmless generateSecret" "harmless generateAPIKey"
  by (auto simp: lock_Acquire_def lock_Release_def cache_Get_def cache_Set_def RateLimiter_Allow_def PublishEvent_def
    Deliver_def generateSecret_def generateAPIKey_def intro!: harmless_bind split: sum.split option.split)

lemma harmless_getEndpoint [simp]: "harmless (getEndpoint gl eid)"
  by (auto simp: getEndpoint_def Let_def intro!: harmless_bind split: sum.split option.split)

text \<open>The jitter is drawn below a positive bound, so the library does not panic.\<close>

lemma harmless_NextRetryAt: "0 < b \<Longrightarrow> b < 2 ^ 31 \<Longrightarrow> harmless (NextRetryAt n b)"
  by (simp add: NextRetryAt_def CalculateBackoff_def rand_Int63n_def backoff_delay_capped not_le capped_pos)

subsection \<open>Services\<close>

context backend
begin

lemma publish_new_anytime: "safe P ty F g (publish_new gl p ev)"
  unfolding publish_new_def
  by (auto intro!: anytime_then anytime_rules anytime_Ret split: option.split)

lemma eventService_Create_anytime: "safe P ty F g (eventService_Create gl p tid input)"
proof -
  have stored: "safe P ty F h (bind (EventRepo_Create (new_event t input sg now uuid)) (\<lambda>e. case e of
      Some err \<Rightarrow> Ret (Inl (Wrapf ''create event: '' err '''')) | None \<Rightarrow> publish_new gl p (new_event t input sg now uuid)))"
    if "belongs ty F h (ci_EndpointID input) t" for h t sg now uuid
    using that by (intro anytime_then EventRepo_anytime(4))
      (auto intro: publish_new_anytime anytime_Ret simp: new_event_def split: option.split)
  show ?thesis
    unfolding eventService_Create_def Let_def
    by (auto intro!: anytime_bind [OF EndpointRepo_anytime(1)] anytime_Ret anytime_clock stored
      simp: endpoint_read_def split: sum.split)
qed

lemma endpointService_anytime:
  "safe P ty F g (endpointService_Create gl tid input)"
  "safe P ty F g (endpointService_Update gl eid tid upd)"
  "safe P ty F g (endpointService_Delete eid tid)"
proof -
  have stored: "safe P ty F h (bind (EndpointRepo_Create (new_endpoint tid input secret now uuid)) (\<lambda>e. case e of
      Some err \<Rightarrow> Ret (Inl (Wrapf ''create endpoint: '' err ''''))
    | None \<Rightarrow> Ret (Inr (new_endpoint tid input secret now uuid, secret))))"
    if "belongs ty F h uuid tid" for h secret now uuid
    using that by (intro anytime_then EndpointRepo_anytime(2))
      (auto intro: anytime_Ret simp: new_endpoint_def split: option.split)
  show "safe P ty F g (endpointService_Create gl tid input)"
    unfolding endpointService_Create_def Let_def
    by (auto intro!: anytime_then anytime_Ret anytime_clock(1) anytime_reserve stored split: option.split sum.split)
  show "safe P ty F g (endpointService_Update gl eid tid upd)" "safe P ty F g (endpointService_Delete eid tid)"
    unfolding endpointService_Update_def endpointService_Delete_def Let_def
    by (auto intro!: anytime_then anytime_rules anytime_Ret anytime_clock split: option.split sum.split)
qed

lemma tenantService_anytime:
  "safe P ty F g (tenantService_Create input)"
  "safe P ty F g (tenantService_Update tid upd)"
proof -
  show "safe P ty F g (tenantService_Create input)"
    unfolding tenantService_Create_def Let_def
    by (auto intro!: anytime_then anytime_rules anytime_Ret anytime_clock new_tenant_ok split: option.split sum.split)
  have "tenant_ok (tn1\<lparr>tn_UpdatedAt := now\<rparr>)" if "tenant_read (Inr tn)" "update_fields upd tn = Inr tn1" for tn tn1 now
    using that update_fields_ok(1) by (simp add: tenant_read_def tenant_ok_def)
  then show "safe P ty F g (tenantService_Update tid upd)"
    unfolding tenantService_Update_def Let_def
    by (auto intro!: anytime_value [OF TenantRepo_anytime(1)] anytime_then TenantRepo_anytime(3) anytime_Ret anytime_clock
      split: option.split sum.split)
qed

lemma handleDeadLetter_anytime: "safe P ty F g (handleDeadLetter ev reason code)"
  unfolding handleDeadLetter_def by (intro anytime_clock anytime_then anytime_rules anytime_Ret) simp_all

lemma recordAttempt_anytime: "safe P ty F g (recordAttempt gl ev result)"
  unfolding recordAttempt_def Let_def by (intro anytime_clock anytime_then anytime_rules anytime_Ret) simp_all

lemma handleFailure_anytime:
  assumes "event_read (Inr ev)"
  shows "safe P ty F g (handleFailure ev result)"
proof -
  have ev: "0 \<le> ev_AttemptCount ev" "ev_AttemptCount ev < 5" "ev_MaxAttempts ev = 5"
    using assms by (simp_all add: event_read_def)
  have base: "0 < b \<and> b < 2 ^ 31"
    if "tenant_read t" "b = (case t of Inl err \<Rightarrow> 1000 | Inr tn \<Rightarrow> tn_RetryBaseMs tn)" for t b
    using that by (auto simp: tenant_read_def tenant_ok_def split: sum.splits)
  show ?thesis
    unfolding handleFailure_def Let_def
  proof (simp, intro conjI impI handleDeadLetter_anytime anytime_value [OF TenantRepo_anytime(1)])
    fix t assume "\<not> ev_MaxAttempts ev \<le> ev_AttemptCount ev + 1" "tenant_read t"
    then show "safe P ty F g
      (bind (NextRetryAt (ev_AttemptCount ev + 1) (case t of Inl err \<Rightarrow> 1000 | Inr x \<Rightarrow> tn_RetryBaseMs x))
        (\<lambda>at. bind (EventRepo_UpdateForRetry (ev_ID ev) EventStatusRetrying (ev_AttemptCount ev + 1) at) (\<lambda>err. Ret ())))"
      using ev base [OF _ refl] by (intro anytime_then EventRepo_anytime(3) anytime_Ret harmless_anytime harmless_NextRetryAt) simp_all
  qed
qed

lemma deliver_event_anytime:
  "event_read (Inr ev) \<Longrightarrow> safe P ty F g (deliver_event gl s ev ep)"
  unfolding deliver_event_def
  by (auto intro!: anytime_then recordAttempt_anytime handleFailure_anytime anytime_rules anytime_Ret)

lemma processMessage_anytime: "safe P ty F g (processMessage gl s msg)"
proof -
  have locked: "safe P ty F g (locked_part gl s ev)" if "event_read (Inr ev)" for ev
    unfolding locked_part_def
    by (auto intro!: anytime_then handleDeadLetter_anytime deliver_event_anytime [OF that] anytime_Ret split: sum.split)
  have "safe P ty F g (process_event gl s ev)" if "event_read (Inr ev)" for ev
    unfolding process_event_def
    by (auto intro!: anytime_then anytime_deferred locked [OF that] anytime_Ret)
  then show ?thesis
    unfolding processMessage_def
    by (auto intro!: anytime_value [OF EventRepo_anytime(1)] anytime_Ret split: sum.split)
qed

lemma processRetryableEvents_anytime: "safe P ty F g (processRetryableEvents gl s)"
  unfolding processRetryableEvents_def republish_def
  by (auto intro!: anytime_then anytime_for_each anytime_rules anytime_Ret split: sum.split option.split)

end

subsection \<open>Requests\<close>

text \<open>The pings of the readiness probe are calls that touch no table.\<close>

definition pings_touch_nothing :: "Server \<Rightarrow> bool" where
  "pings_touch_nothing s \<longleftrightarrow> harmless (sv_pool_Ping s) \<and> harmless (sv_redis_Ping s)"

context backend
begin

lemma handlers_anytime:
  "safe P ty F g (EndpointHandler_Create al ctx rq)"
  "safe P ty F g (EndpointHandler_List al ctx rq)"
  "safe P ty F g (EndpointHandler_Get al eid ctx rq)"
  "safe P ty F g (EndpointHandler_Update al eid ctx rq)"
  "safe P ty F g (EndpointHandler_Delete eid ctx rq)"
  "safe P ty F g (EventHandler_Create al p ctx rq)"
  "safe P ty F g (EventHandler_List al ctx rq)"
  "safe P ty F g (EventHandler_Get al eid ctx rq)"
  "safe P ty F g (TenantHandler_Create al ctx rq)"
  "safe P ty F g (TenantHandler_GetMe al ctx rq)"
  "safe P ty F g (TenantHandler_UpdateMe al ctx rq)"
  unfolding EndpointHandler_Create_def EndpointHandler_List_def EndpointHandler_Get_def EndpointHandler_Update_def
    EndpointHandler_Delete_def EventHandler_Create_def EventHandler_List_def EventHandler_Get_def TenantHandler_Create_def
    TenantHandler_GetMe_def TenantHandler_UpdateMe_def endpointService_ListByTenantID_def endpointService_GetByID_def
    eventService_ListByTenantID_def eventService_GetByID_def Let_def
  by (auto intro!: anytime_then anytime_Ret endpointService_anytime eventService_Create_anytime tenantService_anytime
    split: option.split sum.split)

lemma by_method_anytime:
  assumes "\<And>name h. (name, h) \<in> set hs \<Longrightarrow> safe P ty F g (h ctx rq)"
  shows "safe P ty F g (by_method mux hs ctx rq)"
  unfolding by_method_def
  by (auto intro: anytime_Ret assms [OF map_of_SomeD] split: option.split)

lemma Auth_anytime:
  assumes "\<And>ctx. safe P ty F g (nxt ctx rq)"
  shows "safe P ty F g (Auth tenantService_GetByAPIKey nxt ctx rq)"
  unfolding Auth_def Let_def tenantService_GetByAPIKey_def
  by (auto intro!: anytime_then anytime_Ret assms split: sum.split)

lemma RateLimit_anytime:
  assumes "\<And>ctx. safe P ty F g (nxt ctx rq)"
  shows "safe P ty F g (RateLimit rl nxt ctx rq)"
  unfolding RateLimit_def
  by (auto intro!: anytime_then anytime_Ret assms split: option.split sum.split)

lemma api_v1_anytime: "safe P ty F g (api_v1 s path ctx rq)"
  unfolding api_v1_def TenantHandler_Routes_def EndpointHandler_Routes_def events_router_def EventHandler_Routes_def
  by (auto intro!: Auth_anytime RateLimit_anytime by_method_anytime handlers_anytime anytime_Ret
    split: option.split prod.split)

lemma route_anytime:
  assumes "pings_touch_nothing s"
  shows "safe P ty F g (route s ctx rq)"
  unfolding route_def HealthHandler_Live_def [abs_def] HealthHandler_Ready_def [abs_def]
  using assms
  by (auto intro!: by_method_anytime api_v1_anytime anytime_then anytime_Ret simp: pings_touch_nothing_def
    split: option.split prod.split)

lemma ServeHTTP_anytime:
  assumes "pings_touch_nothing s"
  shows "safe P ty F g (ServeHTTP s rq)"
  unfolding ServeHTTP_def setupRouter_def CORS_def Logging_def
  using assms by (auto intro!: anytime_then anytime_clock anytime_Ret route_anytime)

lemma dispatcher_Start_anytime: "safe P ty F g (dispatcher_Start gl s n)"
proof (induction n)
  case (Suc n)
  have "safe P ty F g (dispatch_round gl s)"
    unfolding dispatch_round_def
    by (auto intro!: anytime_requests anytime_then processMessage_anytime anytime_Ret split: sum.split)
  then show ?case by (auto intro!: anytime_then Suc.IH anytime_Ret)
qed (simp add: anytime_Ret)

lemma scheduler_Start_anytime: "safe P ty F g (scheduler_Start gl s n)"
proof (induction n)
  case (Suc n)
  have "safe P ty F g (scheduler_tick gl s)"
    unfolding scheduler_tick_def
    by (auto intro!: anytime_requests anytime_then processRetryableEvents_anytime anytime_Ret)
  then show ?case by (auto intro!: anytime_then Suc.IH anytime_Ret)
qed (simp add: anytime_Ret)

end

text \<open>
  The threads of a deployment: a goroutine for each request that the API serves, and any number
  of dispatchers and schedulers, watched for a number of rounds.
\<close>

datatype thread = Serving api_request | Dispatching nat | Scheduling nat

definition thread_prog :: "deployment \<Rightarrow> thread \<Rightarrow> unit prog" where
  "thread_prog d th = (case th of
       Serving rq \<Rightarrow> bind (ServeHTTP (dp_server d) rq) (\<lambda>_. Ret ())
     | Dispatching n \<Rightarrow> bind (dispatcher_Start (dp_lib d) (dp_dispatcher d) n) (\<lambda>_. Ret ())
     | Scheduling n \<Rightarrow> bind (scheduler_Start (dp_lib d) (dp_scheduler d) n) (\<lambda>_. Ret ()))"

definition threads :: "deployment \<Rightarrow> thread list \<Rightarrow> unit worker list" where
  "threads d ths = map (\<lambda>th. \<lparr>wk_prog = thread_prog d th, wk_held = None\<rparr>) ths"

lemma thread_safe:
  assumes "backend P rt ty pgnow" "pings_touch_nothing (dp_server d)"
  shows "safe P ty F g (thread_prog d th)"
  unfolding thread_prog_def
  by (auto intro!: anytime_then anytime_Ret backend.ServeHTTP_anytime [OF assms] backend.dispatcher_Start_anytime [OF assms(1)]
    backend.scheduler_Start_anytime [OF assms(1)] split: thread.split)

lemma threads_shared:
  assumes "backend P rt ty pgnow" "pings_touch_nothing (dp_server d)" "shared P ty F g w"
    and "reachable key P (threads d ths, w) (qs, u)"
  shows "\<exists>h. g \<subseteq>\<^sub>m h \<and> shared P ty F h u \<and> (\<forall>q \<in> set qs. wp P (wk_prog q) (\<lambda>r u'. \<exists>k. shared P ty F k u') u)"
proof -
  have "p \<in> set (threads d ths) \<Longrightarrow> safe P ty F g (wk_prog p)" for p
    using thread_safe [OF assms(1,2)] by (auto simp: threads_def)
  from reachable_anytime [OF assms(4,3) this] obtain h where
    h: "shared P ty F h u" "g \<subseteq>\<^sub>m h" "\<forall>q \<in> set qs. safe P ty F h (wk_prog q)" by auto
  have "wp P (wk_prog q) (\<lambda>r u'. \<exists>k. shared P ty F k u') u" if "q \<in> set qs" for q
    by (rule wp_mono [OF anytime_runs [OF h(3) [rule_format, OF that] h(1)]]) blast
  with h(1,2) show ?thesis by blast
qed

text \<open>
  C6: the platform under concurrency. However the requests of any number of API calls,
  dispatchers and schedulers interleave, and whatever fails, the tables keep their invariant
  (tenants keep their limits and their keys, events their types, their identifiers and at most
  five attempts) and no thread ever panics: each, whatever it has read and however long ago,
  can still run to its end and keep the invariant.
\<close>

theorem concurrent_invariant:
  assumes "backend P rt ty pgnow" "tables_ok ty (w_db w)" "pings_touch_nothing (dp_server d)"
    and "reachable key P (threads d ths, w) (qs, u)"
  shows "tables_ok ty (w_db u) \<and> (\<forall>q \<in> set qs. wp P (wk_prog q) (\<lambda>r u'. tables_ok ty (w_db u')) u)"
proof -
  have "shared P ty False (\<lambda>_. None) w" using assms(2) by (simp add: shared_def)
  from threads_shared [OF assms(1,3) this assms(4)] show ?thesis
    by (auto dest: shared_tables intro: wp_mono)
qed

definition sample_threads :: "unit worker list" where
  "sample_threads = threads sample_deployment
     [Dispatching 3, Serving (sample_request ''POST'' ''/api/v1/events''), Scheduling 2]"

lemma sample_pings [simp]: "pings_touch_nothing (dp_server sample_deployment)"
  by (simp add: sample_deployment_def api_main_def NewServer_def pings_touch_nothing_def)

theorem concurrent_invariant_witness:
  "(case run_schedule ''dispatch:e'' (sim (answering 200)) [0, 1, 2, 0, 1, 2, 0, 0, 1, 1, 0, 2, 2, 1, 0, 1, 0]
      (sample_threads, queued_world) of
    (qs, u) \<Rightarrow> tables_ok sim_types (w_db u) \<and> (\<forall>q \<in> set qs. \<forall>s. wk_prog q \<noteq> Panic s))"
proof -
  let ?sched = "[0, 1, 2, 0, 1, 2, 0, 0, 1, 1, 0, 2, 2, 1, 0, 1, 0]"
  obtain qs u where run: "run_schedule ''dispatch:e'' (sim (answering 200)) ?sched (sample_threads, queued_world) = (qs, u)"
    by (rule prod.exhaust)
  have "reachable ''dispatch:e'' (sim (answering 200)) (sample_threads, queued_world) (qs, u)"
    unfolding run [symmetric] by (rule run_schedule_reachable) (rule reach_start)
  then have "tables_ok sim_types (w_db u)"
    "\<forall>q \<in> set qs. wp (sim (answering 200)) (wk_prog q) (\<lambda>r u'. tables_ok sim_types (w_db u')) u"
    using concurrent_invariant [OF sim_backend.backend_axioms db_ok_tables [OF queued_db_ok] sample_pings]
    unfolding sample_threads_def by blast+
  then show ?thesis unfolding run by auto
qed

subsection \<open>Owners\<close>

text \<open>\<^verbatim>\<open>uuid.New\<close> never gives an identifier twice, nor one that an endpoint already has.\<close>

definition fresh_ids :: "platform \<Rightarrow> world \<Rightarrow> bool" where
  "fresh_ids P w \<longleftrightarrow> inj (pl_uuid P)
     \<and> (\<forall>m \<ge> w_tick w. \<forall>r \<in> set (w_db w ''endpoints''). r ''id'' \<noteq> VText (pl_uuid P m))"

text \<open>The owners that a database shows.\<close>

definition recorded :: "database \<Rightarrow> owners" where
  "recorded db u = (case find (\<lambda>r. r ''id'' = VText u) (db ''endpoints'') of
     None \<Rightarrow> None | Some r \<Rightarrow> (case r ''tenant_id'' of VText t \<Rightarrow> Some t | _ \<Rightarrow> None))"

lemma owned_recorded:
  assumes "owners_ok ty db"
  shows "owned ty (recorded db) db"
proof -
  have "recorded db u = Some t"
    if r: "r \<in> set (db ''endpoints'')" "r ''id'' = VText u" "r ''tenant_id'' = VText t" for r u t
  proof -
    from r(1,2) obtain q where q: "find (\<lambda>r. r ''id'' = VText u) (db ''endpoints'') = Some q"
      using find_None_iff [of "\<lambda>r. r ''id'' = VText u" "db ''endpoints''"] by (cases "find (\<lambda>r. r ''id'' = VText u) (db ''endpoints'')") auto
    then have "q \<in> set (db ''endpoints'')" "q ''id'' = r ''id''" using r(2) by (auto simp: find_Some_iff)
    with assms r(1) have "q = r" unfolding owners_ok_def by blast
    with q r(3) show ?thesis by (simp add: recorded_def)
  qed
  with assms show ?thesis by (auto simp: owned_def conforms_def)
qed

lemma unused_recorded: "fresh_ids P w \<Longrightarrow> unused P (recorded (w_db w)) (w_tick w)"
  by (fastforce simp: fresh_ids_def unused_def recorded_def find_Some_iff dom_def split: option.splits)

text \<open>What conforms to the same record has the same owners.\<close>

lemma same_owner:
  assumes "owned ty g db" "owned ty g db'" "rows_typed db"
    and "r \<in> set (db ''endpoints'')" "r' \<in> set (db' ''endpoints'')" "r' ''id'' = r ''id''"
  shows "r' ''tenant_id'' = r ''tenant_id''"
proof -
  from assms(1,2,4,5) obtain t t' where t: "r ''tenant_id'' = VText t" "r' ''tenant_id'' = VText t'"
    unfolding owned_def owners_ok_def by blast
  moreover from assms(3,4) obtain u where "r ''id'' = VText u"
    by (cases "r ''id''") (auto simp: rows_typed_def list_all_iff endpoint_row_ok_def)
  ultimately have "g u = Some t" "g u = Some t'" using assms by (auto simp: owned_def conforms_def)
  with t show ?thesis by simp
qed

text \<open>
  C7: the owners under concurrency. The check of an endpoint's owner and the insertion of the
  event are two requests, between which other threads may delete the endpoint and create others.
  As long as generated identifiers are not generated twice, every interleaving of any number of
  API calls, dispatchers and schedulers nevertheless keeps the whole invariant of the database:
  every event belongs to the tenant of its endpoint, and an endpoint never changes hands.
\<close>

theorem concurrent_ownership:
  assumes "backend P rt ty pgnow" "db_ok ty (w_db w)" "fresh_ids P w" "pings_touch_nothing (dp_server d)"
    and "reachable key P (threads d ths, w) (qs, u)"
  shows "db_ok ty (w_db u)
    \<and> (\<forall>r \<in> set (w_db w ''endpoints''). \<forall>r' \<in> set (w_db u ''endpoints'').
         r' ''id'' = r ''id'' \<longrightarrow> r' ''tenant_id'' = r ''tenant_id'')
    \<and> (\<forall>q \<in> set qs. wp P (wk_prog q) (\<lambda>r u'. db_ok ty (w_db u')) u)"
proof -
  have start: "shared P ty True (recorded (w_db w)) w"
    using assms(2,3) owned_recorded unused_recorded by (auto simp: shared_def db_ok_def)
  have ok: "shared P ty True k v \<Longrightarrow> db_ok ty (w_db v)" for k v
    by (simp add: shared_def owned_def db_ok_def)
  from threads_shared [OF assms(1,4) start assms(5)] obtain h where
    h: "recorded (w_db w) \<subseteq>\<^sub>m h" "shared P ty True h u"
    and rest: "\<forall>q \<in> set qs. wp P (wk_prog q) (\<lambda>r u'. \<exists>k. shared P ty True k u') u" by blast
  have "owned ty h (w_db w)" "owned ty h (w_db u)"
    using start h conforms_later [OF _ h(1)] by (auto simp: shared_def owned_def)
  then show ?thesis
    using ok [OF h(2)] ok rest db_ok_parts(5) assms(2) same_owner [of ty h "w_db w" "w_db u"] by (blast intro: wp_mono)
qed

text \<open>One call deletes the endpoint for which another is storing an event, a third adds one.\<close>

definition owner_threads :: "unit worker list" where
  "owner_threads = threads sample_deployment
     [Serving (sample_request ''POST'' ''/api/v1/events''), Serving (sample_request ''DELETE'' ''/api/v1/endpoints/p''),
      Serving (sample_request ''POST'' ''/api/v1/endpoints''), Dispatching 3]"

lemma answering_fresh: "fresh_ids (sim (answering c)) queued_world"
proof -
  have "inj (\<lambda>n. show_nat n)" by (rule inj_on_inverseI [of _ digits_value]) simp
  moreover have "show_nat m \<noteq> ''p''" for m
    using show_nat_chars [of "CHR ''p''" m] by (auto simp: is_digit_def)
  then have "''p'' \<noteq> show_nat m" for m by metis
  ultimately show ?thesis
    by (auto simp: fresh_ids_def inj_on_def queued_world_def empty_world_def event_db_def endpoint_row_def)
qed

theorem concurrent_ownership_witness:
  "(case run_schedule ''dispatch:e'' (sim (answering 200)) [0, 1, 2, 0, 1, 2, 0, 1, 2, 3, 1, 1, 1, 0, 2, 2, 2, 3, 0, 0, 0, 3, 2]
      (owner_threads, queued_world) of
    (qs, u) \<Rightarrow> db_ok sim_types (w_db u) \<and> (\<forall>q \<in> set qs. \<forall>s. wk_prog q \<noteq> Panic s))"
proof -
  let ?sched = "[0, 1, 2, 0, 1, 2, 0, 1, 2, 3, 1, 1, 1, 0, 2, 2, 2, 3, 0, 0, 0, 3, 2]"
  obtain qs u where run: "run_schedule ''dispatch:e'' (sim (answering 200)) ?sched (owner_threads, queued_world) = (qs, u)"
    by (rule prod.exhaust)
  have "reachable ''dispatch:e'' (sim (answering 200)) (owner_threads, queued_world) (qs, u)"
    unfolding run [symmetric] by (rule run_schedule_reachable) (rule reach_start)
  then have "db_ok sim_types (w_db u)"
    "\<forall>q \<in> set qs. wp (sim (answering 200)) (wk_prog q) (\<lambda>r u'. db_ok sim_types (w_db u')) u"
    using concurrent_ownership [OF sim_backend.backend_axioms queued_db_ok answering_fresh sample_pings]
    unfolding owner_threads_def by blast+
  then show ?thesis unfolding run by auto
qed

end
