(* ===== verification/Api_Answers.thy ===== *)
theory Api_Answers
  imports Api_Isolation
begin

text \<open>
  Every request is answered: no panic, a documented status, and no detail of an internal error.
\<close>

subsection \<open>Answers\<close>

definition internal_error :: api_body where
  "internal_error = ErrorBody \<lparr>er_Error = ''internal server error'', er_Code = ''Internal Server Error'', er_Details = []\<rparr>"

definition limiter_error :: api_body where
  "limiter_error = MapBody [(''error'', ''rate limit check failed''), (''code'', ''Internal Server Error'')]"

text \<open>An answer of the program: a documented status, and no detail of an internal error.\<close>

definition answer_ok :: "api_response \<Rightarrow> bool" where
  "answer_ok rs \<longleftrightarrow> as_Status rs \<in> {200, 201, 202, 204, 400, 401, 403, 404, 409, 429, 500, 503}
     \<and> (as_Status rs = 500 \<longrightarrow> as_Body rs \<in> {internal_error, limiter_error})"

definition library_answer :: "Server \<Rightarrow> api_response \<Rightarrow> bool" where
  "library_answer s rs \<longleftrightarrow> (\<exists>lib \<in> {ch_NotFound (sv_chi s), ch_MethodNotAllowed (sv_chi s), sv_metrics s}.
     as_Status rs = as_Status lib \<and> as_Body rs = as_Body lib)"

lemma library_answers [simp]: "library_answer s (ch_NotFound (sv_chi s))" "library_answer s (ch_MethodNotAllowed (sv_chi s))"
  "library_answer s (sv_metrics s)"
  by (simp_all add: library_answer_def)

lemma MapError_same: "MapError = response_MapError"
  by (rule ext) (simp add: MapError_def response_MapError_def)

lemma answer_errors [simp]: "answer_ok (response_HandleError e)" "answer_ok (HandleError e)"
  by (simp_all add: answer_ok_def response_HandleError_def response_MapError_def HandleError_def MapError_def
      response_Error_def response_JSON_def RespondError_def RespondJSON_def StatusText_def internal_error_def)

lemma answer_plain [simp]:
  "st \<in> {200, 201, 202, 400, 401, 404, 429, 503} \<Longrightarrow> answer_ok (response_JSON st b)"
  "st \<in> {200, 201, 202, 400, 401, 404, 429, 503} \<Longrightarrow> answer_ok (RespondJSON st b)"
  "st \<in> {400, 401, 404, 503} \<Longrightarrow> answer_ok (response_Error st msg)"
  "st \<in> {400, 401, 404, 503} \<Longrightarrow> answer_ok (RespondError st msg)"
  by (auto simp: answer_ok_def response_JSON_def response_Error_def RespondJSON_def RespondError_def)

lemma answer_set_before [simp]: "answer_ok (set_before k v rs) = answer_ok rs"
  "library_answer s (set_before k v rs) = library_answer s rs"
  by (simp_all add: answer_ok_def library_answer_def)

lemma wp_always: "wp P m Q w \<Longrightarrow> (\<And>a w'. R a w') \<Longrightarrow> wp P m R w"
  by (rule wp_mono)

lemma pg_only_always: "pg_only True m \<Longrightarrow> (\<And>a w'. R a w') \<Longrightarrow> wp P m R w"
  by (rule wp_always [OF pg_only_wp [where v = w]]) simp_all

context backend
begin

lemma endpoint_answers [simp]:
  "wp P (EndpointHandler_Create al ctx rq) (\<lambda>rs w'. answer_ok rs) w"
  "wp P (EndpointHandler_List al ctx rq) (\<lambda>rs w'. answer_ok rs) w"
  "wp P (EndpointHandler_Get al eid ctx rq) (\<lambda>rs w'. answer_ok rs) w"
  "wp P (EndpointHandler_Update al eid ctx rq) (\<lambda>rs w'. answer_ok rs) w"
  "wp P (EndpointHandler_Delete eid ctx rq) (\<lambda>rs w'. answer_ok rs) w"
  by (auto simp: EndpointHandler_Create_def EndpointHandler_List_def EndpointHandler_Get_def
      EndpointHandler_Update_def EndpointHandler_Delete_def Let_def split: sum.split option.split
      intro!: pg_only_always) (simp add: answer_ok_def)

lemma event_answers [simp]:
  "wp P (EventHandler_Create al p ctx rq) (\<lambda>rs w'. answer_ok rs) w"
  "wp P (EventHandler_List al ctx rq) (\<lambda>rs w'. answer_ok rs) w"
  "wp P (EventHandler_Get al eid ctx rq) (\<lambda>rs w'. answer_ok rs) w"
  by (auto simp: EventHandler_Create_def EventHandler_List_def EventHandler_Get_def Let_def
      split: sum.split option.split intro!: pg_only_always wp_always [OF eventService_Create_wp])

lemma tenant_answers [simp]:
  "wp P (TenantHandler_Create al ctx rq) (\<lambda>rs w'. answer_ok rs) w"
  "wp P (TenantHandler_GetMe al ctx rq) (\<lambda>rs w'. answer_ok rs) w"
  "wp P (TenantHandler_UpdateMe al ctx rq) (\<lambda>rs w'. answer_ok rs) w"
  by (auto simp: TenantHandler_Create_def TenantHandler_GetMe_def TenantHandler_UpdateMe_def
      split: sum.split option.split intro!: pg_only_always)

lemma by_method_wp:
  assumes "\<And>m h. (m, h) \<in> set hs \<Longrightarrow> wp P (h ctx rq) Q w" "Q (ch_MethodNotAllowed mux) w"
  shows "wp P (by_method mux hs ctx rq) Q w"
  using assms by (auto simp: by_method_def split: option.split dest: map_of_SomeD)

lemma answered_mono: "wp P m (\<lambda>rs w'. answer_ok rs) w \<Longrightarrow> wp P m (\<lambda>rs w'. answer_ok rs \<or> library_answer s rs) w"
  by (erule wp_mono) simp

lemma by_method_answer:
  assumes "\<And>m h. (m, h) \<in> set hs \<Longrightarrow> wp P (h ctx rq) (\<lambda>rs w'. answer_ok rs) w"
  shows "wp P (by_method (sv_chi s) hs ctx rq) (\<lambda>rs w'. answer_ok rs \<or> library_answer s rs) w"
  by (rule by_method_wp) (use assms answered_mono in auto)

lemma endpoint_routes_answer:
  "wp P (EndpointHandler_Routes (sv_chi s) al path ctx rq) (\<lambda>rs w'. answer_ok rs \<or> library_answer s rs) w"
  by (auto simp: EndpointHandler_Routes_def split: option.split
      intro!: by_method_answer)

lemma event_routes_answer:
  "wp P (EventHandler_Routes (sv_chi s) al p path ctx rq) (\<lambda>rs w'. answer_ok rs \<or> library_answer s rs) w"
  by (auto simp: EventHandler_Routes_def split: option.split
      intro!: by_method_answer)

lemma tenant_routes_answer:
  "wp P (TenantHandler_Routes (sv_chi s) al path ctx rq) (\<lambda>rs w'. answer_ok rs \<or> library_answer s rs) w"
  by (auto simp: TenantHandler_Routes_def split: option.split
      intro!: by_method_answer)

lemma limiter_answers [simp]: "answer_ok (writeError 401 msg)" "answer_ok (writeError 429 msg)"
  "answer_ok (writeError 500 ''rate limit check failed'')"
  by (simp_all add: answer_ok_def writeError_def limiter_error_def StatusText_def)

lemma events_router_answer:
  "wp P (events_router s path ctx rq) (\<lambda>rs w'. answer_ok rs \<or> library_answer s rs) w"
  unfolding events_router_def RateLimit_def
  by (auto simp: event_routes_answer split: option.split sum.split
      intro!: wp_always [OF RateLimiter_Allow_own])

lemma Auth_answer:
  assumes "\<And>tn w1. wp P (nxt (Some tn) rq) (\<lambda>rs w'. answer_ok rs \<or> library_answer s rs) w1"
  shows "wp P (Auth tenantService_GetByAPIKey nxt ctx rq) (\<lambda>rs w'. answer_ok rs \<or> library_answer s rs) w"
  by (rule Auth_wp) (use assms in auto)

lemma api_v1_answer: "wp P (api_v1 s path ctx rq) (\<lambda>rs w'. answer_ok rs \<or> library_answer s rs) w"
  unfolding api_v1_def
  by (auto simp: tenant_routes_answer split: option.split
      intro!: Auth_answer endpoint_routes_answer events_router_answer)

lemma route_answer:
  assumes "pings_harmless P s"
  shows "wp P (route s ctx rq) (\<lambda>rs w'. answer_ok rs \<or> library_answer s rs) w"
proof -
  have ready: "wp P (HealthHandler_Ready (sv_pool_Ping s) (sv_redis_Ping s) ctx rq)
      (\<lambda>rs w'. answer_ok rs \<or> library_answer s rs) w1" for w1
    by (rule Ready_wp [OF assms]) simp_all
  then show ?thesis
    by (auto simp: route_def api_v1_answer HealthHandler_Live_def split: option.split
        intro!: by_method_wp)
qed

end

text \<open>
  C18: every request is answered: no handler panics, whatever the request, the stored rows and
  the failures of Postgres, Redis and Kafka are. The status is one of twelve (or the router's
  own), an internal error is answered with a fixed text that shows nothing of its cause, and
  the request log has the status that was sent.
\<close>

theorem api_answers_every_request:
  assumes "backend P rt ty pgnow" "pings_harmless P s"
  shows "wp P (ServeHTTP s rq) (\<lambda>(rs, log) w'. (answer_ok rs \<or> library_answer s rs)
      \<and> map_of (as_Headers rs) ''Access-Control-Allow-Origin'' \<noteq> None
      \<and> (case log of None \<Rightarrow> ar_Method rq = ''OPTIONS'' | Some l \<Rightarrow> lg_Status l = as_Status rs)) w"
proof -
  have "CanonicalHeaderKey ''Access-Control-Allow-Origin'' = ''Access-Control-Allow-Origin''" by code_simp
  then have cors: "map_of (as_Headers (cors_headers rs)) ''Access-Control-Allow-Origin'' \<noteq> None" for rs
    by (simp only: map_of_eq_None_iff not_not) (auto simp: cors_headers_def set_before_def Let_def map_of_eq_None_iff)
  have same: "answer_ok (cors_headers rs) = answer_ok rs" "library_answer s (cors_headers rs) = library_answer s rs" for rs
    by (simp_all add: cors_headers_def)
  show ?thesis
  proof (rule ServeHTTP_wp, goal_cases)
    case 1
    then show ?case using cors by (simp add: same) (simp add: answer_ok_def)
  next
    case 2
    show ?case
      by (rule wp_mono [OF backend.route_answer [OF assms]]) (use cors in \<open>simp add: same\<close>)
  qed
qed

theorem api_answers_every_request_witness:
  "wp (sim (answering 200)) (ServeHTTP sample_server (sample_request ''PUT'' ''/api/v1/endpoints/p''))
     (\<lambda>(rs, log) w'. answer_ok rs \<or> library_answer sample_server rs) queued_world"
  by (rule wp_mono [OF api_answers_every_request [OF sim_backend.backend_axioms]])
    (auto simp: pings_harmless_def sample_defs)

end
