(* ===== verification/Api_Access.thy ===== *)
theory Api_Access
  imports Api_Answers
begin

text \<open>
  Who may do what: nothing without a key, and only a tenant's own rows are shown to it.
\<close>

subsection \<open>Who may do what\<close>

text \<open>Requests that the router hands to the endpoints or the events, and to the tenant's own page.\<close>

definition api_path :: "Server \<Rightarrow> string \<Rightarrow> string option" where
  "api_path s path =
     (if ch_Match (sv_chi s) ''/healthz'' path \<or> ch_Match (sv_chi s) ''/readyz'' path
        \<or> ch_Match (sv_chi s) ''/metrics'' path then None
      else map_option snd (ch_Mount (sv_chi s) ''/api/v1'' path))"

definition guarded :: "Server \<Rightarrow> string \<Rightarrow> bool" where
  "guarded s path \<longleftrightarrow> (\<exists>rest. api_path s path = Some rest \<and> ch_Mount (sv_chi s) ''/tenants'' rest = None
     \<and> (ch_Mount (sv_chi s) ''/endpoints'' rest \<noteq> None \<or> ch_Mount (sv_chi s) ''/events'' rest \<noteq> None))"

definition own_page :: "Server \<Rightarrow> string \<Rightarrow> bool" where
  "own_page s path \<longleftrightarrow> (\<exists>rest i me. api_path s path = Some rest \<and> ch_Mount (sv_chi s) ''/tenants'' rest = Some (i, me)
     \<and> \<not> ch_Match (sv_chi s) ''/'' me \<and> ch_Match (sv_chi s) ''/me'' me)"

lemma route_api: "api_path s (ar_Path rq) = Some rest \<Longrightarrow> route s None rq = api_v1 s rest None rq"
  by (auto simp: route_def api_path_def split: if_splits)

text \<open>
  C24: nobody gets in without a key. A request for endpoints or events whose key is no tenant's
  (or that has none) is answered 401, and no table, key or message changes.
\<close>

theorem unknown_key_refused:
  assumes "backend P rt ty pgnow" "guarded s (ar_Path rq)" "ar_Method rq \<noteq> ''OPTIONS''"
    and "rows_with (w_db w) ''tenants'' ''api_key'' (extractAPIKey rq) = []"
  shows "wp P (ServeHTTP s rq) (\<lambda>(rs, log) w'. as_Status rs = 401 \<and> keys_changed {} w w') w"
proof (rule ServeHTTP_wp)
  have auth: "wp P (Auth tenantService_GetByAPIKey nxt None rq) (\<lambda>rs w'. as_Status rs = 401 \<and> keys_changed {} (tick w) w') (tick w)" for nxt
    by (rule pg_server.Auth_wp [OF backend.axioms(2) [OF assms(1)]])
      (use assms(4) in \<open>simp_all add: response_Error_def response_JSON_def\<close>)
  obtain rest where "api_path s (ar_Path rq) = Some rest" "ch_Mount (sv_chi s) ''/tenants'' rest = None"
    "ch_Mount (sv_chi s) ''/endpoints'' rest \<noteq> None \<or> ch_Mount (sv_chi s) ''/events'' rest \<noteq> None"
    using assms(2) by (auto simp: guarded_def)
  then have "wp P (route s None rq) (\<lambda>rs w'. as_Status rs = 401 \<and> keys_changed {} (tick w) w') (tick w)"
    by (auto simp: route_api api_v1_def auth split: option.split)
  then show "wp P (route s None rq) (\<lambda>rs w'. \<forall>log. lg_Status log = as_Status rs \<longrightarrow>
      (case (cors_headers rs, Some log) of (rs, log) \<Rightarrow> \<lambda>w'. as_Status rs = 401 \<and> keys_changed {} w w') (tick w')) (tick w)"
    by (rule wp_mono) (auto simp: keys_changed_def)
qed (use assms(3) in simp)

text \<open>
  No tenant can read or change its own data: the routes of the tenants are mounted outside
  the group that authenticates, so their handlers never find a tenant in the context, and every
  request for the page /tenants/me is answered 401, whatever key it carries.
\<close>

theorem own_page_always_refused:
  assumes "own_page s (ar_Path rq)" "ar_Method rq = ''GET'' \<or> ar_Method rq = ''PUT''"
  shows "wp P (ServeHTTP s rq) (\<lambda>(rs, log) w'. as_Status rs = 401 \<and> keys_changed {} w w') w"
proof (rule ServeHTTP_wp)
  obtain rest i me where r: "api_path s (ar_Path rq) = Some rest" "ch_Mount (sv_chi s) ''/tenants'' rest = Some (i, me)"
    "\<not> ch_Match (sv_chi s) ''/'' me" "ch_Match (sv_chi s) ''/me'' me"
    using assms(1) by (auto simp: own_page_def)
  then have "route s None rq = Ret (RespondError 401 ''tenant not found in context'')"
    using assms(2) by (auto simp: route_api api_v1_def TenantHandler_Routes_def by_method_def
        TenantHandler_GetMe_def TenantHandler_UpdateMe_def)
  then show "wp P (route s None rq) (\<lambda>rs w'. \<forall>log. lg_Status log = as_Status rs \<longrightarrow>
      (case (cors_headers rs, Some log) of (rs, log) \<Rightarrow> \<lambda>w'. as_Status rs = 401 \<and> keys_changed {} w w') (tick w')) (tick w)"
    by (simp add: RespondError_def RespondJSON_def keys_changed_def)
qed (use assms(2) in auto)

text \<open>The rows a page shows.\<close>

definition own_endpoint :: "apilib \<Rightarrow> string \<Rightarrow> database \<Rightarrow> endpointResponse \<Rightarrow> bool" where
  "own_endpoint al tid db v \<longleftrightarrow> (\<exists>r \<in> set (db ''endpoints''). r ''tenant_id'' = VText tid
     \<and> v = endpoint_view al (row_endpoint r))"

definition own_event :: "apilib \<Rightarrow> string \<Rightarrow> database \<Rightarrow> eventResponse \<Rightarrow> bool" where
  "own_event al tid db v \<longleftrightarrow> (\<exists>r \<in> set (db ''events''). r ''tenant_id'' = VText tid
     \<and> v = event_view al (row_event r))"

fun shows_own :: "apilib \<Rightarrow> string \<Rightarrow> database \<Rightarrow> api_body \<Rightarrow> bool" where
  "shows_own al tid db (EndpointBody v) = own_endpoint al tid db v"
| "shows_own al tid db (EndpointList l) = (length (epl_Data l) \<le> 100 \<and> list_all (own_endpoint al tid db) (epl_Data l))"
| "shows_own al tid db (EventBody v) = own_event al tid db v"
| "shows_own al tid db (EventList l) = (length (evl_Data l) \<le> 100 \<and> list_all (own_event al tid db) (evl_Data l))"
| "shows_own al tid db (ErrorBody e) = True"
| "shows_own al tid db (MapBody kvs) = True"
| "shows_own al tid db _ = False"

lemma error_shows [simp]: "shows_own al tid db (as_Body (response_HandleError e))"
  "shows_own al tid db (as_Body (HandleError e))" "shows_own al tid db (as_Body (response_Error c m))"
  "shows_own al tid db (as_Body (RespondError c m))" "shows_own al tid db (as_Body (writeError c m))"
  by (simp_all add: response_HandleError_def HandleError_def response_Error_def RespondError_def
      response_JSON_def RespondJSON_def writeError_def split: prod.split)

context pg_server
begin

lemma endpoint_reads:
  assumes "tn_ID tn = tid" "uuid_in ty tid = Some tid"
  shows "wp P (EndpointHandler_Get al eid (Some tn) rq) (\<lambda>rs w'. shows_own al tid (w_db w) (as_Body rs)) w"
    "wp P (EndpointHandler_List al (Some tn) rq) (\<lambda>rs w'. shows_own al tid (w_db w) (as_Body rs)) w"
proof -
  have "own_endpoint al tid (w_db w) (endpoint_view al (row_endpoint r))"
    if "r \<in> set (w_db w ''endpoints'')" "endpoint_row_ok r" "ep_TenantID (row_endpoint r) = tid" for r
    using that by (cases "r ''tenant_id''") (auto simp: own_endpoint_def endpoint_row_ok_def row_endpoint_def)
  then show "wp P (EndpointHandler_Get al eid (Some tn) rq) (\<lambda>rs w'. shows_own al tid (w_db w) (as_Body rs)) w"
    unfolding EndpointHandler_Get_def endpointService_GetByID_def wp_bind
    by (intro EndpointRepo_GetByID_wp) (auto simp: response_JSON_def assms(1) rows_with_def)
  have page: "shows_own al tid (w_db w) (EndpointList \<lparr>epl_Data = map (endpoint_view al) (map row_endpoint
      (window (Some (clamp_limit l, off)) rs)), epl_Total = n, epl_Limit = l', epl_Offset = off'\<rparr>)"
    if "mset rs = mset (rows_with (w_db w) ''endpoints'' ''tenant_id'' tid)" for rs l off n l' off'
    using window_rows [OF that] by (fastforce simp: list_all_iff own_endpoint_def rows_with_def)
  show "wp P (EndpointHandler_List al (Some tn) rq) (\<lambda>rs w'. shows_own al tid (w_db w) (as_Body rs)) w"
    unfolding EndpointHandler_List_def endpointService_ListByTenantID_def Let_def
    by (simp, intro EndpointRepo_ListByTenantID_wp)
      (use page assms in \<open>auto simp: response_JSON_def intro!: EndpointRepo_CountByTenantID_wp\<close>)
qed

lemma event_reads:
  assumes "tn_ID tn = tid" "uuid_in ty tid = Some tid"
  shows "wp P (EventHandler_Get al eid (Some tn) rq) (\<lambda>rs w'. shows_own al tid (w_db w) (as_Body rs)) w"
    "wp P (EventHandler_List al (Some tn) rq) (\<lambda>rs w'. shows_own al tid (w_db w) (as_Body rs)) w"
proof -
  have "own_event al tid (w_db w) (event_view al (row_event r))"
    if "r \<in> set (w_db w ''events'')" "event_row_ok r" "ev_TenantID (row_event r) = tid" for r
    using that by (cases "r ''tenant_id''") (auto simp: own_event_def event_row_ok_def row_event_def)
  then show "wp P (EventHandler_Get al eid (Some tn) rq) (\<lambda>rs w'. shows_own al tid (w_db w) (as_Body rs)) w"
    unfolding EventHandler_Get_def eventService_GetByID_def wp_bind
    by (intro EventRepo_GetByID_wp) (auto simp: RespondJSON_def assms(1) rows_with_def)
  have page: "shows_own al tid (w_db w) (EventList \<lparr>evl_Data = map (event_view al) (map row_event
      (window (Some (clamp_limit l, off)) rs)), evl_Total = n, evl_Limit = l', evl_Offset = off'\<rparr>)"
    if "mset rs = mset (rows_with (w_db w) ''events'' ''tenant_id'' tid)" for rs l off n l' off'
    using window_rows [OF that] by (fastforce simp: list_all_iff own_event_def rows_with_def)
  show "wp P (EventHandler_List al (Some tn) rq) (\<lambda>rs w'. shows_own al tid (w_db w) (as_Body rs)) w"
    unfolding EventHandler_List_def eventService_ListByTenantID_def Let_def
    by (simp, intro EventRepo_ListByTenantID_wp)
      (use page assms in \<open>auto simp: RespondJSON_def intro!: EventRepo_CountByTenantID_wp\<close>)
qed

end

text \<open>A reading request: only the limiter's window changes, and what is shown is the tenant's.\<close>

definition read_ok :: "Server \<Rightarrow> string \<Rightarrow> world \<Rightarrow> api_response \<Rightarrow> world \<Rightarrow> bool" where
  "read_ok s tid w rs w' \<longleftrightarrow> keys_changed {rl_key tid} w w'
     \<and> (shows_own (sv_lib s) tid (w_db w) (as_Body rs) \<or> library_answer s rs)"

lemma read_okI: "keys_changed {} w w' \<Longrightarrow> shows_own (sv_lib s) tid (w_db w) (as_Body rs) \<or> library_answer s rs \<Longrightarrow>
    read_ok s tid w rs w'"
  by (auto simp: read_ok_def intro: keys_changed_mono)

lemma read_ok_library [simp]:
  "read_ok s tid w (ch_NotFound (sv_chi s)) w" "read_ok s tid w (ch_MethodNotAllowed (sv_chi s)) w"
  "read_ok s tid w (sv_metrics s) w"
  by (simp_all add: read_ok_def)

lemma read_ok_set_before [simp]: "read_ok s tid w (set_before k v rs) = read_ok s tid w rs"
  by (rule ext) (simp add: read_ok_def)

lemma read_ok_later:
  assumes "keys_changed {rl_key tid} v w" "read_ok s tid w rs w'"
  shows "read_ok s tid v rs w'"
proof -
  have "w_db w = w_db v" using assms(1) by (simp add: keys_changed_def)
  with assms show ?thesis by (auto simp: read_ok_def intro: keys_changed_trans)
qed

lemma reading_handlers [simp]:
  "pg_only x (EndpointHandler_Get al eid ctx rq)" "pg_only x (EndpointHandler_List al ctx rq)"
  "pg_only x (EventHandler_Get al eid ctx rq)" "pg_only x (EventHandler_List al ctx rq)"
  by (auto simp: EndpointHandler_Get_def EndpointHandler_List_def EventHandler_Get_def EventHandler_List_def
      Let_def intro!: pg_only_bind split: option.split)

lemma reading:
  assumes "pg_only False m" "wp P m (\<lambda>rs w'. shows_own (sv_lib s) tid (w_db w) (as_Body rs)) w"
  shows "wp P m (\<lambda>rs w'. read_ok s tid w rs w') w"
  by (rule wp_mono [OF reads_frame [OF assms]]) (simp add: read_okI)

context backend
begin

lemma read_endpoints:
  assumes "ar_Method rq = ''GET''" "tn_ID tn = tid" "uuid_in ty tid = Some tid"
  shows "wp P (EndpointHandler_Routes (sv_chi s) (sv_lib s) path (Some tn) rq) (\<lambda>rs w'. read_ok s tid w rs w') w"
  using assms(1) endpoint_reads [OF assms(2,3)]
  by (auto simp: EndpointHandler_Routes_def by_method_def reading split: option.split)

lemma read_events:
  assumes "ar_Method rq = ''GET''" "tn_ID tn = tid" "uuid_in ty tid = Some tid"
  shows "wp P (events_router s path (Some tn) rq) (\<lambda>rs w'. read_ok s tid w rs w') w"
proof -
  have routes: "wp P (EventHandler_Routes (sv_chi s) (sv_lib s) p rest (Some tn) rq) (\<lambda>rs w'. read_ok s tid w1 rs w') w1"
    for p rest w1
    using assms(1) event_reads [OF assms(2,3)]
    by (auto simp: EventHandler_Routes_def by_method_def reading split: option.split)
  have later: "wp P (EventHandler_Routes (sv_chi s) (sv_lib s) p rest (Some tn) rq) (\<lambda>rs w'. read_ok s tid w rs w') w1"
    if "keys_changed {rl_key tid} w w1" for p rest w1
    by (rule wp_mono [OF routes]) (rule read_ok_later [OF that])
  show ?thesis
    unfolding events_router_def RateLimit_def
    by (simp, rule wp_mono [OF RateLimiter_Allow_own [where tid = tid, folded assms(2)]])
      (use later assms(2) in \<open>auto simp: read_ok_def split: sum.split option.split\<close>)
qed

lemma read_route:
  assumes "ar_Method rq = ''GET''" "key_owner ty (w_db w) (extractAPIKey rq) tid" "pings_harmless P s"
  shows "wp P (route s None rq) (\<lambda>rs w'. read_ok s tid w rs w') w"
proof -
  have row: "tn_ID (row_tenant r) = tid" if "r \<in> set (rows_with (w_db w) ''tenants'' ''api_key'' (extractAPIKey rq))" for r
    using assms(2) that by (auto simp: key_owner_def row_tenant_def)
  have uuid: "uuid_in ty tid = Some tid" using assms(2) by (simp add: key_owner_def)
  have ticked: "keys_changed {rl_key tid} w (tick w)" by (simp add: keys_changed_def)
  have auth: "wp P (Auth tenantService_GetByAPIKey nxt None rq) (\<lambda>rs w'. read_ok s tid w rs w') w"
    if "\<And>tn. tn_ID tn = tid \<Longrightarrow> wp P (nxt (Some tn) rq) (\<lambda>rs w'. read_ok s tid (tick w) rs w') (tick w)" for nxt
    by (rule Auth_wp) (use read_okI in \<open>auto intro!: wp_mono [OF that [OF row]] read_ok_later [OF ticked]\<close>)
  have authed: "wp P (Auth tenantService_GetByAPIKey (EndpointHandler_Routes (sv_chi s) (sv_lib s) path) None rq)
      (\<lambda>rs w'. read_ok s tid w rs w') w"
    "wp P (Auth tenantService_GetByAPIKey (events_router s path) None rq) (\<lambda>rs w'. read_ok s tid w rs w') w" for path
    by (rule auth, rule read_endpoints [OF assms(1) _ uuid]; assumption)
      (rule auth, rule read_events [OF assms(1) _ uuid]; assumption)
  have tenants: "wp P (TenantHandler_Routes (sv_chi s) (sv_lib s) path None rq) (\<lambda>rs w'. read_ok s tid w rs w') w" for path
    using assms(1) by (auto simp: TenantHandler_Routes_def by_method_def TenantHandler_GetMe_def read_okI)
  have "wp P (HealthHandler_Ready (sv_pool_Ping s) (sv_redis_Ping s) None rq) (\<lambda>rs w'. shows_own (sv_lib s) tid (w_db w) (as_Body rs)) w"
    by (rule Ready_wp [OF assms(3)]) (simp_all add: response_JSON_def)
  from wp_conj [OF Ready_frame [OF assms(3)] this] have ready:
    "wp P (HealthHandler_Ready (sv_pool_Ping s) (sv_redis_Ping s) None rq) (\<lambda>rs w'. read_ok s tid w rs w') w"
    by (rule wp_mono) (simp add: read_okI)
  show ?thesis
    unfolding route_def api_v1_def
    using authed tenants ready assms(1)
    by (auto simp: by_method_def HealthHandler_Live_def response_JSON_def read_okI split: option.split)
qed

end

text \<open>
  C19: a tenant sees only its own data. A reading request changes no table, and every endpoint
  and event in its answer, alone or in a page of at most a hundred, is a stored row of the
  tenant whose key the request carries. In particular the secret of an endpoint and the events
  of others are never shown.
\<close>

theorem reads_show_own_rows:
  assumes "backend P rt ty pgnow" "ar_Method rq = ''GET''" "pings_harmless P s"
    and "key_owner ty (w_db w) (extractAPIKey rq) tid"
  shows "wp P (ServeHTTP s rq) (\<lambda>(rs, log) w'. w_db w' = w_db w
      \<and> (shows_own (sv_lib s) tid (w_db w) (as_Body rs) \<or> library_answer s rs)) w"
proof (rule ServeHTTP_wp)
  have "wp P (route s None rq) (\<lambda>rs w'. read_ok s tid (tick w) rs w') (tick w)"
    by (rule backend.read_route [OF assms(1,2)]) (use assms(3,4) in simp_all)
  then show "wp P (route s None rq) (\<lambda>rs w'. \<forall>log. lg_Status log = as_Status rs \<longrightarrow>
      (case (cors_headers rs, Some log) of (rs, log) \<Rightarrow> \<lambda>w'. w_db w' = w_db w
        \<and> (shows_own (sv_lib s) tid (w_db w) (as_Body rs) \<or> library_answer s rs)) (tick w')) (tick w)"
    by (rule wp_mono) (auto simp: read_ok_def keys_changed_def library_answer_def)
qed (use assms(2) in simp)

theorem unknown_key_refused_witness:
  "wp (sim (answering 200)) (ServeHTTP sample_server
       ((sample_request ''DELETE'' ''/api/v1/endpoints/p'')\<lparr>ar_Header := \<lambda>h. ''stolen''\<rparr>))
     (\<lambda>(rs, log) w'. as_Status rs = 401 \<and> keys_changed {} queued_world w') queued_world"
  by (rule unknown_key_refused [OF sim_backend.backend_axioms])
    (simp_all add: guarded_def api_path_def sample_defs)

theorem own_page_always_refused_witness:
  "wp (sim (answering 200)) (ServeHTTP sample_server (sample_request ''GET'' ''/api/v1/tenants/me''))
     (\<lambda>(rs, log) w'. as_Status rs = 401 \<and> keys_changed {} queued_world w') queued_world"
  by (rule own_page_always_refused) (simp_all add: own_page_def api_path_def sample_defs)

theorem reads_show_own_rows_witness:
  "wp (sim (answering 200)) (ServeHTTP sample_server (sample_request ''GET'' ''/api/v1/endpoints/p''))
     (\<lambda>(rs, log) w'. w_db w' = w_db queued_world
        \<and> (shows_own (sv_lib sample_server) ''t'' (w_db queued_world) (as_Body rs)
             \<or> library_answer sample_server rs)) queued_world"
  by (rule reads_show_own_rows [OF sim_backend.backend_axioms])
    (simp_all add: key_owner_def pings_harmless_def sample_defs)

subsection \<open>What the answers give away\<close>

text \<open>
  An endpoint of another tenant and one that does not exist are answered differently: reading
  gives another text, changing another status. A tenant can find out which identifiers exist.
\<close>

definition some_tenant :: tenant where
  "some_tenant = \<lparr>tn_ID = ''t'', tn_Name = ''acme'', tn_APIKey = ''k'', tn_RateLimitPerMinute = 100,
     tn_MaxRetries = 5, tn_RetryBaseMs = 1000, tn_CreatedAt = 0, tn_UpdatedAt = 0\<rparr>"

definition answer_to :: "api_response prog \<Rightarrow> (int \<times> api_body) option" where
  "answer_to m = (case run (sim quiet) m api_world of
     (Returns rs, w) \<Rightarrow> Some (as_Status rs, as_Body rs) | (Panics s, w) \<Rightarrow> None)"

lemma foreign_endpoint_read:
  "answer_to (EndpointHandler_Get sim_apilib ''q'' (Some some_tenant) (sample_request ''GET'' ''/q''))
     = Some (404, ErrorBody \<lparr>er_Error = ''endpoint not found'', er_Code = ''Not Found'', er_Details = []\<rparr>)"
  "answer_to (EndpointHandler_Get sim_apilib ''missing'' (Some some_tenant) (sample_request ''GET'' ''/missing''))
     = Some (404, ErrorBody \<lparr>er_Error = ''resource not found'', er_Code = ''Not Found'', er_Details = []\<rparr>)"
  by code_simp+

lemma foreign_endpoint_change:
  "map_option fst (answer_to (EndpointHandler_Delete ''q'' (Some some_tenant) (sample_request ''DELETE'' ''/q''))) = Some 403"
  "map_option fst (answer_to (EndpointHandler_Delete ''missing'' (Some some_tenant) (sample_request ''DELETE'' ''/missing'')))
     = Some 404"
  by code_simp+

text \<open>A page says the limit that was asked for, not the one that was used.\<close>

lemma page_echoes_limit:
  "(case answer_to (EndpointHandler_List sim_apilib (Some some_tenant)
        ((sample_request ''GET'' ''/'')\<lparr>ar_Query := \<lambda>q. if q = ''limit'' then ''-3'' else ''''\<rparr>)) of
      Some (st, EndpointList l) \<Rightarrow> epl_Limit l = - 3 \<and> length (epl_Data l) = 1 | _ \<Rightarrow> False)"
  by code_simp

end
