(* ===== verification/Grpc_Server.thy ===== *)
theory Grpc_Server
  imports Api_Isolation Liveness
begin

text \<open>
  \<^verbatim>\<open>internal/grpc/server.go\<close>: the internal service that other parts of the platform ask for an
  endpoint with its secret and for the state of a breaker. An answer is a response or a status
  of the library, its code and its message.
\<close>

datatype grpc_code = InvalidArgument | NotFound | Internal

record GetEndpointResponse =
  ger_Id :: string
  ger_TenantId :: string
  ger_Url :: string
  ger_Secret :: string
  ger_Active :: bool
  ger_EventTypes :: "string list option"

definition GetEndpoint :: "string \<Rightarrow> ((grpc_code \<times> string) + GetEndpointResponse) prog" where
  "GetEndpoint endpointId =
     (if endpointId = '''' then Ret (Inl (InvalidArgument, ''endpoint_id is required''))
      else bind (endpointService_GetByID endpointId) (\<lambda>r. Ret (case r of
        Inl err \<Rightarrow>
          if err = ErrNotFound then Inl (NotFound, ''endpoint not found'')
          else Inl (Internal, ''internal error'')
      | Inr ep \<Rightarrow> Inr \<lparr>ger_Id = ep_ID ep, ger_TenantId = ep_TenantID ep, ger_Url = ep_URL ep,
          ger_Secret = ep_Secret ep, ger_Active = ep_Active ep, ger_EventTypes = ep_EventTypes ep\<rparr>)))"

text \<open>Of the server's fields only the breaker has settings.\<close>

record WebhookInternalServer =
  ws_circuitBreaker :: CircuitBreakerRepo

definition NewWebhookInternalServer :: "CircuitBreakerRepo \<Rightarrow> WebhookInternalServer" where
  "NewWebhookInternalServer circuitBreaker = \<lparr>ws_circuitBreaker = circuitBreaker\<rparr>"

definition GetCircuitBreakerState :: "WebhookInternalServer \<Rightarrow> string \<Rightarrow> ((grpc_code \<times> string) + string) prog" where
  "GetCircuitBreakerState s endpointId =
     (if endpointId = '''' then Ret (Inl (InvalidArgument, ''endpoint_id is required''))
      else bind (circuitBreakerService_GetState (ws_circuitBreaker s) endpointId) (\<lambda>r. Ret (case r of
        Inl err \<Rightarrow> Inl (Internal, ''internal error'')
      | Inr state \<Rightarrow> Inr state)))"



text \<open>The state of a breaker that was never used is closed, whatever the endpoint.\<close>

lemma grpc_state_closed:
  assumes "redis_server P rt" "eid \<noteq> ''''" "live (rt (w_tick w)) (w_keys w) (cb_stateKey eid) = None"
  shows "wp P (GetCircuitBreakerState s eid) (\<lambda>r w'. r = Inr CBClosed \<or> r = Inl (Internal, ''internal error'')) w"
  unfolding GetCircuitBreakerState_def circuitBreakerService_GetState_def CB_GetState_def
  using assms(2,3) by (simp, intro redis_server.redis_Get_wp [OF assms(1)]) auto

end
