(* ===== verification/Grpc_Client.thy ===== *)
theory Grpc_Client
  imports Grpc_Server
begin

text \<open>
  \<^verbatim>\<open>internal/grpc/client.go\<close>: the client of the internal service. The connection is a stub, the
  calls of the generated client; \<^verbatim>\<open>grpc.Dial\<close> and closing a connection are calls of the library.
  Put on the server through \<open>loopback\<close>, the client gives what the server answers.
\<close>

record grpc_stub =
  st_GetEndpoint :: "string \<Rightarrow> (gerr + GetEndpointResponse) prog"
  st_GetCircuitBreakerState :: "string \<Rightarrow> (gerr + string) prog"

record grpc_Client =
  gc_conn :: "grpc_stub option"
  gc_client :: grpc_stub

definition grpc_NewClient :: "(string \<Rightarrow> gerr + grpc_stub) \<Rightarrow> string \<Rightarrow> gerr + grpc_Client" where
  "grpc_NewClient dial addr = (case dial addr of
     Inl err \<Rightarrow> Inl (Wrapf ''grpc dial: '' err '''')
   | Inr conn \<Rightarrow> Inr \<lparr>gc_conn = Some conn, gc_client = conn\<rparr>)"

definition client_GetEndpoint :: "grpc_Client \<Rightarrow> string \<Rightarrow> (gerr + GetEndpointResponse) prog" where
  "client_GetEndpoint c endpointID =
     bind (st_GetEndpoint (gc_client c) endpointID) (\<lambda>r. Ret (case r of
       Inl err \<Rightarrow> Inl (Wrapf ''grpc get endpoint: '' err '''')
     | Inr resp \<Rightarrow> Inr resp))"

definition client_GetCircuitBreakerState :: "grpc_Client \<Rightarrow> string \<Rightarrow> (gerr + string) prog" where
  "client_GetCircuitBreakerState c endpointID =
     bind (st_GetCircuitBreakerState (gc_client c) endpointID) (\<lambda>r. Ret (case r of
       Inl err \<Rightarrow> Inl (Wrapf ''grpc get circuit breaker state: '' err '''')
     | Inr state \<Rightarrow> Inr state))"

definition client_Close :: "(grpc_stub \<Rightarrow> gerr option) \<Rightarrow> grpc_Client \<Rightarrow> gerr option" where
  "client_Close close c = (case gc_conn c of Some conn \<Rightarrow> close conn | None \<Rightarrow> None)"

text \<open>A connection that calls the server and makes its status an error.\<close>

definition loopback :: "(grpc_code \<times> string \<Rightarrow> gerr) \<Rightarrow> WebhookInternalServer \<Rightarrow> grpc_stub" where
  "loopback status_err srv =
     \<lparr>st_GetEndpoint = (\<lambda>eid. bind (GetEndpoint eid) (\<lambda>r. Ret (map_sum status_err id r))),
      st_GetCircuitBreakerState = (\<lambda>eid. bind (GetCircuitBreakerState srv eid) (\<lambda>r. Ret (map_sum status_err id r)))\<rparr>"

definition connected :: "(grpc_code \<times> string \<Rightarrow> gerr) \<Rightarrow> WebhookInternalServer \<Rightarrow> grpc_Client" where
  "connected status_err srv = \<lparr>gc_conn = Some (loopback status_err srv), gc_client = loopback status_err srv\<rparr>"

lemma NewClient_connected: "dial addr = Inr (loopback se srv) \<Longrightarrow> grpc_NewClient dial addr = Inr (connected se srv)"
  by (simp add: grpc_NewClient_def connected_def)

text \<open>The client's answers are the server's, with the status as an error under one more wrapper.\<close>

lemma client_GetEndpoint_wp:
  "wp P (GetEndpoint eid) (\<lambda>r. Q (case r of
      Inl status \<Rightarrow> Inl (Wrapf ''grpc get endpoint: '' (se status) '''') | Inr resp \<Rightarrow> Inr resp)) w \<Longrightarrow>
   wp P (client_GetEndpoint (connected se srv) eid) Q w"
  by (simp add: client_GetEndpoint_def connected_def loopback_def)
    (erule wp_mono, auto split: sum.splits)

lemma client_GetCircuitBreakerState_wp:
  "wp P (GetCircuitBreakerState srv eid) (\<lambda>r. Q (case r of
      Inl status \<Rightarrow> Inl (Wrapf ''grpc get circuit breaker state: '' (se status) '''') | Inr state \<Rightarrow> Inr state)) w \<Longrightarrow>
   wp P (client_GetCircuitBreakerState (connected se srv) eid) Q w"
  by (simp add: client_GetCircuitBreakerState_def connected_def loopback_def)
    (erule wp_mono, auto split: sum.splits)

end
