(* ===== verification/Metrics.thy ===== *)
theory Metrics
  imports Races
begin

text \<open>
  \<^verbatim>\<open>pkg/telemetry/metrics.go\<close> and the places where the services update its metrics. The registry
  is the Prometheus library's: \<open>metrics_registry\<close> states what its documentation promises, that
  registering fails on a bad or a taken name and that a vector panics on values that do not fit
  its labels. The updates of a call depend on its arguments and its result only, so they are
  functions of these.
\<close>

subsection \<open>The metrics\<close>

datatype metric_kind = CounterVec | HistogramVec | GaugeVec

record metric =
  mt_Kind :: metric_kind
  mt_Name :: string
  mt_Help :: string
  mt_Labels :: "string list"

definition EventsPublished :: metric where
  "EventsPublished = \<lparr>mt_Kind = CounterVec, mt_Name = ''webhook_events_published_total'',
     mt_Help = ''Total number of events published'', mt_Labels = [''tenant_id'', ''event_type'']\<rparr>"

definition EventsDelivered :: metric where
  "EventsDelivered = \<lparr>mt_Kind = CounterVec, mt_Name = ''webhook_events_delivered_total'',
     mt_Help = ''Total number of events delivered successfully'', mt_Labels = [''endpoint_id'', ''status_code'']\<rparr>"

definition EventsFailed :: metric where
  "EventsFailed = \<lparr>mt_Kind = CounterVec, mt_Name = ''webhook_events_failed_total'',
     mt_Help = ''Total number of events that failed delivery'', mt_Labels = [''endpoint_id'']\<rparr>"

text \<open>A histogram with the library's default buckets.\<close>

definition DeliveryDuration :: metric where
  "DeliveryDuration = \<lparr>mt_Kind = HistogramVec, mt_Name = ''webhook_delivery_duration_seconds'',
     mt_Help = ''Duration of webhook delivery attempts in seconds'', mt_Labels = [''endpoint_id'']\<rparr>"

definition CircuitBreakerState :: metric where
  "CircuitBreakerState = \<lparr>mt_Kind = GaugeVec, mt_Name = ''webhook_circuit_breaker_state'',
     mt_Help = ''Circuit breaker state: 0=closed, 1=open, 2=half_open'', mt_Labels = [''endpoint_id'']\<rparr>"

definition KafkaMessagesConsumed :: metric where
  "KafkaMessagesConsumed = \<lparr>mt_Kind = CounterVec, mt_Name = ''webhook_kafka_messages_consumed_total'',
     mt_Help = ''Total number of Kafka messages consumed'', mt_Labels = [''topic'', ''group'']\<rparr>"

definition RateLimitExceeded :: metric where
  "RateLimitExceeded = \<lparr>mt_Kind = CounterVec, mt_Name = ''webhook_rate_limit_exceeded_total'',
     mt_Help = ''Total number of rate limit exceeded events'', mt_Labels = [''tenant_id'']\<rparr>"

lemmas metric_defs = EventsPublished_def EventsDelivered_def EventsFailed_def DeliveryDuration_def
  CircuitBreakerState_def KafkaMessagesConsumed_def RateLimitExceeded_def

text \<open>\<^verbatim>\<open>init\<close>: the registrations in their order; \<open>None\<close> is the panic of \<^verbatim>\<open>MustRegister\<close>.\<close>

fun must_register_all :: "('r \<Rightarrow> metric \<Rightarrow> 'r option) \<Rightarrow> metric list \<Rightarrow> 'r \<Rightarrow> 'r option" where
  "must_register_all MustRegister [] r = Some r"
| "must_register_all MustRegister (m # ms) r = (case MustRegister r m of
     None \<Rightarrow> None | Some r' \<Rightarrow> must_register_all MustRegister ms r')"

definition registered_metrics :: "metric list" where
  "registered_metrics = [EventsPublished, EventsDelivered, EventsFailed, DeliveryDuration, CircuitBreakerState,
     KafkaMessagesConsumed, RateLimitExceeded]"

definition telemetry_init :: "('r \<Rightarrow> metric \<Rightarrow> 'r option) \<Rightarrow> 'r \<Rightarrow> 'r option" where
  "telemetry_init MustRegister = must_register_all MustRegister registered_metrics"

subsection \<open>The updates\<close>

text \<open>A duration is observed in the nanoseconds it is measured in.\<close>

datatype metric_update = Inc metric "string list" | Observe metric "string list" int

definition message_metrics :: "golib \<Rightarrow> kmessage \<Rightarrow> metric_update list" where
  "message_metrics gl msg = (case gl_UnmarshalMessage gl (km_Value msg) of
     Inl err \<Rightarrow> [] | Inr em \<Rightarrow> [Inc KafkaMessagesConsumed [km_Topic msg, ''dispatcher-group'']])"

definition delivery_metrics :: "event \<Rightarrow> DeliveryResult \<Rightarrow> metric_update list" where
  "delivery_metrics ev result = Observe DeliveryDuration [ev_EndpointID ev] (dr_Duration result) #
     (if successful result then [Inc EventsDelivered [ev_EndpointID ev, show_int (dr_StatusCode result)]]
      else [Inc EventsFailed [ev_EndpointID ev]])"

definition publish_metrics :: "string \<Rightarrow> CreateEventInput \<Rightarrow> gerr + event \<Rightarrow> metric_update list" where
  "publish_metrics tenantID input res = (case res of
     Inl err \<Rightarrow> [] | Inr ev \<Rightarrow> [Inc EventsPublished [tenantID, ci_EventType input]])"

subsection \<open>The registry\<close>

definition name_start :: "char \<Rightarrow> bool" where
  "name_start c \<longleftrightarrow> (CHR ''a'' \<le> c \<and> c \<le> CHR ''z'') \<or> (CHR ''A'' \<le> c \<and> c \<le> CHR ''Z'') \<or> c = CHR ''_''"

definition metric_name_ok :: "string \<Rightarrow> bool" where
  "metric_name_ok s = (case s of [] \<Rightarrow> False
     | c # cs \<Rightarrow> name_start c \<and> list_all (\<lambda>c. name_start c \<or> (CHR ''0'' \<le> c \<and> c \<le> CHR ''9'')) cs)"

definition metric_ok :: "metric \<Rightarrow> bool" where
  "metric_ok m \<longleftrightarrow> metric_name_ok (mt_Name m) \<and> list_all metric_name_ok (mt_Labels m) \<and> distinct (mt_Labels m)"

definition values_fit :: "metric \<Rightarrow> string list \<Rightarrow> bool" where
  "values_fit m vs \<longleftrightarrow> length vs = length (mt_Labels m) \<and> list_all text_ok vs"

text \<open>Only counters can be incremented and only histograms observe.\<close>

fun update_fits :: "metric_update \<Rightarrow> bool" where
  "update_fits (Inc m vs) = (mt_Kind m \<noteq> HistogramVec \<and> values_fit m vs)"
| "update_fits (Observe m vs x) = (mt_Kind m = HistogramVec \<and> values_fit m vs)"

lemma registered_metrics_ok: "list_all metric_ok registered_metrics \<and> distinct (map mt_Name registered_metrics)"
  by code_simp

locale metrics_registry =
  fixes MustRegister :: "'r \<Rightarrow> metric \<Rightarrow> 'r option" and update :: "'r \<Rightarrow> metric_update \<Rightarrow> 'r option"
    and collectors :: "'r \<Rightarrow> metric list"
  assumes register_law: "metric_ok m \<Longrightarrow> mt_Name m \<notin> mt_Name ` set (collectors r) \<Longrightarrow>
      \<exists>r'. MustRegister r m = Some r' \<and> collectors r' = collectors r @ [m]"
    and update_law: "update_fits u \<Longrightarrow> \<exists>r'. update r u = Some r' \<and> collectors r' = collectors r"
begin

lemma must_register_all_ok:
  "list_all metric_ok ms \<Longrightarrow> distinct (map mt_Name (collectors r @ ms)) \<Longrightarrow>
    \<exists>r'. must_register_all MustRegister ms r = Some r' \<and> collectors r' = collectors r @ ms"
proof (induction ms arbitrary: r)
  case (Cons m ms)
  then obtain r1 where "MustRegister r m = Some r1" "collectors r1 = collectors r @ [m]"
    using register_law [of m r] by auto
  with Cons.IH [of r1] Cons.prems show ?case by simp
qed simp

text \<open>The package is initialised without a panic.\<close>

lemma telemetry_init_ok:
  "collectors r = [] \<Longrightarrow> \<exists>r'. telemetry_init MustRegister r = Some r' \<and> collectors r' = registered_metrics"
  using must_register_all_ok [of registered_metrics r] registered_metrics_ok by (simp add: telemetry_init_def)

end

text \<open>What the code does of the metrics: the three lists of updates.\<close>

definition code_updates :: "golib \<Rightarrow> metric_update list set" where
  "code_updates gl = range (message_metrics gl) \<union> range (\<lambda>(ev, res). delivery_metrics ev res)
     \<union> range (\<lambda>(tid, input, res). publish_metrics tid input res)"

lemma updates_fit:
  "text_ok (km_Topic msg) \<Longrightarrow> list_all update_fits (message_metrics gl msg)"
  "text_ok (ev_EndpointID ev) \<Longrightarrow> text_ok (show_int (dr_StatusCode res)) \<Longrightarrow> list_all update_fits (delivery_metrics ev res)"
  "text_ok tid \<Longrightarrow> text_ok (ci_EventType input) \<Longrightarrow> list_all update_fits (publish_metrics tid input r)"
  by (auto simp: message_metrics_def delivery_metrics_def publish_metrics_def values_fit_def metric_defs
      byte_def split: sum.split)

text \<open>The gauge of the breakers and the counter of the refused requests are never updated.\<close>

fun updated :: "metric_update \<Rightarrow> metric" where
  "updated (Inc m vs) = m"
| "updated (Observe m vs x) = m"

lemma unset_metrics:
  "{CircuitBreakerState, RateLimitExceeded} \<subseteq> set registered_metrics"
  "us \<in> code_updates gl \<Longrightarrow> u \<in> set us \<Longrightarrow> updated u \<noteq> CircuitBreakerState \<and> updated u \<noteq> RateLimitExceeded"
  by (auto simp: registered_metrics_def code_updates_def message_metrics_def delivery_metrics_def publish_metrics_def metric_defs
      split: sum.splits if_splits)

text \<open>The counter of published events counts an event whose message could not be written.\<close>

lemma unpublished_event_counted:
  assumes "\<And>n m l. \<exists>e. pl_write P n m l = (Some e, l)"
  shows "wp P (publish_new gl p ev) (\<lambda>r w'. w_log w' = w_log w
    \<and> publish_metrics tid input r = [Inc EventsPublished [tid, ci_EventType input]]) w"
  by (rule wp_mono [OF unpublished_event_stays_pending(1) [OF assms]]) (simp add: publish_metrics_def)

subsection \<open>A registry\<close>

record sim_registry =
  sr_collectors :: "metric list"
  sr_updates :: "metric_update list"

definition sim_register :: "sim_registry \<Rightarrow> metric \<Rightarrow> sim_registry option" where
  "sim_register r m = (if metric_ok m \<and> mt_Name m \<notin> mt_Name ` set (sr_collectors r)
     then Some (r\<lparr>sr_collectors := sr_collectors r @ [m]\<rparr>) else None)"

definition sim_update :: "sim_registry \<Rightarrow> metric_update \<Rightarrow> sim_registry option" where
  "sim_update r u = (if update_fits u then Some (r\<lparr>sr_updates := sr_updates r @ [u]\<rparr>) else None)"

interpretation sim_metrics: metrics_registry sim_register sim_update sr_collectors
  by unfold_locales (simp_all add: sim_register_def sim_update_def)

lemma sim_telemetry_init:
  "\<exists>r'. telemetry_init sim_register \<lparr>sr_collectors = [], sr_updates = []\<rparr> = Some r'
     \<and> sr_collectors r' = registered_metrics"
  by (rule sim_metrics.telemetry_init_ok) simp

end
