(* ===== verification/Test_Vectors.thy ===== *)
theory Test_Vectors
  imports Signer
begin

text \<open>
  The hash of theory \<open>Hmac_Sha256\<close> evaluated on the one-block example of the standard
  (FIPS 180-4, the text \<^verbatim>\<open>abc\<close>).
\<close>

lemma sha256_abc: "EncodeToString (map nat (sha256 (bytes ''abc''))) =
    ''ba7816bf8f01cfea414140de5dae2223b00361a396177a9cb410ff61f20015ad''"
  by code_simp

end
