(* ===== verification/Spec2Isabelle.thy ===== *)
theory Spec2Isabelle
  imports Processes Resolution Races Concurrent Api_Access Grpc_Client Metrics Test_Vectors
begin

text \<open>
  Verification development of the multi-tenant webhook platform: an API that accepts events for
  the endpoints of tenants, a dispatcher that delivers them, and a scheduler that queues
  retries, over Postgres, Redis and Kafka.

  \<^bold>\<open>How the program is modelled.\<close> A function of the code is a HOL function. One that talks to
  its environment is a \<open>prog\<close> (theory \<open>Prog\<close>): a tree that issues one request
  after the other (a Redis command or pipeline, a SQL statement, a Kafka write or fetch, an
  HTTP request, the clock, a random source) and continues with the answer. \<open>run\<close>
  executes a program to its end; \<open>step\<close> executes one request, so that the same program
  can be interleaved with others (theory \<open>Interleaving\<close>). The services themselves are
  not part of the program: a \<open>platform\<close> answers the requests, and the locales of
  theory \<open>Platform\<close> state what the code relies on: every answer is either what the server's
  documentation says or an error, and after an error the command may or may not have been
  executed. All theorems about the code hold for every such platform; \<open>sim\<close> is one, driven
  by a script of delays, faults and choices, on which the witnesses run. Go's errors are the
  datatype \<open>gerr\<close> (theory \<open>Go_Error\<close>), results are sums, strings are lists of
  bytes, times are nanoseconds since 1970.

  \<^bold>\<open>The code, theory by theory.\<close> \<open>Domain\<close> has the structs, statuses and validation of
  \<^verbatim>\<open>internal/domain\<close>. \<open>Hmac_Sha256\<close>, \<open>Go_Strings\<close> and \<open>Signer\<close>
  have the signatures of \<^verbatim>\<open>internal/delivery/signer.go\<close>, down to SHA-256 on 32-bit words
  (\<open>Test_Vectors\<close> evaluates it on the example of the standard); \<open>Base64\<close> the text form of the
  random secrets and keys. \<open>Backoff\<close> has \<^verbatim>\<open>pkg/retry/exponential.go\<close> on 64-bit words.
  \<open>Redis_Server\<close> is the command semantics of the server, \<open>Redis_Client\<close> the calls of its
  client; \<open>Circuit_Breaker\<close>, \<open>Lock\<close>, \<open>Rate_Limiter\<close> and \<open>Endpoint_Cache\<close> are the files of
  \<^verbatim>\<open>internal/repository/redis\<close>. \<open>Sql\<close> is the semantics of the statements the repositories
  issue, \<open>Pg_Schema\<close> the tables of \<^verbatim>\<open>migrations\<close>, \<open>Pg_Client\<close> the calls of the driver;
  \<open>Event_Repo\<close>, \<open>Endpoint_Repo\<close>, \<open>Tenant_Repo\<close> and \<open>Delivery_Repo\<close> are the files of
  \<^verbatim>\<open>internal/repository/postgres\<close>. \<open>Kafka_Producer\<close> is \<^verbatim>\<open>internal/kafka/producer.go\<close> and
  \<open>Delivery\<close> is \<^verbatim>\<open>internal/delivery/http.go\<close>. \<open>Event_Service\<close>, \<open>Endpoint_Service\<close>,
  \<open>Tenant_Service\<close>, \<open>Dispatcher\<close> and \<open>Scheduler\<close> are the files of \<^verbatim>\<open>internal/service\<close>.
  \<open>Api_Response\<close>, \<open>Api_Handlers\<close> and \<open>Api_Server\<close> are \<^verbatim>\<open>internal/api\<close>: bodies and status
  codes, handlers, middleware and routes. \<open>Grpc_Server\<close> and \<open>Grpc_Client\<close> are
  \<^verbatim>\<open>internal/grpc\<close>. \<open>Config\<close> is \<^verbatim>\<open>pkg/config\<close>, and \<open>Processes\<close> the main functions under
  \<^verbatim>\<open>cmd\<close>, from the settings over the connections to the exit code, with the connections, the
  logger and the tracer they set up. \<open>Metrics\<close> is \<^verbatim>\<open>pkg/telemetry/metrics.go\<close>: which counters
  there are and which of them the code ever sets.

  \<^bold>\<open>Contracts.\<close> Each operation has a contract in the form of a weakest precondition
  (\<open>wp\<close>), proved once from the laws of the platform and used by its callers; a contract says
  that the operation returns, what it returns and how the world changed. \<open>keys_changed\<close>
  and \<open>only_db\<close> state what is left alone. \<open>Dispatch_Locking\<close> and \<open>Dispatcher_Properties\<close> have
  what follows for one worker and for several that compete for a lock, \<open>Retry_Properties\<close> what
  the scheduler does.

  \<^bold>\<open>The platform as a whole.\<close> \<open>Ownership\<close>, \<open>Integrity\<close>, \<open>Life_Cycle\<close> and \<open>Confinement\<close>
  define the invariant of the database (\<open>db_ok\<close>: who owns what, and \<open>tables_ok\<close>: what holds of
  each table), the life cycle of an event as a specification of its own (\<open>phase_step\<close>,
  \<open>evolves\<close>) and what a tenant can reach (\<open>confined\<close>); \<open>Api_Isolation\<close>, \<open>Api_Answers\<close> and
  \<open>Api_Access\<close> show what a request can do, must answer and may read. \<open>System\<close> puts requests,
  messages and ticks of the scheduler in any order and shows that the invariant holds in every
  state they reach; \<open>Histories\<close> shows that such histories refine the life cycle (a new event is
  traced to the request that asked for it: \<open>origin_of\<close>), that a resolved event stays resolved and
  that what is sent is signed over what a client sent; \<open>Liveness\<close> that on services
  that answer an accepted event is delivered, \<open>Retry_Liveness\<close> that a retry that is due is,
  and \<open>Resolution\<close> that an accepted event is delivered or failed after at most five tries,
  whatever its endpoint answers and whatever else happens between two tries (\<open>meanwhile\<close> says
  what may). These three assume of \<^verbatim>\<open>encoding/json\<close> only that what it encodes it decodes again, with
  the identifier of a message (\<open>codec_ok\<close>) and the plain text of a URL (\<open>endpoint_codec_ok\<close>), and
  ask that the payload at hand is JSON (\<open>payload_ok\<close>), the clock in the years it writes
  (\<open>clock_ok\<close>) and the URL at hand one \<^verbatim>\<open>net/http\<close> accepts. In these theories one activity is finished before the next begins; \<open>Concurrent\<close> drops
  that: the requests of all threads interleave, and the database keeps its invariant by
  rely-guarantee reasoning (\<open>anytime\<close> of theory \<open>Rely_Guarantee\<close>). \<open>tables_ok\<close> needs nothing for
  that; \<open>owners_ok\<close> needs that generated identifiers are not generated twice (\<open>fresh_ids\<close>):
  between the check of an endpoint's owner and the insertion of the event, another tenant's
  endpoint could otherwise take the identifier of a deleted one. What does not survive
  concurrency or a failure is shown as such: \<open>Races\<close> (an event delivered in between is queued
  again, one met by an open breaker stays queued, the last attempt is missing in the count of the
  dead letter) and lemmas of \<open>Dispatcher_Properties\<close>, \<open>Lock\<close> and \<open>Rate_Limiter\<close>.

  \<^bold>\<open>Bounds.\<close> The only loops without a bound of their own are the two \<^verbatim>\<open>Start\<close> functions,
  which run until their context is cancelled; they are watched for any number of rounds, so
  their theorems are about every prefix of their lives; \<open>dispatcher_loop\<close> and \<open>scheduler_loop\<close>
  say in which round they return (\<open>after_rounds\<close>), and \<open>rounds_take_time\<close> that every round
  issues a request, so that a cancellation that lasts is met. The goroutines of the API are taken
  step by step in any order (\<open>goroutines\<close>). The five tries of \<open>Resolution\<close> are the
  \<^verbatim>\<open>MaxAttempts\<close> that every event is created with.

  \<^bold>\<open>Not modelled.\<close> The formats of \<^verbatim>\<open>encoding/json\<close> and the parsers of \<^verbatim>\<open>net/url\<close>
  are a parameter (\<open>golib\<close>, \<open>apilib\<close>), and so is how \<^verbatim>\<open>chi\<close> matches patterns (\<open>chi\<close>) and
  what the libraries answer while a process starts (\<open>syslib\<close>). Of the metrics, how the library
  stores and shows them is left out (the response of its handler is a field of \<open>Server\<close>); the tracing
  middleware wraps a library; the messages of the gRPC service are generated; the interfaces of the
  services and repositories are declarations, and their one implementation is modelled.
  Log lines are modelled where a process starts and ends, and nowhere else.
\<close>

end
